(* ===== verification/Kargus_Prelude.thy ===== *)
theory Kargus_Prelude
  imports Main "HOL-Library.Word" "HOL-Library.Sublist"
begin

text \<open>
  The prelude of the development: the error values of the Go code, the result type every
  fallible operation returns, the fact collections the component theories fill, and the
  generic facts on lists, options and maps that their proofs share.

  Go's \<open>(T, error)\<close> is \<open>goerror + 'a\<close> (\<open>Inl\<close> the error); a method that only returns
  an \<open>error\<close> gives \<open>goerror option\<close> (\<open>None\<close> for \<open>nil\<close>). Effects are explicit: an
  operation takes the world it acts on and returns its result with the new world.
\<close>

section \<open>Collections\<close>

named_theorems store_defs \<open>definitions of the store operations\<close>

section \<open>Errors and results\<close>

text \<open>
  Error values. \<open>Errorf m\<close> is \<open>fmt.Errorf\<close> or \<open>errors.New\<close> without a wrapped error,
  \<open>Wrap m e\<close> is \<open>fmt.Errorf("m: %w", e)\<close>. The sentinels are the ones the code tests for.
\<close>

datatype goerror =
    Errorf string
  | Wrap string goerror
  | ErrNotFound
  | RedisNil
  | ApiNotFound
  | ApiAlreadyExists
  | ApiError string
  | ContextDone
  | ErrServerClosed

type_synonym 'a res = "goerror + 'a"

text \<open>\<open>errors.Is\<close>: the error or one it wraps is the sentinel.\<close>

fun errors_Is :: "goerror \<Rightarrow> goerror \<Rightarrow> bool" where
  "errors_Is (Wrap m e) t = (Wrap m e = t \<or> errors_Is e t)"
| "errors_Is e t = (e = t)"

lemma errors_Is_refl [simp]: "errors_Is e e"
  by (cases e) auto

text \<open>\<open>err.Error()\<close>. The texts of the library's own errors are carried by \<open>ApiError\<close>.\<close>

fun errText :: "goerror \<Rightarrow> string" where
  "errText (Errorf m) = m"
| "errText (Wrap m e) = m @ '': '' @ errText e"
| "errText ErrNotFound = ''store: not found''"
| "errText RedisNil = ''redis: nil''"
| "errText ApiNotFound = ''not found''"
| "errText ApiAlreadyExists = ''already exists''"
| "errText (ApiError m) = m"
| "errText ContextDone = ''context deadline exceeded''"
| "errText ErrServerClosed = ''http: Server closed''"

section \<open>Generic facts\<close>

lemma dropWhile_id: "(\<And>x. xs \<noteq> [] \<Longrightarrow> x = hd xs \<Longrightarrow> \<not> P x) \<Longrightarrow> dropWhile P xs = xs"
  by (cases xs) auto

lemma dropWhile_hd: "dropWhile P xs \<noteq> [] \<Longrightarrow> \<not> P (hd (dropWhile P xs))"
  by (induction xs) auto

lemma set_dropWhile_subset: "set (dropWhile P xs) \<subseteq> set xs"
  by (rule set_mono_suffix [OF suffix_dropWhile])

lemma dropWhile_rev_last:
  "rev (dropWhile P (rev xs)) \<noteq> [] \<Longrightarrow> \<not> P (last (rev (dropWhile P (rev xs))))"
  by (simp add: last_rev dropWhile_hd)

lemma hd_rev_dropWhile_rev:
  "rev (dropWhile P (rev xs)) \<noteq> [] \<Longrightarrow> hd (rev (dropWhile P (rev xs))) = hd xs"
proof (induction xs)
  case Nil
  then show ?case by simp
next
  case (Cons x xs)
  then show ?case by (auto simp: dropWhile_append split: if_splits)
qed

lemma length_rev_dropWhile_rev: "length (rev (dropWhile P (rev xs))) \<le> length xs"
  by (metis length_dropWhile_le length_rev)

lemma concat_map_singletons: "(\<And>x. x \<in> set xs \<Longrightarrow> f x = [g x]) \<Longrightarrow> concat (map f xs) = map g xs"
  by (induction xs) auto

lemma shift_div_mod:
  fixes x y k :: nat
  assumes "y < k"
  shows "(x * k + y) div k = x" and "(x * k + y) mod k = y"
  using assms by auto

lemma map_le_upd_None: "m' \<subseteq>\<^sub>m m \<Longrightarrow> m'(k := None) \<subseteq>\<^sub>m m(k := None)"
  by (auto simp: map_le_def)

lemma map_le_None: "m' \<subseteq>\<^sub>m m \<Longrightarrow> m k = None \<Longrightarrow> m' k = None"
  by (metis domIff map_le_implies_dom_le subsetD)

lemma map_of_filter_key: "map_of (filter (\<lambda>(k, v). k \<noteq> x) ps) = (map_of ps)(x := None)"
  by (induction ps) auto

end
