(* ===== verification/Go_Strings.thy ===== *)
theory Go_Strings
  imports Kargus_Prelude
begin

text \<open>
  Go strings and the parts of the packages \<open>strings\<close>, \<open>unicode/utf8\<close>,
  \<open>encoding/base64\<close> and \<open>crypto/subtle\<close> that the program calls. A Go string is a
  sequence of bytes, here a \<open>string\<close> whose characters are bytes; where Go ranges over
  a string it decodes UTF-8, and \<open>chunks\<close> does the same, one invalid byte at a time as
  \<open>RuneError\<close>. The only part of the language not written out is the Unicode case
  table beyond ASCII: it is the record \<open>unicode\<close>, an argument of the functions that
  consult it.
\<close>

section \<open>Runes\<close>

type_synonym rune = nat

abbreviation byte_val :: "char \<Rightarrow> nat" where
  "byte_val c \<equiv> of_char c"

definition RuneError :: rune where
  "RuneError = 65533"

text \<open>Continuation bytes, and the range of the second byte after each leading byte.\<close>

definition cont :: "nat \<Rightarrow> bool" where
  "cont b \<longleftrightarrow> 128 \<le> b \<and> b \<le> 191"

definition second_ok :: "nat \<Rightarrow> nat \<Rightarrow> bool" where
  "second_ok b0 b1 \<longleftrightarrow>
     (if b0 = 224 then 160 \<le> b1 \<and> b1 \<le> 191
      else if b0 = 237 then 128 \<le> b1 \<and> b1 \<le> 159
      else if b0 = 240 then 144 \<le> b1 \<and> b1 \<le> 191
      else if b0 = 244 then 128 \<le> b1 \<and> b1 \<le> 143
      else cont b1)"

text \<open>\<open>utf8.DecodeRuneInString\<close> on a non-empty string: the rune and its width.\<close>

fun decode_rune :: "nat list \<Rightarrow> rune \<times> nat" where
  "decode_rune [] = (RuneError, 0)"
| "decode_rune (b0 # bs) =
     (if b0 < 128 then (b0, 1)
      else if 194 \<le> b0 \<and> b0 \<le> 223 then
        (case bs of
           b1 # _ \<Rightarrow> if cont b1 then ((b0 - 192) * 64 + (b1 - 128), 2) else (RuneError, 1)
         | [] \<Rightarrow> (RuneError, 1))
      else if 224 \<le> b0 \<and> b0 \<le> 239 then
        (case bs of
           b1 # b2 # _ \<Rightarrow>
             if second_ok b0 b1 \<and> cont b2
             then ((b0 - 224) * 4096 + (b1 - 128) * 64 + (b2 - 128), 3) else (RuneError, 1)
         | _ \<Rightarrow> (RuneError, 1))
      else if 240 \<le> b0 \<and> b0 \<le> 244 then
        (case bs of
           b1 # b2 # b3 # _ \<Rightarrow>
             if second_ok b0 b1 \<and> cont b2 \<and> cont b3
             then ((b0 - 240) * 262144 + (b1 - 128) * 4096 + (b2 - 128) * 64 + (b3 - 128), 4)
             else (RuneError, 1)
         | _ \<Rightarrow> (RuneError, 1))
      else (RuneError, 1))"

declare decode_rune.simps(2) [simp del]

text \<open>A string cut into its runes, each with the bytes it was decoded from.\<close>

function chunks :: "string \<Rightarrow> (rune \<times> string) list" where
  "chunks [] = []"
| "chunks (c # cs) =
     (let rn = decode_rune (map byte_val (c # cs))
      in (fst rn, c # take (snd rn - 1) cs) # chunks (drop (snd rn - 1) cs))"
  by pat_completeness auto
termination
  by (relation "measure length") auto

definition runes :: "string \<Rightarrow> rune list" where
  "runes s = map fst (chunks s)"

text \<open>\<open>utf8.AppendRune\<close>: surrogates and values above the Unicode range become \<open>RuneError\<close>.\<close>

definition encode_rune :: "rune \<Rightarrow> string" where
  "encode_rune r0 =
     (let r = (if 1114111 < r0 \<or> (55296 \<le> r0 \<and> r0 \<le> 57343) then RuneError else r0)
      in map char_of
        (if r < 128 then [r]
         else if r < 2048 then [192 + r div 64, 128 + r mod 64]
         else if r < 65536 then [224 + r div 4096, 128 + (r div 64) mod 64, 128 + r mod 64]
         else [240 + r div 262144, 128 + (r div 4096) mod 64, 128 + (r div 64) mod 64,
               128 + r mod 64]))"

text \<open>The bytes of an ASCII string are its runes.\<close>

definition ascii :: "string \<Rightarrow> bool" where
  "ascii s \<longleftrightarrow> (\<forall>c \<in> set s. byte_val c < 128)"

lemma chunks_ascii: "ascii s \<Longrightarrow> chunks s = map (\<lambda>c. (byte_val c, [c])) s"
  by (induction s) (auto simp: ascii_def decode_rune.simps)

lemma chunks_ascii_append:
  "ascii p \<Longrightarrow> chunks (p @ s) = map (\<lambda>c. (byte_val c, [c])) p @ chunks s"
  by (induction p) (auto simp: ascii_def decode_rune.simps)

lemma runes_ascii_append: "ascii p \<Longrightarrow> runes (p @ s) = map byte_val p @ runes s"
  by (simp add: runes_def chunks_ascii_append comp_def)

lemma runes_ascii: "ascii s \<Longrightarrow> runes s = map byte_val s"
  by (simp add: runes_def chunks_ascii comp_def)

lemma encode_rune_ascii: "r < 128 \<Longrightarrow> encode_rune r = [char_of r]"
  by (simp add: encode_rune_def)

lemma chunks_nonempty: "s \<noteq> [] \<Longrightarrow> chunks s \<noteq> []"
  by (cases s) (auto simp: Let_def)

lemma runes_Nil [simp]: "runes [] = []"
  by (simp add: runes_def)

lemma runes_Nil_iff [simp]: "runes s = [] \<longleftrightarrow> s = []"
  by (cases s) (auto simp: runes_def Let_def)

section \<open>Case\<close>

text \<open>
  The Unicode case table beyond ASCII: \<open>unicode.ToLower\<close> of a rune, and whether two
  runes, the larger one not ASCII, lie on one \<open>unicode.SimpleFold\<close> orbit; and
  \<open>strconv.IsPrint\<close> beyond ASCII.
\<close>

record unicode =
  uc_lower :: "rune \<Rightarrow> rune"
  uc_fold :: "rune \<Rightarrow> rune \<Rightarrow> bool"
  uc_print :: "rune \<Rightarrow> bool"

definition lower_rune :: "'a unicode_scheme \<Rightarrow> rune \<Rightarrow> rune" where
  "lower_rune U r = (if r < 128 then (if 65 \<le> r \<and> r \<le> 90 then r + 32 else r) else uc_lower U r)"

definition ToLower :: "'a unicode_scheme \<Rightarrow> string \<Rightarrow> string" where
  "ToLower U s = concat (map (\<lambda>r. encode_rune (lower_rune U r)) (runes s))"

lemma ToLower_ascii_append:
  assumes "ascii p"
  shows "ToLower U (p @ s) = map (\<lambda>c. char_of (lower_rune U (byte_val c))) p @ ToLower U s"
proof -
  have "concat (map (\<lambda>c. encode_rune (lower_rune U (byte_val c))) p) =
      map (\<lambda>c. char_of (lower_rune U (byte_val c))) p"
    using assms by (intro concat_map_singletons encode_rune_ascii) (auto simp: ascii_def lower_rune_def)
  then show ?thesis by (simp add: ToLower_def runes_ascii_append assms comp_def)
qed

lemma ascii_lower: "ascii p \<Longrightarrow> ascii (map (\<lambda>c. char_of (lower_rune U (byte_val c))) p)"
  by (auto simp: ascii_def lower_rune_def)

text \<open>\<open>strings.EqualFold\<close>: rune by rune, equal under case folding.\<close>

definition fold_eq :: "'a unicode_scheme \<Rightarrow> rune \<Rightarrow> rune \<Rightarrow> bool" where
  "fold_eq U a b \<longleftrightarrow>
     a = b \<or>
     (let lo = min a b; hi = max a b
      in if hi < 128 then 65 \<le> lo \<and> lo \<le> 90 \<and> hi = lo + 32 else uc_fold U lo hi)"

definition EqualFold :: "'a unicode_scheme \<Rightarrow> string \<Rightarrow> string \<Rightarrow> bool" where
  "EqualFold U s t = list_all2 (fold_eq U) (runes s) (runes t)"

lemma EqualFold_refl [simp]: "EqualFold U s s"
  by (simp add: EqualFold_def fold_eq_def list.rel_refl)

lemma EqualFold_empty: "EqualFold U [] t \<longleftrightarrow> t = []" "EqualFold U s [] \<longleftrightarrow> s = []"
  by (auto simp: EqualFold_def)

lemma EqualFold_sym: "EqualFold U s t \<Longrightarrow> EqualFold U t s"
  unfolding EqualFold_def list_all2_conv_all_nth
  by (auto simp: fold_eq_def Let_def min.commute max.commute)

section \<open>Trimming and splitting\<close>

definition TrimRight :: "string \<Rightarrow> string \<Rightarrow> string" where
  "TrimRight s cutset = rev (dropWhile (\<lambda>c. c \<in> set cutset) (rev s))"

definition Trim :: "string \<Rightarrow> string \<Rightarrow> string" where
  "Trim s cutset = TrimRight (dropWhile (\<lambda>c. c \<in> set cutset) s) cutset"

definition HasPrefix :: "string \<Rightarrow> string \<Rightarrow> bool" where
  "HasPrefix s p \<longleftrightarrow> take (length p) s = p"

definition TrimPrefix :: "string \<Rightarrow> string \<Rightarrow> string" where
  "TrimPrefix s p = (if HasPrefix s p then drop (length p) s else s)"

text \<open>\<open>unicode.IsSpace\<close>: the Latin-1 spaces and the other code points with the property White_Space.\<close>

definition IsSpace :: "rune \<Rightarrow> bool" where
  "IsSpace r \<longleftrightarrow>
     (9 \<le> r \<and> r \<le> 13) \<or> r = 32 \<or> r = 133 \<or> r = 160 \<or> r = 5760 \<or>
     (8192 \<le> r \<and> r \<le> 8202) \<or> r = 8232 \<or> r = 8233 \<or> r = 8239 \<or> r = 8287 \<or> r = 12288"

definition TrimSpace :: "string \<Rightarrow> string" where
  "TrimSpace s =
     (let sp = (\<lambda>(r, bs). IsSpace r)
      in concat (map snd (rev (dropWhile sp (rev (dropWhile sp (chunks s)))))))"

text \<open>\<open>strings.Fields\<close>: the maximal runs of non-space runes.\<close>

fun field_runs :: "string \<Rightarrow> (rune \<times> string) list \<Rightarrow> string list" where
  "field_runs cur [] = (if cur = [] then [] else [cur])"
| "field_runs cur ((r, bs) # cs) =
     (if IsSpace r then (if cur = [] then field_runs [] cs else cur # field_runs [] cs)
      else field_runs (cur @ bs) cs)"

definition Fields :: "string \<Rightarrow> string list" where
  "Fields s = field_runs [] (chunks s)"

text \<open>\<open>strings.Split\<close> by a one-byte separator, and \<open>strings.Join\<close>.\<close>

fun SplitByte :: "char \<Rightarrow> string \<Rightarrow> string list" where
  "SplitByte d [] = [[]]"
| "SplitByte d (c # cs) =
     (if c = d then [] # SplitByte d cs
      else (case SplitByte d cs of [] \<Rightarrow> [[c]] | f # fs \<Rightarrow> (c # f) # fs))"

fun Join :: "string list \<Rightarrow> string \<Rightarrow> string" where
  "Join [] sep = []"
| "Join [x] sep = x"
| "Join (x # y # zs) sep = x @ sep @ Join (y # zs) sep"

lemma length_Trim: "length (Trim s cs) \<le> length s"
  unfolding Trim_def TrimRight_def
  by (meson le_trans length_dropWhile_le length_rev_dropWhile_rev)

lemma set_Trim: "set (Trim s cs) \<subseteq> set s"
  unfolding Trim_def TrimRight_def
  by (metis (no_types) order_trans set_dropWhile_subset set_rev)

lemma Trim_ends:
  assumes "Trim s cs \<noteq> []"
  shows "hd (Trim s cs) \<notin> set cs" and "last (Trim s cs) \<notin> set cs"
proof -
  have ne: "rev (dropWhile (\<lambda>c. c \<in> set cs) (rev (dropWhile (\<lambda>c. c \<in> set cs) s))) \<noteq> []"
    using assms by (simp add: Trim_def TrimRight_def)
  then have "dropWhile (\<lambda>c. c \<in> set cs) s \<noteq> []" by fastforce
  from dropWhile_hd [OF this] hd_rev_dropWhile_rev [OF ne]
  show "hd (Trim s cs) \<notin> set cs" by (simp add: Trim_def TrimRight_def)
  from dropWhile_rev_last [OF ne]
  show "last (Trim s cs) \<notin> set cs" by (simp add: Trim_def TrimRight_def)
qed

lemma Trim_id:
  assumes "s \<noteq> [] \<Longrightarrow> hd s \<notin> set cs" and "s \<noteq> [] \<Longrightarrow> last s \<notin> set cs"
  shows "Trim s cs = s"
proof -
  have "dropWhile (\<lambda>c. c \<in> set cs) s = s"
    using assms(1) by (intro dropWhile_id) auto
  moreover have "dropWhile (\<lambda>c. c \<in> set cs) (rev s) = rev s"
    using assms(2) by (intro dropWhile_id) (auto simp: hd_rev)
  ultimately show ?thesis by (simp add: Trim_def TrimRight_def)
qed

lemma TrimRight_last: "TrimRight s cs \<noteq> [] \<Longrightarrow> last (TrimRight s cs) \<notin> set cs"
  unfolding TrimRight_def by (rule dropWhile_rev_last)

lemma TrimRight_idem [simp]: "TrimRight (TrimRight s cs) cs = TrimRight s cs"
  by (simp add: TrimRight_def)

lemma HasPrefix_append [simp]: "HasPrefix (p @ s) p"
  by (simp add: HasPrefix_def)

lemma HasPrefix_iff: "HasPrefix s p \<longleftrightarrow> (\<exists>t. s = p @ t)"
  unfolding HasPrefix_def by (metis append_eq_conv_conj append_take_drop_id)

lemma TrimPrefix_append [simp]: "TrimPrefix (p @ s) p = s"
  by (simp add: TrimPrefix_def)

lemma SplitByte_not_Nil [simp]: "SplitByte d s \<noteq> []"
  by (induction s) (auto split: list.splits)

lemma SplitByte_no_sep: "p \<in> set (SplitByte d s) \<Longrightarrow> d \<notin> set p"
  by (induction s arbitrary: p) (auto split: list.splits if_splits)

lemma SplitByte_single: "d \<notin> set s \<Longrightarrow> SplitByte d s = [s]"
  by (induction s) auto

lemma SplitByte_append: "d \<notin> set s \<Longrightarrow> SplitByte d (s @ d # t) = s # SplitByte d t"
  by (induction s) auto

lemma SplitByte_Join:
  "xs \<noteq> [] \<Longrightarrow> (\<And>x. x \<in> set xs \<Longrightarrow> d \<notin> set x) \<Longrightarrow> SplitByte d (Join xs [d]) = xs"
  by (induction xs "[d]" rule: Join.induct) (auto simp: SplitByte_single SplitByte_append)

section \<open>Bytes: base64 and constant-time comparison\<close>

type_synonym byte = "8 word"

definition bytes_of :: "string \<Rightarrow> byte list" where
  "bytes_of s = map of_char s"

text \<open>
  \<open>base64.RawURLEncoding.EncodeToString\<close>: six bits a character, the URL-safe alphabet,
  no padding.
\<close>

fun sextets :: "nat list \<Rightarrow> nat list" where
  "sextets [] = []"
| "sextets [a] = [a div 4, (a mod 4) * 16]"
| "sextets [a, b] = [a div 4, (a mod 4) * 16 + b div 16, (b mod 16) * 4]"
| "sextets (a # b # c # bs) =
     a div 4 # ((a mod 4) * 16 + b div 16) # ((b mod 16) * 4 + c div 64) # c mod 64 # sextets bs"

definition b64_char :: "nat \<Rightarrow> char" where
  "b64_char n =
     (if n < 26 then char_of (65 + n)
      else if n < 52 then char_of (97 + (n - 26))
      else if n < 62 then char_of (48 + (n - 52))
      else if n = 62 then CHR ''-'' else CHR ''_'')"

definition RawURLEncode :: "byte list \<Rightarrow> string" where
  "RawURLEncode bs = map b64_char (sextets (map unat bs))"

text \<open>\<open>subtle.ConstantTimeByteEq\<close> and \<open>subtle.ConstantTimeCompare\<close>, with their bit operations.\<close>

unbundle bit_operations_syntax

definition ConstantTimeByteEq :: "byte \<Rightarrow> byte \<Rightarrow> nat" where
  "ConstantTimeByteEq x y = unat (drop_bit 31 ((ucast (x XOR y) :: 32 word) - 1))"

definition ConstantTimeCompare :: "byte list \<Rightarrow> byte list \<Rightarrow> nat" where
  "ConstantTimeCompare x y =
     (if length x \<noteq> length y then 0
      else ConstantTimeByteEq (fold (\<lambda>(a, b) v. v OR (a XOR b)) (zip x y) 0) 0)"

text \<open>The encoding loses nothing: the bytes can be read back from the characters.\<close>

fun unsextets :: "nat list \<Rightarrow> nat list" where
  "unsextets (p # q # r # t # ss) =
     (p * 4 + q div 16) # ((q mod 16) * 16 + r div 4) # ((r mod 4) * 64 + t) # unsextets ss"
| "unsextets [p, q, r] = [p * 4 + q div 16, (q mod 16) * 16 + r div 4]"
| "unsextets [p, q] = [p * 4 + q div 16]"
| "unsextets _ = []"

lemma sextets_inverse: "list_all (\<lambda>x. x < 256) bs \<Longrightarrow> unsextets (sextets bs) = bs"
proof (induction bs rule: sextets.induct)
  case (3 a b)
  then have "b div 16 < 16" by auto
  with 3 show ?case by (simp add: shift_div_mod)
next
  case (4 a b c bs)
  then have "b div 16 < 16" "c div 64 < 4" by auto
  with 4 show ?case by (simp add: shift_div_mod)
qed simp_all

lemma sextets_bound: "list_all (\<lambda>x. x < 256) bs \<Longrightarrow> list_all (\<lambda>n. n < 64) (sextets bs)"
proof (induction bs rule: sextets.induct)
  case (2 a)
  then have "a < 256" by simp
  then have "a div 4 < 64" "a mod 4 * 16 < 64" by auto
  then show ?case by simp
next
  case (3 a b)
  then have "a < 256" "b < 256" by simp_all
  then have "a div 4 < 64" "a mod 4 * 16 + b div 16 < 64" "b mod 16 * 4 < 64" by auto
  then show ?case by simp
next
  case (4 a b c bs)
  then have "a < 256" "b < 256" "c < 256" by simp_all
  then have "a div 4 < 64" "a mod 4 * 16 + b div 16 < 64" "b mod 16 * 4 + c div 64 < 64" by auto
  with 4 show ?case by simp
qed simp

lemma length_sextets: "length (sextets bs) = (4 * length bs + 2) div 3"
  by (induction bs rule: sextets.induct) auto

text \<open>The inverse of the alphabet, on the characters it contains.\<close>

definition b64_val :: "char \<Rightarrow> nat" where
  "b64_val c =
     (let n = byte_val c
      in if 65 \<le> n \<and> n \<le> 90 then n - 65
         else if 97 \<le> n \<and> n \<le> 122 then n - 97 + 26
         else if 48 \<le> n \<and> n \<le> 57 then n - 48 + 52
         else if n = 45 then 62 else 63)"

lemma b64_val_char: "n < 64 \<Longrightarrow> b64_val (b64_char n) = n"
  by (auto simp: b64_val_def b64_char_def Let_def)

definition url_safe :: "char \<Rightarrow> bool" where
  "url_safe c \<longleftrightarrow>
     (let n = byte_val c
      in (65 \<le> n \<and> n \<le> 90) \<or> (97 \<le> n \<and> n \<le> 122) \<or> (48 \<le> n \<and> n \<le> 57) \<or> n = 45 \<or> n = 95)"

lemma url_safe_b64_char: "n < 64 \<Longrightarrow> url_safe (b64_char n)"
  by (auto simp: url_safe_def b64_char_def Let_def)

lemma unat_bytes_bound: "list_all (\<lambda>x. x < 256) (map unat (bs :: byte list))"
  using unsigned_less [where 'a = nat and 'b = 8] by (simp add: list_all_iff)

lemmas sextets_bytes =
  sextets_inverse [OF unat_bytes_bound] sextets_bound [OF unat_bytes_bound, unfolded list_all_iff]

lemma length_RawURLEncode: "length (RawURLEncode bs) = (4 * length bs + 2) div 3"
  by (simp add: RawURLEncode_def length_sextets)

lemma RawURLEncode_url_safe: "c \<in> set (RawURLEncode bs) \<Longrightarrow> url_safe c"
  unfolding RawURLEncode_def using sextets_bytes(2) url_safe_b64_char by fastforce

lemma RawURLEncode_inj: "RawURLEncode bs = RawURLEncode bs' \<longleftrightarrow> bs = bs'"
proof
  have dec: "map unat bs = unsextets (map b64_val (RawURLEncode bs))" for bs
  proof -
    have "map b64_val (RawURLEncode bs) = map id (sextets (map unat bs))"
      unfolding RawURLEncode_def map_map
      by (intro map_cong refl) (simp add: b64_val_char sextets_bytes(2))
    then show ?thesis by (simp add: sextets_bytes(1))
  qed
  assume "RawURLEncode bs = RawURLEncode bs'"
  then have "map unat bs = map unat bs'" by (metis dec)
  then show "bs = bs'" by (rule map_injective) (rule injI, rule unsigned_word_eqI)
qed simp

text \<open>The bit tricks of the constant-time comparison decide equality.\<close>

lemma unat_ucast_minus_one:
  assumes "v \<noteq> (0 :: byte)"
  shows "unat ((ucast v :: 32 word) - 1) = unat v - 1"
proof -
  have "unat v < 2 ^ 8" using unsigned_less [of v, where ?'a = nat] by simp
  then have u: "unat (ucast v :: 32 word) = unat v"
    by (simp add: unsigned_ucast_eq take_bit_nat_eq_self)
  moreover from assms u have "(ucast v :: 32 word) \<noteq> 0" by (metis unsigned_0 unsigned_word_eqI)
  ultimately show ?thesis by (simp add: unat_minus_one)
qed

lemma ConstantTimeByteEq_0: "ConstantTimeByteEq v 0 = (if v = 0 then 1 else 0)"
proof (cases "v = 0")
  case True
  then show ?thesis by (simp add: ConstantTimeByteEq_def)
next
  case False
  have lt: "unat v < 256" using unsigned_less [of v, where ?'a = nat] by simp
  have "unat (drop_bit 31 ((ucast v :: 32 word) - 1)) = (unat v - 1) div 2 ^ 31"
    using False by (simp add: drop_bit_eq_div unat_div unat_ucast_minus_one)
  with lt False show ?thesis by (simp add: ConstantTimeByteEq_def)
qed

lemma xor_eq_0_iff_byte: "(a :: byte) XOR b = 0 \<longleftrightarrow> a = b"
  by (metis bit.xor_left_self xor.right_neutral xor_self_eq)

lemma fold_or_xor_0:
  "length x = length y \<Longrightarrow>
   fold (\<lambda>(a, b) v. v OR (a XOR b)) (zip x y) (v :: byte) = 0 \<longleftrightarrow> v = 0 \<and> x = y"
proof (induction x y arbitrary: v rule: list_induct2)
  case (Cons a x b y)
  then show ?case by (simp add: or_eq_0_iff xor_eq_0_iff_byte)
qed simp

lemma ConstantTimeCompare_eq: "ConstantTimeCompare x y = 1 \<longleftrightarrow> x = y"
  by (auto simp: ConstantTimeCompare_def ConstantTimeByteEq_0 fold_or_xor_0)

lemma unat_of_char: "unat (of_char c :: byte) = byte_val c"
proof -
  have "(of_char c :: byte) = word_of_nat (of_char c)" by (rule of_nat_of_char [symmetric])
  then have "unat (of_char c :: byte) = take_bit 8 (of_char c)"
    by (simp only: unsigned_of_nat) simp
  also have "\<dots> = of_char c" by (rule take_bit_nat_eq_self) (simp add: nat_of_char_less_256)
  finally show ?thesis .
qed

lemma bytes_of_inj: "bytes_of s = bytes_of t \<longleftrightarrow> s = t"
proof
  assume "bytes_of s = bytes_of t"
  then have "map unat (bytes_of s) = map unat (bytes_of t)" by simp
  then have "map byte_val s = map byte_val t" by (simp add: bytes_of_def comp_def unat_of_char)
  then show "s = t" by (rule map_injective) (simp add: inj_def)
qed simp

end
