(* ===== verification/Go_Time.thy ===== *)
theory Go_Time
  imports Go_Strings
begin

text \<open>
  Go's package \<open>time\<close> as the program uses it. An instant is an \<open>int\<close>, nanoseconds since
  the Unix epoch; a \<open>time.Duration\<close> is an \<open>int\<close> that stands for a signed 64-bit count of
  nanoseconds, with the wrap-around of its arithmetic written out in \<open>wrap64\<close>.
  \<open>ParseDuration\<close> is Go's parser, with its overflow checks; the RFC 3339 parser is Go's
  strict fast path. Two things are left to the record \<open>golib\<close>: the floating-point scaling
  of a fractional duration, and the general layout parser that \<open>time.Parse\<close> falls back on
  when the strict one refuses.
\<close>

type_synonym time = int
type_synonym duration = int

section \<open>The library record\<close>

text \<open>
  The parts of the Go library that the model takes as an argument. \<open>frac_ns f u k\<close> is
  \<open>uint64(float64(f) * (float64(u) / 1e<k>))\<close>; \<open>parse_layout\<close> is the general parser of
  \<open>time.Parse\<close> on the layout \<open>time.RFC3339\<close>; \<open>url_parse\<close> is \<open>url.Parse\<close>: the part of
  the URL before the query, the query's key-value pairs and the fragment; \<open>sha256\<close> is \<open>sha256.Sum256\<close>.
\<close>

record golib = unicode +
  frac_ns :: "nat \<Rightarrow> nat \<Rightarrow> nat \<Rightarrow> nat"
  parse_layout :: "string \<Rightarrow> time option"
  url_parse :: "string \<Rightarrow> (string \<times> (string \<times> string) list \<times> string) option"
  sha256 :: "byte list \<Rightarrow> byte list"

section \<open>Instants and durations\<close>

definition wrap64 :: "int \<Rightarrow> int" where
  "wrap64 x = (x + 2 ^ 63) mod 2 ^ 64 - 2 ^ 63"

definition Second :: duration where "Second = 1000000000"
definition Minute :: duration where "Minute = 60 * Second"
definition Hour :: duration where "Hour = 60 * Minute"

lemmas duration_units [simp] = Second_def Minute_def Hour_def

text \<open>\<open>t.Truncate(time.Second)\<close>, \<open>t.Unix()\<close>, and \<open>time.Until\<close>, which saturates.\<close>

definition TruncateSecond :: "time \<Rightarrow> time" where
  "TruncateSecond t = t - t mod Second"

definition Unix :: "time \<Rightarrow> int" where
  "Unix t = t div Second"

definition Sub :: "time \<Rightarrow> time \<Rightarrow> duration" where
  "Sub t u = max (- (2 ^ 63)) (min (2 ^ 63 - 1) (t - u))"

lemma wrap64_id: "- (2 ^ 63) \<le> x \<Longrightarrow> x < 2 ^ 63 \<Longrightarrow> wrap64 x = x"
  by (simp add: wrap64_def)

lemma wrap64_bounds: "- (2 ^ 63) \<le> wrap64 x \<and> wrap64 x < 2 ^ 63"
  by (simp add: wrap64_def)

lemma TruncateSecond_bounds: "TruncateSecond t \<le> t \<and> t < TruncateSecond t + Second"
  using pos_mod_sign [of Second t] pos_mod_bound [of Second t] by (simp add: TruncateSecond_def)

lemma TruncateSecond_idem [simp]: "TruncateSecond (TruncateSecond t) = TruncateSecond t"
  by (simp add: TruncateSecond_def minus_mod_eq_mult_div)

section \<open>Digits\<close>

definition digit :: "char \<Rightarrow> bool" where
  "digit c \<longleftrightarrow> 48 \<le> byte_val c \<and> byte_val c \<le> 57"

definition digit_val :: "char \<Rightarrow> nat" where
  "digit_val c = byte_val c - 48"

text \<open>The error texts of \<open>package time\<close> quote the input byte by byte.\<close>

definition hex_digit :: "nat \<Rightarrow> char" where
  "hex_digit n = (if n < 10 then char_of (48 + n) else char_of (87 + n))"

definition quote_byte :: "char \<Rightarrow> string" where
  "quote_byte c =
     (let n = byte_val c
      in if 128 \<le> n \<or> n < 32 then [CHR 0x5C, CHR ''x'', hex_digit (n div 16), hex_digit (n mod 16)]
         else if n = 34 \<or> n = 92 then [CHR 0x5C, c] else [c])"

definition quote :: "string \<Rightarrow> string" where
  "quote s = [CHR 0x22] @ concat (map quote_byte s) @ [CHR 0x22]"

section \<open>Durations\<close>

text \<open>
  \<open>leadingInt\<close> consumes \<open>[0-9]*\<close> and fails above \<open>2^63\<close>; \<open>leadingFraction\<close> consumes the
  digits after the point, ignoring those that would overflow, and counts the ones it kept.
\<close>

fun leadingInt :: "nat \<Rightarrow> string \<Rightarrow> (nat \<times> string) option" where
  "leadingInt x [] = Some (x, [])"
| "leadingInt x (c # cs) =
     (if \<not> digit c then Some (x, c # cs)
      else if 2 ^ 63 div 10 < x then None
      else if 2 ^ 63 < x * 10 + digit_val c then None
      else leadingInt (x * 10 + digit_val c) cs)"

fun leadingFraction :: "nat \<Rightarrow> nat \<Rightarrow> bool \<Rightarrow> string \<Rightarrow> nat \<times> nat \<times> string" where
  "leadingFraction x k ovf [] = (x, k, [])"
| "leadingFraction x k ovf (c # cs) =
     (if \<not> digit c then (x, k, c # cs)
      else if ovf then leadingFraction x k True cs
      else if (2 ^ 63 - 1) div 10 < x then leadingFraction x k True cs
      else if 2 ^ 63 < x * 10 + digit_val c then leadingFraction x k True cs
      else leadingFraction (x * 10 + digit_val c) (Suc k) False cs)"

definition unitMap :: "string \<Rightarrow> nat option" where
  "unitMap u =
     (if u = ''ns'' then Some 1
      else if u = ''us'' \<or> u = [CHR 0xC2, CHR 0xB5, CHR ''s''] \<or> u = [CHR 0xCE, CHR 0xBC, CHR ''s'']
      then Some 1000
      else if u = ''ms'' then Some 1000000
      else if u = ''s'' then Some 1000000000
      else if u = ''m'' then Some 60000000000
      else if u = ''h'' then Some 3600000000000
      else None)"

definition unit_char :: "char \<Rightarrow> bool" where
  "unit_char c \<longleftrightarrow> c \<noteq> CHR ''.'' \<and> \<not> digit c"

text \<open>
  One number and its unit: the digits (value, fraction, how many fraction digits, rest),
  then the unit. The error texts name the whole input \<open>orig\<close>.
\<close>

definition invalid_duration :: "string \<Rightarrow> goerror" where
  "invalid_duration orig = Errorf (''time: invalid duration '' @ quote orig)"

definition number_part :: "string \<Rightarrow> (nat \<times> nat \<times> nat \<times> string) option" where
  "number_part s =
     (if s = [] \<or> \<not> (hd s = CHR ''.'' \<or> digit (hd s)) then None
      else (case leadingInt 0 s of
          None \<Rightarrow> None
        | Some (v, s1) \<Rightarrow>
          if s1 \<noteq> [] \<and> hd s1 = CHR ''.'' then
            (case leadingFraction 0 0 False (tl s1) of (f, k, s2) \<Rightarrow>
              if length s1 = length s \<and> length s2 = length (tl s1) then None
              else Some (v, f, k, s2))
          else if length s1 = length s then None else Some (v, 0, 0, s1)))"

definition unit_part ::
  "'a golib_scheme \<Rightarrow> string \<Rightarrow> nat \<Rightarrow> nat \<Rightarrow> nat \<Rightarrow> string \<Rightarrow> (nat \<times> string) res" where
  "unit_part L orig v f k s2 =
     (let u = takeWhile unit_char s2
      in if u = [] then Inl (Errorf (''time: missing unit in duration '' @ quote orig))
         else (case unitMap u of
           None \<Rightarrow> Inl (Errorf (''time: unknown unit '' @ quote u @ '' in duration '' @ quote orig))
         | Some unit \<Rightarrow>
           if 2 ^ 63 div unit < v then Inl (invalid_duration orig)
           else let w = v * unit + (if 0 < f then frac_ns L f unit k else 0)
           in if 0 < f \<and> 2 ^ 63 < w then Inl (invalid_duration orig)
           else Inr (w, dropWhile unit_char s2)))"

definition duration_term :: "'a golib_scheme \<Rightarrow> string \<Rightarrow> string \<Rightarrow> (nat \<times> string) res" where
  "duration_term L orig s =
     (case number_part s of
        None \<Rightarrow> Inl (invalid_duration orig)
      | Some (v, f, k, s2) \<Rightarrow> unit_part L orig v f k s2)"

text \<open>A term consumes at least one byte, so the loop over the terms ends.\<close>

lemma leadingInt_length: "leadingInt x s = Some (v, r) \<Longrightarrow> length r \<le> length s"
  by (induction x s rule: leadingInt.induct) (auto split: if_splits)

lemma leadingFraction_length: "leadingFraction x k ovf s = (f, k', r) \<Longrightarrow> length r \<le> length s"
  by (induction x k ovf s rule: leadingFraction.induct) (auto split: if_splits)

lemma number_part_length:
  assumes "number_part s = Some (v, f, k, r)"
  shows "length r \<le> length s"
proof -
  obtain v' s1 where s1: "leadingInt 0 s = Some (v', s1)"
    using assms by (auto simp: number_part_def split: if_splits option.splits)
  then have "length s1 \<le> length s" by (rule leadingInt_length)
  moreover have "length r \<le> length s1"
  proof (cases "s1 \<noteq> [] \<and> hd s1 = CHR ''.''")
    case True
    obtain f' k' s2 where fr: "leadingFraction 0 0 False (tl s1) = (f', k', s2)"
      by (metis prod_cases3)
    with assms s1 True have "r = s2" by (auto simp: number_part_def split: if_splits)
    with leadingFraction_length [OF fr] show ?thesis by simp
  next
    case False
    with assms s1 have "r = s1" by (auto simp: number_part_def split: if_splits)
    then show ?thesis by simp
  qed
  ultimately show ?thesis by linarith
qed

lemma unit_part_length:
  assumes "unit_part L orig v f k s = Inr (w, r)"
  shows "length r < length s"
proof -
  have "takeWhile unit_char s \<noteq> []" and r: "r = dropWhile unit_char s"
    using assms by (auto simp: unit_part_def Let_def split: if_splits option.splits)
  then have "length (dropWhile unit_char s) \<noteq> length s"
    by (metis append_eq_append_conv append_self_conv2 takeWhile_dropWhile_id)
  with r show ?thesis using length_dropWhile_le [of unit_char s] by simp
qed

lemma duration_term_length: "duration_term L orig s = Inr (w, r) \<Longrightarrow> length r < length s"
  by (auto simp: duration_term_def split: option.splits dest!: number_part_length unit_part_length)

function duration_terms :: "'a golib_scheme \<Rightarrow> string \<Rightarrow> nat \<Rightarrow> string \<Rightarrow> nat res" where
  "duration_terms L orig d s =
     (if s = [] then Inr d
      else (case duration_term L orig s of
        Inl e \<Rightarrow> Inl e
      | Inr (v, rest) \<Rightarrow>
        if 2 ^ 63 < d + v then Inl (invalid_duration orig) else duration_terms L orig (d + v) rest))"
  by pat_completeness auto
termination
  by (relation "measure (\<lambda>(L, orig, d, s). length s)") (auto dest: duration_term_length)

definition ParseDuration :: "'a golib_scheme \<Rightarrow> string \<Rightarrow> duration res" where
  "ParseDuration L orig =
     (let signed = orig \<noteq> [] \<and> (hd orig = CHR ''-'' \<or> hd orig = CHR ''+'');
          neg = orig \<noteq> [] \<and> hd orig = CHR ''-'';
          s = (if signed then tl orig else orig)
      in if s = ''0'' then Inr 0
         else if s = [] then Inl (invalid_duration orig)
         else (case duration_terms L orig 0 s of
           Inl e \<Rightarrow> Inl e
         | Inr d \<Rightarrow>
           if neg then Inr (- int d)
           else if 2 ^ 63 - 1 < d then Inl (invalid_duration orig)
           else Inr (int d)))"

declare duration_terms.simps [simp del]

lemma duration_terms_bound: "duration_terms L orig d s = Inr r \<Longrightarrow> d \<le> 2 ^ 63 \<Longrightarrow> r \<le> 2 ^ 63"
proof (induction L orig d s rule: duration_terms.induct)
  case (1 L orig d s)
  show ?case
  proof (cases "s = []")
    case True
    with 1 show ?thesis by (simp add: duration_terms.simps)
  next
    case False
    with "1.prems"(1) obtain v rest where t: "duration_term L orig s = Inr (v, rest)"
      by (subst (asm) duration_terms.simps) (auto split: sum.splits)
    with "1.prems"(1) False have le: "\<not> 2 ^ 63 < d + v" and "duration_terms L orig (d + v) rest = Inr r"
      by (auto simp: duration_terms.simps [of L orig d s] split: if_splits)
    with "1.IH" [OF False t refl le] show ?thesis by simp
  qed
qed

text \<open>A parsed duration fits in 64 bits.\<close>

lemma ParseDuration_bounds:
  assumes "ParseDuration L s = Inr d"
  shows "- (2 ^ 63) \<le> d" and "d < 2 ^ 63"
  using assms duration_terms_bound [of L s 0]
  by (fastforce simp: ParseDuration_def Let_def split: if_splits sum.splits)+

end
