(* ===== verification/Go_Rfc3339.thy ===== *)
theory Go_Rfc3339
  imports Go_Time
begin

text \<open>
  RFC 3339 timestamps: \<open>t.UTC().Format(time.RFC3339Nano)\<close>, with which the broker stamps a
  bind at every login, and \<open>time.Parse(time.RFC3339, v)\<close>, with which the operator reads the
  stamp. Both are the library's algorithms, down to the calendar; the theory ends with the
  round trip: the operator reads back the very instant the broker wrote.
\<close>

section \<open>Decimal numbers\<close>

definition digit_char :: "nat \<Rightarrow> char" where
  "digit_char n = char_of (48 + n)"

fun dec :: "nat \<Rightarrow> string" where
  "dec n = (if n < 10 then [digit_char n] else dec (n div 10) @ [digit_char (n mod 10)])"

declare dec.simps [simp del]

lemma dec_small: "n < 10 \<Longrightarrow> dec n = [digit_char n]"
  and dec_large: "\<not> n < 10 \<Longrightarrow> dec n = dec (n div 10) @ [digit_char (n mod 10)]"
  by (simp_all add: dec.simps [of n])

text \<open>\<open>appendInt(b, n, w)\<close>: decimal, padded with zeros to \<open>w\<close> digits.\<close>

definition pad :: "nat \<Rightarrow> nat \<Rightarrow> string" where
  "pad w n = replicate (w - length (dec n)) CHR ''0'' @ dec n"

definition dec_val :: "string \<Rightarrow> nat" where
  "dec_val s = foldl (\<lambda>x c. x * 10 + digit_val c) 0 s"

lemma digit_digit_char [simp]: "n < 10 \<Longrightarrow> digit (digit_char n)"
  by (simp add: digit_def digit_char_def)

lemma digit_val_char [simp]: "n < 10 \<Longrightarrow> digit_val (digit_char n) = n"
  by (simp add: digit_val_def digit_char_def)

lemma digits_dec: "list_all digit (dec n)"
  by (induction n rule: dec.induct) (subst dec.simps, auto)

lemma dec_val_dec: "dec_val (dec n) = n"
proof (induction n rule: dec.induct)
  case (1 n)
  show ?case
  proof (cases "n < 10")
    case True
    then show ?thesis by (simp add: dec.simps [of n] dec_val_def)
  next
    case False
    with 1 have "dec_val (dec (n div 10)) = n div 10" by simp
    with False show ?thesis by (simp add: dec.simps [of n] dec_val_def)
  qed
qed

lemma length_dec: "0 < w \<Longrightarrow> n < 10 ^ w \<Longrightarrow> length (dec n) \<le> w"
proof (induction n arbitrary: w rule: dec.induct)
  case (1 n)
  show ?case
  proof (cases "n < 10")
    case True
    with 1 show ?thesis by (simp add: dec.simps [of n])
  next
    case False
    with "1.prems" obtain v where v: "w = Suc v" "0 < v"
      by (cases w; cases "w = 1") auto
    with "1.prems"(2) have "n div 10 < 10 ^ v" by simp
    with "1.IH" False v show ?thesis by (simp add: dec.simps [of n])
  qed
qed

lemma dec_val_zeros: "dec_val (replicate k CHR ''0'' @ s) = dec_val s"
  by (induction k) (simp_all add: dec_val_def digit_val_def)

lemma dec_val_pad: "dec_val (pad w n) = n"
  by (simp add: pad_def dec_val_zeros dec_val_dec)

lemma digits_pad: "list_all digit (pad w n)"
  using digits_dec [of n] by (auto simp: pad_def list_all_iff digit_def)

lemma length_pad: "0 < w \<Longrightarrow> n < 10 ^ w \<Longrightarrow> length (pad w n) = w"
  by (simp add: pad_def length_dec)

lemma dec_val_append: "dec_val (s @ t) = dec_val s * 10 ^ length t + dec_val t"
proof (induction t rule: rev_induct)
  case (snoc c t)
  then show ?case by (simp add: dec_val_def algebra_simps flip: append_assoc)
qed (simp add: dec_val_def)

lemma dec_val_zeros_right: "dec_val (s @ replicate k CHR ''0'') = dec_val s * 10 ^ k"
  using dec_val_zeros [of k "[]"] by (simp add: dec_val_append) (simp add: dec_val_def)

section \<open>The calendar\<close>

definition isLeap :: "nat \<Rightarrow> bool" where
  "isLeap y \<longleftrightarrow> y mod 4 = 0 \<and> (y mod 100 \<noteq> 0 \<or> y mod 400 = 0)"

definition month_lengths :: "bool \<Rightarrow> nat list" where
  "month_lengths leap = [31, if leap then 29 else 28, 31, 30, 31, 30, 31, 31, 30, 31, 30, 31]"

text \<open>Days from 0001-01-01 to the first day of year \<open>y\<close>, for \<open>y\<close> from 1.\<close>

definition days_before_year :: "nat \<Rightarrow> nat" where
  "days_before_year y = 365 * (y - 1) + (y - 1) div 4 - (y - 1) div 100 + (y - 1) div 400"

definition day_number :: "nat \<Rightarrow> nat \<Rightarrow> nat \<Rightarrow> int" where
  "day_number y m d =
     (if y = 0 then - 366 else int (days_before_year y))
     + int (sum_list (take (m - 1) (month_lengths (isLeap y)))) + int d - 1"

text \<open>0001-01-01 is 719162 days before the Unix epoch. \<open>Date\<close> is \<open>time.Date(\<dots>, time.UTC)\<close>.\<close>

definition Date :: "nat \<Rightarrow> nat \<Rightarrow> nat \<Rightarrow> nat \<Rightarrow> nat \<Rightarrow> nat \<Rightarrow> nat \<Rightarrow> time" where
  "Date y mo d h mi s ns =
     ((day_number y mo d - 719162) * 86400 + int (h * 3600 + mi * 60 + s)) * Second + int ns"

text \<open>\<open>absDate\<close>: year and day of the year, cutting off cycles of 400, 100, 4 and 1 years.\<close>

definition year_yday :: "nat \<Rightarrow> nat \<times> nat" where
  "year_yday d0 =
     (let n400 = d0 div 146097; d1 = d0 mod 146097;
          q = d1 div 36524; n100 = q - q div 4; d2 = d1 - 36524 * n100;
          n4 = d2 div 1461; d3 = d2 - 1461 * n4;
          r = d3 div 365; n1 = r - r div 4
      in (400 * n400 + 100 * n100 + 4 * n4 + n1 + 1, d3 - 365 * n1))"

fun month_day :: "nat \<Rightarrow> nat list \<Rightarrow> nat \<Rightarrow> nat \<times> nat" where
  "month_day m [] d = (m, d + 1)"
| "month_day m (l # ls) d = (if d < l then (m, d + 1) else month_day (m + 1) ls (d - l))"

definition date_of :: "nat \<Rightarrow> nat \<times> nat \<times> nat" where
  "date_of d0 =
     (let (y, yd) = year_yday d0; (m, d) = month_day 1 (month_lengths (isLeap y)) yd
      in (y, m, d))"

lemma cycle_divs:
  fixes a b c e :: nat
  assumes "b \<le> 3" and "c \<le> 24" and "e \<le> 3"
  shows "(400 * a + 100 * b + 4 * c + e) div 4 = 100 * a + 25 * b + c"
    and "(400 * a + 100 * b + 4 * c + e) div 100 = 4 * a + b"
    and "(400 * a + 100 * b + 4 * c + e) div 400 = a"
  using assms by linarith+

lemma days_cycle:
  assumes "b \<le> 3" and "c \<le> 24" and "e \<le> 3"
  shows "days_before_year (400 * a + 100 * b + 4 * c + e + 1) = 146097 * a + 36524 * b + 1461 * c + 365 * e"
  unfolding days_before_year_def using cycle_divs [OF assms, of a] by simp

lemma mod_0_top: "0 < n \<Longrightarrow> n \<le> k \<Longrightarrow> n mod k = 0 \<longleftrightarrow> n = (k :: nat)"
  by (cases "n = k") auto

lemma leap_cycle:
  assumes "b \<le> 3" and "c \<le> 24" and "e \<le> 3"
  shows "isLeap (400 * a + 100 * b + 4 * c + e + 1) \<longleftrightarrow> e = 3 \<and> (c = 24 \<longrightarrow> b = 3)"
proof -
  let ?y = "400 * a + 100 * b + 4 * c + e + 1"
  have "?y = (e + 1) + 4 * (100 * a + 25 * b + c)" by simp
  then have "?y mod 4 = (e + 1) mod 4" by (simp only: mod_mult_self2)
  moreover have "?y = (4 * c + e + 1) + 100 * (4 * a + b)" by simp
  then have "?y mod 100 = (4 * c + e + 1) mod 100" by (simp only: mod_mult_self2)
  moreover have "?y = (100 * b + 4 * c + e + 1) + 400 * a" by simp
  then have "?y mod 400 = (100 * b + 4 * c + e + 1) mod 400" by (simp only: mod_mult_self2)
  moreover have "(e + 1) mod 4 = 0 \<longleftrightarrow> e = 3" using assms by presburger
  moreover have "(4 * c + e + 1) mod 100 = 0 \<longleftrightarrow> 4 * c + e + 1 = 100"
    using assms by (intro mod_0_top) auto
  moreover have "(100 * b + 4 * c + e + 1) mod 400 = 0 \<longleftrightarrow> 100 * b + 4 * c + e + 1 = 400"
    using assms by (intro mod_0_top) auto
  moreover have "4 * c + e + 1 = 100 \<longleftrightarrow> c = 24 \<and> e = 3"
    and "100 * b + 4 * c + e + 1 = 400 \<longleftrightarrow> b = 3 \<and> c = 24 \<and> e = 3"
    using assms by linarith+
  ultimately show ?thesis unfolding isLeap_def by metis
qed

text \<open>Cutting off a cycle of \<open>L\<close> days whose fourth repetition is one day longer.\<close>

lemma cut_cycle:
  fixes d L :: nat
  assumes "0 < L" and "d \<le> 4 * L"
  defines "b \<equiv> d div L - d div L div 4"
  shows "b \<le> 3" and "d = L * b + (d - L * b)" and "d - L * b \<le> L" and "b < 3 \<Longrightarrow> d - L * b < L"
proof -
  have q: "d div L \<le> 4" using div_le_mono [OF assms(2), of L] assms(1) by simp
  have dm: "d = L * (d div L) + d mod L" and "d mod L < L" using assms(1) by simp_all
  consider "d div L = 4" | "d div L \<le> 3" using q by linarith
  then have "b \<le> 3 \<and> d = L * b + (d - L * b) \<and> d - L * b \<le> L \<and> (b < 3 \<longrightarrow> d - L * b < L)"
  proof cases
    case 1
    then have "b = 3" by (simp add: b_def)
    moreover from 1 dm assms(2) have "d = 4 * L" by simp
    ultimately show ?thesis by simp
  next
    case 2
    then have b: "b = d div L" by (simp add: b_def)
    then have "d - L * b = d mod L" using dm by (metis add_diff_cancel_left')
    with b 2 dm \<open>d mod L < L\<close> show ?thesis by simp
  qed
  then show "b \<le> 3" and "d = L * b + (d - L * b)" and "d - L * b \<le> L"
    and "b < 3 \<Longrightarrow> d - L * b < L" by auto
qed

lemma year_yday_correct:
  assumes "year_yday d0 = (y, yd)"
  shows "days_before_year y + yd = d0" and "0 < y" and "yd < (if isLeap y then 366 else 365)"
proof -
  define a d1 where "a = d0 div 146097" and "d1 = d0 mod 146097"
  define b d2 where "b = d1 div 36524 - d1 div 36524 div 4" and "d2 = d1 - 36524 * b"
  define c d3 where "c = d2 div 1461" and "d3 = d2 - 1461 * c"
  define e where "e = d3 div 365 - d3 div 365 div 4"
  have y: "y = 400 * a + 100 * b + 4 * c + e + 1" and yd: "yd = d3 - 365 * e"
    using assms unfolding year_yday_def Let_def a_def d1_def b_def d2_def c_def d3_def e_def
    by (simp_all only: prod.inject)
  have d0: "d0 = 146097 * a + d1" unfolding a_def d1_def by (rule mult_div_mod_eq [symmetric])
  have "d1 < 146097" by (simp add: d1_def)
  then have "d1 \<le> 4 * 36524" by simp
  note bs = cut_cycle [of 36524 d1, OF _ this, folded b_def, folded d2_def, simplified]
  have d3: "d2 = 1461 * c + d3" and d3_lt: "d3 < 1461"
    by (simp_all add: c_def d3_def minus_mult_div_eq_mod)
  have c: "c \<le> 24" using bs(3) unfolding c_def by linarith
  from d3_lt have "d3 \<le> 4 * 365" by simp
  note es = cut_cycle [of 365 d3, OF _ this, folded e_def, folded yd, simplified]
  show "days_before_year y + yd = d0"
    unfolding y days_cycle [OF bs(1) c es(1)] using d0 bs(2) d3 es(2) by linarith
  show "0 < y" by (simp add: y)
  have "yd < 365" if "\<not> (e = 3 \<and> (c = 24 \<longrightarrow> b = 3))"
  proof (cases "e < 3")
    case True
    then show ?thesis by (rule es(4))
  next
    case False
    with that es(1) bs(1) have "e = 3" "c = 24" "b < 3" by auto
    with bs(4) d3 es(2) show ?thesis by linarith
  qed
  then show "yd < (if isLeap y then 366 else 365)"
    unfolding y leap_cycle [OF bs(1) c es(1)] using es(3) by auto
qed

lemma month_day_correct:
  "month_day m ls d = (m', d') \<Longrightarrow> d < sum_list ls \<Longrightarrow>
   m \<le> m' \<and> m' < m + length ls \<and> 0 < d' \<and> d' \<le> ls ! (m' - m) \<and>
   sum_list (take (m' - m) ls) + d' = d + 1"
proof (induction m ls d rule: month_day.induct)
  case (2 m l ls d)
  show ?case
  proof (cases "d < l")
    case True
    with 2 show ?thesis by auto
  next
    case False
    with 2 have "m + 1 \<le> m' \<and> m' < m + 1 + length ls \<and> 0 < d' \<and> d' \<le> ls ! (m' - (m + 1)) \<and>
      sum_list (take (m' - (m + 1)) ls) + d' = d - l + 1"
      by (simp add: less_diff_conv2)
    moreover from this have "m' - m = Suc (m' - (m + 1))" by linarith
    ultimately show ?thesis using False by auto
  qed
qed simp

lemma date_of_correct:
  assumes "date_of d0 = (y, m, d)"
  shows "day_number y m d = int d0" and "0 < m" and "m \<le> 12" and "0 < d"
    and "d \<le> month_lengths (isLeap y) ! (m - 1)"
proof -
  obtain yd where yy: "year_yday d0 = (y, yd)"
    and md: "month_day 1 (month_lengths (isLeap y)) yd = (m, d)"
    using assms by (auto simp: date_of_def split: prod.splits)
  note y = year_yday_correct [OF yy]
  have "yd < sum_list (month_lengths (isLeap y))"
    using y(3) by (auto simp: month_lengths_def split: if_splits)
  from month_day_correct [OF md this]
  have m: "1 \<le> m" "m < 13" "0 < d" "d \<le> month_lengths (isLeap y) ! (m - 1)"
    and sum: "sum_list (take (m - 1) (month_lengths (isLeap y))) + d = yd + 1"
    by (simp_all add: month_lengths_def)
  then show "0 < m" and "m \<le> 12" and "0 < d" and "d \<le> month_lengths (isLeap y) ! (m - 1)" by auto
  show "day_number y m d = int d0"
    using sum y(1,2) by (simp add: day_number_def)
qed

section \<open>Formatting\<close>

definition format_frac :: "nat \<Rightarrow> string" where
  "format_frac ns = (let s = TrimRight (pad 9 ns) ''0'' in if s = [] then [] else CHR ''.'' # s)"

definition FormatRFC3339Nano :: "time \<Rightarrow> string" where
  "FormatRFC3339Nano t =
     (let sec = t div Second; ns = nat (t mod Second);
          sod = nat (sec mod 86400);
          (y, m, d) = date_of (nat (sec div 86400 + 719162))
      in pad 4 y @ CHR ''-'' # pad 2 m @ CHR ''-'' # pad 2 d @ CHR ''T'' #
         pad 2 (sod div 3600) @ CHR '':'' # pad 2 (sod mod 3600 div 60) @ CHR '':'' #
         pad 2 (sod mod 60) @ format_frac ns @ ''Z'')"

section \<open>Parsing\<close>

definition parseUint :: "string \<Rightarrow> nat \<Rightarrow> nat \<Rightarrow> nat option" where
  "parseUint s lo hi =
     (if list_all digit s \<and> lo \<le> dec_val s \<and> dec_val s \<le> hi then Some (dec_val s) else None)"

definition slice :: "nat \<Rightarrow> nat \<Rightarrow> string \<Rightarrow> string" where
  "slice i j s = take (j - i) (drop i s)"

text \<open>The fraction of a second, nine digits of it at most, and the rest of the string.\<close>

definition parse_frac :: "string \<Rightarrow> nat \<times> string" where
  "parse_frac s =
     (if 2 \<le> length s \<and> s ! 0 = CHR ''.'' \<and> digit (s ! 1) then
        let ds = take 9 (takeWhile digit (tl s))
        in (dec_val ds * 10 ^ (9 - length ds), dropWhile digit (tl s))
      else (0, s))"

text \<open>The offset of the time zone in seconds.\<close>

definition parse_zone :: "string \<Rightarrow> int option" where
  "parse_zone s =
     (if s = ''Z'' then Some 0
      else if length s \<noteq> 6 then None
      else Option.bind (parseUint (slice 1 3 s) 0 23) (\<lambda>hr.
        Option.bind (parseUint (slice 4 6 s) 0 59) (\<lambda>mm.
        if (s ! 0 = CHR ''-'' \<or> s ! 0 = CHR ''+'') \<and> s ! 3 = CHR '':''
        then Some ((if s ! 0 = CHR ''-'' then - 1 else 1) * int ((hr * 60 + mm) * 60))
        else None)))"

definition parseRFC3339 :: "string \<Rightarrow> time option" where
  "parseRFC3339 s =
     (if length s < 19 then None
      else
        Option.bind (parseUint (slice 0 4 s) 0 9999) (\<lambda>year.
        Option.bind (parseUint (slice 5 7 s) 1 12) (\<lambda>month.
        Option.bind (parseUint (slice 8 10 s) 1 (month_lengths (isLeap year) ! (month - 1))) (\<lambda>day.
        Option.bind (parseUint (slice 11 13 s) 0 23) (\<lambda>hour.
        Option.bind (parseUint (slice 14 16 s) 0 59) (\<lambda>min.
        Option.bind (parseUint (slice 17 19 s) 0 59) (\<lambda>sec.
        if s ! 4 = CHR ''-'' \<and> s ! 7 = CHR ''-'' \<and> s ! 10 = CHR ''T'' \<and>
           s ! 13 = CHR '':'' \<and> s ! 16 = CHR '':''
        then (case parse_frac (drop 19 s) of (nsec, rest) \<Rightarrow>
          Option.bind (parse_zone rest) (\<lambda>off.
          Some (Date year month day hour min sec nsec - off * Second)))
        else None)))))))"

definition time_Parse :: "'a golib_scheme \<Rightarrow> string \<Rightarrow> time option" where
  "time_Parse L v = (case parseRFC3339 v of Some t \<Rightarrow> Some t | None \<Rightarrow> parse_layout L v)"

section \<open>The round trip\<close>

lemma TrimRight_zeros: "\<exists>k. s = TrimRight s [c] @ replicate k c"
proof -
  let ?t = "takeWhile (\<lambda>x. x = c) (rev s)"
  have "rev s = ?t @ dropWhile (\<lambda>x. x = c) (rev s)" by simp
  then have "s = rev (dropWhile (\<lambda>x. x = c) (rev s)) @ rev ?t"
    by (metis rev_append rev_rev_ident)
  moreover have "replicate (length ?t) c = ?t"
    by (intro replicate_length_same) (auto dest: set_takeWhileD)
  then have "rev ?t = replicate (length ?t) c" by (metis rev_replicate)
  ultimately show ?thesis unfolding TrimRight_def by auto
qed

lemma parse_format_frac:
  assumes "ns < 10 ^ 9"
  shows "parse_frac (format_frac ns @ ''Z'') = (ns, ''Z'')"
proof -
  define z where "z = TrimRight (pad 9 ns) ''0''"
  obtain k where k: "pad 9 ns = z @ replicate k CHR ''0''"
    using TrimRight_zeros [of "pad 9 ns" "CHR ''0''"] by (auto simp: z_def)
  then have len: "length z + k = 9" using length_pad [of 9 ns] assms by simp
  have val: "dec_val z * 10 ^ k = ns"
    using dec_val_zeros_right [of z k] dec_val_pad [of 9 ns] k by simp
  have z: "\<forall>c \<in> set z. digit c" using digits_pad [of 9 ns] k by (simp add: list_all_iff)
  then have tw: "takeWhile digit (z @ ''Z'') = z" and dw: "dropWhile digit (z @ ''Z'') = ''Z''"
    by (simp_all add: digit_def)
  have ff: "format_frac ns = (if z = [] then [] else CHR ''.'' # z)"
    by (simp only: format_frac_def Let_def z_def)
  show ?thesis
  proof (cases z)
    case Nil
    then have "ns = 0" using val by (simp add: dec_val_def)
    moreover from Nil have "format_frac ns = []" by (simp add: ff)
    ultimately show ?thesis by (simp add: parse_frac_def)
  next
    case (Cons c cs)
    then have "format_frac ns @ ''Z'' = CHR ''.'' # z @ ''Z''" by (simp add: ff)
    moreover have "digit c" using z Cons by simp
    moreover have "9 - length z = k" "take 9 z = z" using len by auto
    ultimately show ?thesis using val tw dw Cons by (simp add: parse_frac_def Let_def)
  qed
qed

text \<open>Reading a fixed-width number that \<open>pad\<close> wrote.\<close>

lemma parseUint_pad: "lo \<le> n \<Longrightarrow> n \<le> hi \<Longrightarrow> parseUint (pad w n) lo hi = Some n"
  by (simp add: parseUint_def digits_pad dec_val_pad)

lemma length_2_conv: "length s = 2 \<longleftrightarrow> (\<exists>a b. s = [a, b])"
  by (auto simp: numeral_2_eq_2 length_Suc_conv)

lemma length_4_conv: "length s = 4 \<longleftrightarrow> (\<exists>a b c d. s = [a, b, c, d])"
  by (auto simp: numeral_eq_Suc length_Suc_conv)

lemma parse_fields:
  assumes "length Y = 4" "length M = 2" "length D = 2" "length H = 2" "length I = 2" "length S = 2"
    and s: "s = Y @ CHR ''-'' # M @ CHR ''-'' # D @ CHR ''T'' # H @ CHR '':'' # I @ CHR '':'' # S @ r"
  shows "slice 0 4 s = Y" "slice 5 7 s = M" "slice 8 10 s = D" "slice 11 13 s = H"
    "slice 14 16 s = I" "slice 17 19 s = S" "drop 19 s = r" "\<not> length s < 19"
    "s ! 4 = CHR ''-''" "s ! 7 = CHR ''-''" "s ! 10 = CHR ''T''" "s ! 13 = CHR '':''" "s ! 16 = CHR '':''"
  using assms(1-6) unfolding s length_2_conv length_4_conv by (auto simp: slice_def)

lemma month_length_le: "0 < m \<Longrightarrow> m \<le> 12 \<Longrightarrow> month_lengths l ! (m - 1) \<le> 31"
proof -
  assume "0 < m" "m \<le> 12"
  then have "month_lengths l ! (m - 1) \<in> set (month_lengths l)"
    by (intro nth_mem) (simp add: month_lengths_def)
  then show ?thesis by (auto simp: month_lengths_def)
qed

lemma second_of_day:
  fixes sod :: nat
  assumes "sod < 86400"
  shows "sod div 3600 \<le> 23" "sod mod 3600 div 60 \<le> 59" "sod mod 60 \<le> 59"
    "sod div 3600 * 3600 + sod mod 3600 div 60 * 60 + sod mod 60 = sod"
proof -
  show "sod div 3600 \<le> 23" and "sod mod 3600 div 60 \<le> 59" and "sod mod 60 \<le> 59"
    using assms by auto
  have "sod mod 3600 mod 60 = sod mod 60" by (simp add: mod_mod_cancel)
  then have "sod mod 3600 div 60 * 60 + sod mod 60 = sod mod 3600"
    by (metis div_mult_mod_eq)
  then show "sod div 3600 * 3600 + sod mod 3600 div 60 * 60 + sod mod 60 = sod"
    using div_mult_mod_eq [of sod 3600] by linarith
qed

text \<open>
  The years that fit in four digits, from year 1 on: instants from
  \<open>- 62135596800\<close> seconds up to the end of 9999.
\<close>

definition four_digit_year :: "time \<Rightarrow> bool" where
  "four_digit_year t \<longleftrightarrow> - 62135596800 * Second \<le> t \<and> t < 253402300800 * Second"

lemma four_digit_year_date:
  assumes "four_digit_year t" and "date_of (nat (t div Second div 86400 + 719162)) = (y, m, d)"
  shows "y \<le> 9999" and "day_number y m d - 719162 = t div Second div 86400"
proof -
  have ge: "0 \<le> t div Second div 86400 + 719162"
    using assms(1) by (simp add: four_digit_year_def) linarith
  then show *: "day_number y m d - 719162 = t div Second div 86400"
    using date_of_correct(1) [OF assms(2)] by simp
  show "y \<le> 9999"
  proof (rule ccontr)
    assume "\<not> y \<le> 9999"
    then have "10000 \<le> y" by simp
    then have "days_before_year 10000 \<le> days_before_year y"
      by (simp add: days_before_year_def)
    moreover have "int (days_before_year y) \<le> day_number y m d"
      using \<open>10000 \<le> y\<close> date_of_correct(4) [OF assms(2)] by (simp add: day_number_def)
    moreover have "t div Second div 86400 < 2932897"
      using assms(1) by (simp add: four_digit_year_def) linarith
    moreover have "days_before_year 10000 = 3652059" by (simp add: days_before_year_def)
    ultimately show False using * by linarith
  qed
qed

lemma parse_format_RFC3339:
  assumes "four_digit_year t"
  shows "parseRFC3339 (FormatRFC3339Nano t) = Some t"
proof -
  define sec ns sod where "sec = t div Second" and "ns = nat (t mod Second)" and "sod = nat (sec mod 86400)"
  obtain y m d where ymd: "date_of (nat (sec div 86400 + 719162)) = (y, m, d)" by (metis prod_cases3)
  note dc = date_of_correct [OF ymd]
  note yr = four_digit_year_date [OF assms, folded sec_def, OF ymd]
  have sod: "sod < 86400" by (simp add: sod_def nat_less_iff)
  note hms = second_of_day [OF sod]
  have ns: "ns < 10 ^ 9" by (simp add: ns_def nat_less_iff)
  have d31: "d \<le> 31" using dc(5) month_length_le [OF dc(2,3)] by (rule le_trans)
  have f: "FormatRFC3339Nano t =
      pad 4 y @ CHR ''-'' # pad 2 m @ CHR ''-'' # pad 2 d @ CHR ''T'' #
      pad 2 (sod div 3600) @ CHR '':'' # pad 2 (sod mod 3600 div 60) @ CHR '':'' #
      pad 2 (sod mod 60) @ format_frac ns @ ''Z''"
    using ymd by (simp add: FormatRFC3339Nano_def Let_def sec_def ns_def sod_def)
  have len: "length (pad 4 y) = 4" "length (pad 2 m) = 2" "length (pad 2 d) = 2"
    "length (pad 2 (sod div 3600)) = 2" "length (pad 2 (sod mod 3600 div 60)) = 2"
    "length (pad 2 (sod mod 60)) = 2"
    using yr(1) dc(3) d31 hms by (auto intro!: length_pad)
  have "parseRFC3339 (FormatRFC3339Nano t) =
      Some (Date y m d (sod div 3600) (sod mod 3600 div 60) (sod mod 60) ns)"
    unfolding parseRFC3339_def parse_fields [OF len f]
    using yr(1) dc(2,3,4,5) hms(1-3) parse_fields(8) [OF len f]
    by (simp add: parseUint_pad parse_format_frac [OF ns] parse_zone_def Suc_le_eq del: One_nat_def)
  moreover have "Date y m d (sod div 3600) (sod mod 3600 div 60) (sod mod 60) ns = t"
  proof -
    have "sec * Second + int ns = t" by (simp add: sec_def ns_def)
    moreover have "sec div 86400 * 86400 + int sod = sec" by (simp add: sod_def)
    ultimately show ?thesis by (simp only: Date_def yr(2) hms(4))
  qed
  ultimately show ?thesis by simp
qed

end
