(* ===== verification/Config.thy ===== *)
theory Config
  imports Go_Rfc3339
begin

text \<open>
  \<open>service/internal/config/config.go\<close>: the broker's configuration, read from the
  environment, defaulted and validated. The environment is a function from names to values,
  the empty string for a variable that is not set, as \<open>os.Getenv\<close> reports it.
\<close>

section \<open>Durations of one unit\<close>

text \<open>
  The durations the custom resource admits, digits and one unit, parse to what they say, as
  long as they fit in 64 bits.
\<close>

lemma dec_val_Cons: "dec_val (c # s) = digit_val c * 10 ^ length s + dec_val s"
  using dec_val_append [of "[c]" s] by (simp add: dec_val_def)

lemma leadingInt_digits:
  assumes "list_all digit s" and "u \<noteq> [] \<Longrightarrow> \<not> digit (hd u)"
    and "x * 10 ^ length s + dec_val s \<le> 2 ^ 63"
  shows "leadingInt x (s @ u) = Some (x * 10 ^ length s + dec_val s, u)"
  using assms(1,3)
proof (induction s arbitrary: x)
  case Nil
  then show ?case using assms(2) by (cases u) (auto simp: dec_val_def)
next
  case (Cons c s)
  let ?y = "x * 10 + digit_val c"
  have total: "x * 10 ^ length (c # s) + dec_val (c # s) = ?y * 10 ^ length s + dec_val s"
    by (simp add: dec_val_Cons algebra_simps)
  have "?y \<le> ?y * 10 ^ length s + dec_val s" by (intro trans_le_add1) simp
  also have "\<dots> \<le> 2 ^ 63" using Cons.prems(2) unfolding total .
  finally have y: "?y \<le> 2 ^ 63" .
  then have "x \<le> 2 ^ 63 div 10" by simp
  with y Cons.prems Cons.IH [of ?y] total show ?case by simp
qed

lemma ParseDuration_unit:
  assumes u: "unitMap u = Some k" and n: "n * k < 2 ^ 63" and k: "0 < k"
  shows "ParseDuration L (dec n @ u) = Inr (int (n * k))"
proof -
  have us: "u \<in> {''ns'', ''us'', [CHR 0xC2, CHR 0xB5, CHR ''s''], [CHR 0xCE, CHR 0xBC, CHR ''s''], ''ms'', ''s'', ''m'', ''h''}"
    using u by (auto simp: unitMap_def split: if_splits)
  then have ne: "u \<noteq> []" and hu: "\<not> digit (hd u)" "hd u \<noteq> CHR ''.''"
    and tw: "takeWhile unit_char u = u" "dropWhile unit_char u = []"
    by (auto simp: digit_def unit_char_def)
  have n63: "n \<le> 2 ^ 63" using n k by (metis le_trans less_imp_le_nat mult.right_neutral mult_le_mono2 Suc_leI One_nat_def)
  have dg: "digit (hd (dec n))" "dec n \<noteq> []" using digits_dec [of n] by (cases "dec n"; simp add: dec.simps [of n] split: if_splits)+
  have li: "leadingInt 0 (dec n @ u) = Some (n, u)"
    using leadingInt_digits [of "dec n" u 0] digits_dec hu n63 by (simp add: dec_val_dec)
  have num: "number_part (dec n @ u) = Some (n, 0, 0, u)"
    using dg ne hu by (simp add: number_part_def li)
  have le: "\<not> 2 ^ 63 div k < n" using n k by (simp add: div_less_iff_less_mult not_less less_eq_div_iff_mult_less_eq)
  have dt: "duration_term L orig (dec n @ u) = Inr (n * k, [])" for orig
    using u ne le by (simp add: duration_term_def num unit_part_def tw Let_def)
  have "duration_terms L orig 0 (dec n @ u) = Inr (n * k)" for orig
    using dg n by (subst duration_terms.simps) (simp add: dt duration_terms.simps [of _ _ _ "[]"])
  moreover have "hd (dec n @ u) \<noteq> CHR ''-''" "hd (dec n @ u) \<noteq> CHR ''+''"
    using dg by (auto simp: digit_def)
  moreover have "dec n @ u \<noteq> ''0''" using ne dg by (auto simp: append_eq_Cons_conv)
  ultimately show ?thesis using dg n by (simp add: ParseDuration_def Let_def)
qed

section \<open>\<open>strconv\<close>\<close>

definition signed_digits :: "string \<Rightarrow> string" where
  "signed_digits s = (if s \<noteq> [] \<and> (hd s = CHR ''+'' \<or> hd s = CHR ''-'') then tl s else s)"

text \<open>\<open>strconv.Atoi\<close> into a 64-bit \<open>int\<close>.\<close>

definition Atoi :: "string \<Rightarrow> int option" where
  "Atoi s =
     (let ds = signed_digits s; neg = s \<noteq> [] \<and> hd s = CHR ''-''; n = int (dec_val ds)
      in if ds = [] \<or> \<not> list_all digit ds then None
         else if neg then (if 2 ^ 63 < n then None else Some (- n))
         else if 2 ^ 63 \<le> n then None else Some n)"

lemma Atoi_range: "Atoi s = Some n \<Longrightarrow> - (2 ^ 63) \<le> n \<and> n < 2 ^ 63"
  by (auto simp: Atoi_def Let_def split: if_splits)

lemma dec_not_Nil [simp]: "dec n \<noteq> []"
  by (subst dec.simps) simp

lemma Atoi_dec: "n < 2 ^ 63 \<Longrightarrow> Atoi (dec n) = Some (int n)"
proof -
  assume n: "n < 2 ^ 63"
  have "digit (hd (dec n))" using digits_dec [of n] by (cases "dec n") auto
  then have "hd (dec n) \<noteq> CHR ''+''" "hd (dec n) \<noteq> CHR ''-''" by (auto simp: digit_def)
  then have "signed_digits (dec n) = dec n" by (simp add: signed_digits_def)
  with n digits_dec [of n] \<open>hd (dec n) \<noteq> CHR ''-''\<close> show ?thesis
    by (simp add: Atoi_def Let_def dec_val_dec)
qed

definition ParseBool :: "string \<Rightarrow> bool option" where
  "ParseBool s =
     (if s \<in> {''1'', ''t'', ''T'', ''TRUE'', ''true'', ''True''} then Some True
      else if s \<in> {''0'', ''f'', ''F'', ''FALSE'', ''false'', ''False''} then Some False
      else None)"

text \<open>\<open>%q\<close>: \<open>strconv.Quote\<close>.\<close>

definition hex_digits :: "nat \<Rightarrow> nat \<Rightarrow> string" where
  "hex_digits w n = map (\<lambda>i. hex_digit (n div 16 ^ i mod 16)) (rev [0 ..< w])"

definition quote_rune :: "'a unicode_scheme \<Rightarrow> rune \<times> string \<Rightarrow> string" where
  "quote_rune U x =
     (let r = fst x
      in if r = RuneError \<and> length (snd x) = 1 then CHR 0x5C # CHR ''x'' # hex_digits 2 (byte_val (hd (snd x)))
         else if r = 34 \<or> r = 92 then CHR 0x5C # snd x
         else if (if r < 128 then 32 \<le> r \<and> r < 127 else uc_print U r) then snd x
         else if r = 7 then [CHR 0x5C, CHR ''a''] else if r = 8 then [CHR 0x5C, CHR ''b'']
         else if r = 12 then [CHR 0x5C, CHR ''f''] else if r = 10 then [CHR 0x5C, CHR ''n'']
         else if r = 13 then [CHR 0x5C, CHR ''r''] else if r = 9 then [CHR 0x5C, CHR ''t'']
         else if r = 11 then [CHR 0x5C, CHR ''v'']
         else if r < 32 \<or> r = 127 then CHR 0x5C # CHR ''x'' # hex_digits 2 r
         else if r < 65536 then CHR 0x5C # CHR ''u'' # hex_digits 4 r
         else CHR 0x5C # CHR ''U'' # hex_digits 8 r)"

definition Quote :: "'a unicode_scheme \<Rightarrow> string \<Rightarrow> string" where
  "Quote U s = [CHR 0x22] @ concat (map (quote_rune U) (chunks s)) @ [CHR 0x22]"

section \<open>The configuration\<close>

record IdPConfig =
  idp_Type :: string
  idp_Issuer :: string
  idp_ClientID :: string
  idp_ClientSecret :: string
  idp_RedirectURL :: string
  idp_Scopes :: "string list"
  idp_GroupsClaim :: string
  idp_GoogleDelegatedAdmin :: string
  idp_GoogleCredentialsFile :: string

record StoreConfig =
  st_Backend :: string
  st_RedisAddr :: string
  st_RedisPassword :: string
  st_RedisDB :: int
  st_RedisTLS :: bool

record Config =
  cfg_ListenAddr :: string
  cfg_Issuer :: string
  cfg_IdP :: IdPConfig
  cfg_AllowedDomains :: "string list"
  cfg_ClientID :: string
  cfg_ClientSecret :: string
  cfg_RedirectURIs :: "string list"
  cfg_TokenLifetime :: duration
  cfg_RefreshTokenLifetime :: duration
  cfg_IDTokenSigningKey :: string
  cfg_TLSCertFile :: string
  cfg_TLSKeyFile :: string
  cfg_BindNamespace :: string
  cfg_BindTTL :: string
  cfg_TokenAudiences :: "string list"
  cfg_Store :: StoreConfig

type_synonym environ = "string \<Rightarrow> string"

definition env :: "environ \<Rightarrow> string \<Rightarrow> string \<Rightarrow> string" where
  "env E key def = (if E key \<noteq> [] then E key else def)"

definition envInt :: "environ \<Rightarrow> string \<Rightarrow> int \<Rightarrow> int" where
  "envInt E key def = (if E key \<noteq> [] then (case Atoi (E key) of Some n \<Rightarrow> n | None \<Rightarrow> def) else def)"

definition envBool :: "environ \<Rightarrow> string \<Rightarrow> bool \<Rightarrow> bool" where
  "envBool E key def = (if E key \<noteq> [] then (case ParseBool (E key) of Some b \<Rightarrow> b | None \<Rightarrow> def) else def)"

definition splitCSV :: "string \<Rightarrow> string list" where
  "splitCSV s =
     (if s = [] then [] else filter (\<lambda>t. t \<noteq> []) (map TrimSpace (SplitByte CHR '','' s)))"

definition AllowedDomain :: "'u unicode_scheme \<Rightarrow> Config \<Rightarrow> string \<Rightarrow> bool" where
  "AllowedDomain U c domain \<longleftrightarrow> list_ex (\<lambda>d. EqualFold U d domain) (cfg_AllowedDomains c)"

definition RedirectAllowed :: "Config \<Rightarrow> string \<Rightarrow> bool" where
  "RedirectAllowed c uri \<longleftrightarrow> list_ex (\<lambda>r. r = uri) (cfg_RedirectURIs c)"

section \<open>Validation\<close>

definition missing :: "Config \<Rightarrow> string list" where
  "missing c =
     map fst (filter (\<lambda>(name, val). val = [])
       [(''ISSUER'', cfg_Issuer c), (''IDP_ISSUER'', idp_Issuer (cfg_IdP c)),
        (''IDP_CLIENT_ID'', idp_ClientID (cfg_IdP c)), (''IDP_CLIENT_SECRET'', idp_ClientSecret (cfg_IdP c)),
        (''IDP_REDIRECT_URL'', idp_RedirectURL (cfg_IdP c)), (''CLIENT_ID'', cfg_ClientID c)]) @
     (if cfg_RedirectURIs c = [] then [''REDIRECT_URIS''] else []) @
     (if cfg_AllowedDomains c = [] then [''ALLOWED_DOMAINS''] else [])"

definition validateIdP :: "'u unicode_scheme \<Rightarrow> IdPConfig \<Rightarrow> goerror option" where
  "validateIdP U i =
     (if idp_Type i = ''oidc'' then
        (if idp_GroupsClaim i = [] then Some (Errorf ''IDP_TYPE=oidc requires IDP_GROUPS_CLAIM'') else None)
      else if idp_Type i = ''google'' then
        (if idp_GoogleDelegatedAdmin i = [] then Some (Errorf ''IDP_TYPE=google requires GOOGLE_DELEGATED_ADMIN'')
         else None)
      else Some (Errorf (''IDP_TYPE must be oidc or google, got '' @ Quote U (idp_Type i))))"

definition validateStore :: "'u unicode_scheme \<Rightarrow> StoreConfig \<Rightarrow> goerror option" where
  "validateStore U s =
     (if st_Backend s = ''memory'' then None
      else if st_Backend s = ''redis'' then
        (if st_RedisAddr s = [] then Some (Errorf ''SESSION_STORE=redis requires REDIS_ADDR'') else None)
      else Some (Errorf (''SESSION_STORE must be memory or redis, got '' @ Quote U (st_Backend s))))"

definition validate :: "'u unicode_scheme \<Rightarrow> Config \<Rightarrow> goerror option" where
  "validate U c =
     (if missing c \<noteq> [] then Some (Errorf (''missing required config: '' @ Join (missing c) '', ''))
      else (case validateIdP U (cfg_IdP c) of
        Some e \<Rightarrow> Some e
      | None \<Rightarrow> validateStore U (cfg_Store c)))"

section \<open>Loading\<close>

definition loadIdP :: "environ \<Rightarrow> IdPConfig" where
  "loadIdP E =
     (let c = \<lparr>idp_Type = env E ''IDP_TYPE'' ''oidc'', idp_Issuer = E ''IDP_ISSUER'',
               idp_ClientID = E ''IDP_CLIENT_ID'', idp_ClientSecret = E ''IDP_CLIENT_SECRET'',
               idp_RedirectURL = E ''IDP_REDIRECT_URL'',
               idp_Scopes = splitCSV (env E ''IDP_SCOPES'' ''openid,email,profile''),
               idp_GroupsClaim = env E ''IDP_GROUPS_CLAIM'' ''groups'',
               idp_GoogleDelegatedAdmin = E ''GOOGLE_DELEGATED_ADMIN'',
               idp_GoogleCredentialsFile = E ''GOOGLE_CREDENTIALS_FILE''\<rparr>
      in if idp_Type c = ''google'' \<and> idp_Issuer c = [] then c\<lparr>idp_Issuer := ''https://accounts.google.com''\<rparr>
         else c)"

text \<open>\<open>time.Duration(n) * time.Second\<close> wraps around in 64 bits.\<close>

definition seconds :: "int \<Rightarrow> duration" where
  "seconds n = wrap64 (n * Second)"

definition loadRefreshLifetime :: "'u golib_scheme \<Rightarrow> environ \<Rightarrow> string \<Rightarrow> duration" where
  "loadRefreshLifetime L E bindTTL =
     (if E ''REFRESH_TOKEN_LIFETIME_SECONDS'' \<noteq> [] then
        seconds (envInt E ''REFRESH_TOKEN_LIFETIME_SECONDS'' 28800)
      else (case ParseDuration L bindTTL of Inr d \<Rightarrow> d | Inl _ \<Rightarrow> 8 * Hour))"

definition loadConfig :: "'u golib_scheme \<Rightarrow> environ \<Rightarrow> Config" where
  "loadConfig L E =
     \<lparr>cfg_ListenAddr = env E ''LISTEN_ADDR'' '':8080'',
      cfg_Issuer = E ''ISSUER'',
      cfg_IdP = loadIdP E,
      cfg_AllowedDomains = splitCSV (E ''ALLOWED_DOMAINS''),
      cfg_ClientID = E ''CLIENT_ID'',
      cfg_ClientSecret = E ''CLIENT_SECRET'',
      cfg_RedirectURIs = splitCSV (E ''REDIRECT_URIS''),
      cfg_TokenLifetime = seconds (envInt E ''TOKEN_LIFETIME_SECONDS'' 900),
      cfg_RefreshTokenLifetime = loadRefreshLifetime L E (env E ''BIND_TTL'' ''12h''),
      cfg_IDTokenSigningKey = E ''ID_TOKEN_SIGNING_KEY'',
      cfg_TLSCertFile = E ''TLS_CERT_FILE'',
      cfg_TLSKeyFile = E ''TLS_KEY_FILE'',
      cfg_BindNamespace = env E ''BIND_NAMESPACE'' ''kargus-system'',
      cfg_BindTTL = env E ''BIND_TTL'' ''12h'',
      cfg_TokenAudiences = splitCSV (E ''TOKEN_AUDIENCES''),
      cfg_Store = \<lparr>st_Backend = env E ''SESSION_STORE'' ''memory'', st_RedisAddr = E ''REDIS_ADDR'',
        st_RedisPassword = E ''REDIS_PASSWORD'', st_RedisDB = envInt E ''REDIS_DB'' 0,
        st_RedisTLS = envBool E ''REDIS_TLS'' False\<rparr>\<rparr>"

definition Load :: "'u golib_scheme \<Rightarrow> environ \<Rightarrow> Config res" where
  "Load L E =
     (let c = loadConfig L E in case validate L c of Some e \<Rightarrow> Inl e | None \<Rightarrow> Inr c)"

section \<open>What a loaded configuration satisfies\<close>

definition config_ok :: "Config \<Rightarrow> bool" where
  "config_ok c \<longleftrightarrow>
     cfg_Issuer c \<noteq> [] \<and> cfg_ClientID c \<noteq> [] \<and> cfg_RedirectURIs c \<noteq> [] \<and> cfg_AllowedDomains c \<noteq> [] \<and>
     idp_Issuer (cfg_IdP c) \<noteq> [] \<and> idp_ClientID (cfg_IdP c) \<noteq> [] \<and>
     idp_ClientSecret (cfg_IdP c) \<noteq> [] \<and> idp_RedirectURL (cfg_IdP c) \<noteq> [] \<and>
     (idp_Type (cfg_IdP c) = ''oidc'' \<and> idp_GroupsClaim (cfg_IdP c) \<noteq> [] \<or>
      idp_Type (cfg_IdP c) = ''google'' \<and> idp_GoogleDelegatedAdmin (cfg_IdP c) \<noteq> []) \<and>
     (st_Backend (cfg_Store c) = ''memory'' \<or>
      st_Backend (cfg_Store c) = ''redis'' \<and> st_RedisAddr (cfg_Store c) \<noteq> [])"

lemma missing_Nil: "missing c = [] \<longleftrightarrow>
   cfg_Issuer c \<noteq> [] \<and> idp_Issuer (cfg_IdP c) \<noteq> [] \<and> idp_ClientID (cfg_IdP c) \<noteq> [] \<and>
   idp_ClientSecret (cfg_IdP c) \<noteq> [] \<and> idp_RedirectURL (cfg_IdP c) \<noteq> [] \<and> cfg_ClientID c \<noteq> [] \<and>
   cfg_RedirectURIs c \<noteq> [] \<and> cfg_AllowedDomains c \<noteq> []"
  by (simp add: missing_def)

lemma validate_ok: "validate U c = None \<longleftrightarrow> config_ok c"
  unfolding validate_def missing_Nil config_ok_def validateIdP_def validateStore_def
  by (auto split: if_splits option.splits)

lemma Load_cases: "Load L E = Inr c \<longleftrightarrow> c = loadConfig L E \<and> config_ok c"
  by (auto simp: Load_def Let_def validate_ok [symmetric, of _ L] split: option.splits)

lemma splitCSV_nonempty: "x \<in> set (splitCSV s) \<Longrightarrow> x \<noteq> []"
  by (simp add: splitCSV_def split: if_splits)

lemma Load_no_empty_domain: "Load L E = Inr c \<Longrightarrow> \<not> AllowedDomain U c []"
  using splitCSV_nonempty [of _ "E ''ALLOWED_DOMAINS''"]
  by (auto simp: Load_cases loadConfig_def AllowedDomain_def list_ex_iff EqualFold_empty)

lemma splitCSV_Join:
  assumes "\<And>x. x \<in> set xs \<Longrightarrow> x \<noteq> [] \<and> CHR '','' \<notin> set x \<and> TrimSpace x = x"
  shows "splitCSV (Join xs '','') = xs"
proof (cases "xs = []")
  case False
  have "Join xs '','' \<noteq> []"
  proof -
    obtain y ys where "xs = y # ys" using False by (cases xs) auto
    with assms [of y] show ?thesis by (cases ys) auto
  qed
  moreover have "SplitByte CHR '','' (Join xs '','') = xs" using False assms by (intro SplitByte_Join) auto
  moreover have "map TrimSpace xs = xs" using assms by (intro map_idI) auto
  moreover have "filter (\<lambda>t. t \<noteq> []) xs = xs" using assms by (simp add: filter_id_conv)
  ultimately show ?thesis by (simp add: splitCSV_def)
qed (simp add: splitCSV_def)

section \<open>Properties\<close>

text \<open>
  \<open>Load\<close> succeeds exactly when every required variable is set (an issuer for the generic
  provider, the fixed one for Google), the list variables name at least one entry, and the
  provider and store are known and have what they need; it then returns the configuration read
  from the environment.
\<close>

theorem Load_exact:
  "Load L E = Inr c \<longleftrightarrow> c = loadConfig L E \<and> config_ok (loadConfig L E)"
  by (auto simp: Load_cases)

text \<open>
  A loaded configuration never admits an identity without a domain, nor an empty redirect
  URI: the allowlists have no empty entries.
\<close>

theorem Load_admits_no_empty:
  assumes "Load L E = Inr c"
  shows "\<not> AllowedDomain U c [] \<and> \<not> RedirectAllowed c [] \<and> cfg_AllowedDomains c \<noteq> [] \<and> cfg_RedirectURIs c \<noteq> []"
proof -
  have c: "c = loadConfig L E" and ok: "config_ok c" using assms by (auto simp: Load_cases)
  have "cfg_AllowedDomains c = splitCSV (E ''ALLOWED_DOMAINS'')"
    "cfg_RedirectURIs c = splitCSV (E ''REDIRECT_URIS'')" by (simp_all add: c loadConfig_def)
  then show ?thesis using ok splitCSV_nonempty
    by (auto simp: AllowedDomain_def RedirectAllowed_def list_ex_iff EqualFold_empty config_ok_def)
qed

definition ex_environ :: environ where
  "ex_environ =
     (\<lambda>_. [])(''ISSUER'' := ''https://b'', ''IDP_ISSUER'' := ''https://i'', ''IDP_CLIENT_ID'' := ''x'',
       ''IDP_CLIENT_SECRET'' := ''y'', ''IDP_REDIRECT_URL'' := ''https://b/callback'', ''CLIENT_ID'' := ''kargus'',
       ''REDIRECT_URIS'' := ''https://h/cb'', ''ALLOWED_DOMAINS'' := ''acme.io'')"

lemma ex_environ_ok: "config_ok (loadConfig L ex_environ)"
  by (simp add: config_ok_def loadConfig_def loadIdP_def ex_environ_def env_def splitCSV_def TrimSpace_def
      decode_rune.simps IsSpace_def Let_def)

theorem Load_admits_no_empty_witness:
  "\<forall>L :: golib. \<forall>U :: unicode. \<exists>c. Load L ex_environ = Inr c \<and> \<not> AllowedDomain U c []"
proof (intro allI)
  fix L :: golib and U :: unicode
  have l: "Load L ex_environ = Inr (loadConfig L ex_environ)" by (simp add: Load_cases ex_environ_ok)
  from Load_admits_no_empty [OF l, of U] l
  show "\<exists>c. Load L ex_environ = Inr c \<and> \<not> AllowedDomain U c []" by blast
qed

text \<open>
  C29. The session lives as long as the bind: when \<open>REFRESH_TOKEN_LIFETIME_SECONDS\<close> is not set
  and \<open>BIND_TTL\<close> is digits and a unit that fit in 64 bits, the refresh token's lifetime is that
  duration.
\<close>

theorem refresh_lifetime_is_bind_ttl:
  assumes "E ''REFRESH_TOKEN_LIFETIME_SECONDS'' = []" and "E ''BIND_TTL'' = dec n @ u"
    and "unitMap u = Some k" and "0 < k" and "n * k < 2 ^ 63"
  shows "cfg_RefreshTokenLifetime (loadConfig L E) = int (n * k)"
  using assms ParseDuration_unit [OF assms(3,5,4), of L]
  by (simp add: loadConfig_def loadRefreshLifetime_def env_def)

theorem refresh_lifetime_is_bind_ttl_witness:
  "\<forall>L :: golib. cfg_RefreshTokenLifetime (loadConfig L (ex_environ(''BIND_TTL'' := ''12h''))) = 12 * Hour"
proof
  fix L :: golib
  have d: "dec 12 @ ''h'' = ''12h''" by (simp add: dec_small dec_large digit_char_def char_of_eq_iff)
  have u: "unitMap ''h'' = Some 3600000000000" by (simp add: unitMap_def)
  show "cfg_RefreshTokenLifetime (loadConfig L (ex_environ(''BIND_TTL'' := ''12h''))) = 12 * Hour"
    using refresh_lifetime_is_bind_ttl [where E = "ex_environ(''BIND_TTL'' := ''12h'')" and n = 12, OF _ _ u, of L] d
    by (simp add: ex_environ_def)
qed

end
