(* ===== verification/Kargus_Model.thy ===== *)
theory Kargus_Model
  imports Go_Rfc3339
begin

text \<open>
  The data the components exchange: the identity types of
  \<open>service/internal/model/model.go\<close>, the custom resource of
  \<open>operator/api/v1/userauthenticationbind_types.go\<close>, and the Kubernetes objects the
  operator writes. Go's embedded \<open>metav1.ObjectMeta\<close> is record extension, so that
  \<open>om_UID bind\<close> reads as \<open>bind.UID\<close> does.
\<close>

section \<open>Identities and tokens\<close>

record Membership =
  m_Gid :: string
  m_Name :: string
  m_Domain :: string

record Identity =
  id_Subject :: string
  id_Email :: string
  id_EmailVerified :: bool
  id_Domain :: string
  id_Name :: string
  id_Groups :: "Membership list"

record Token =
  tok_AccessToken :: string
  tok_ExpiresIn :: int

section \<open>The custom resource\<close>

record CRMembership =
  crm_Gid :: string
  crm_Name :: string
  crm_Domain :: string

record UserAuthenticationBindSpec =
  spec_TTL :: string
  spec_Domain :: string
  spec_User :: string
  spec_Memberships :: "CRMembership list"

text \<open>\<open>BindUnset\<close> is the zero value \<open>""\<close> of a status that was never written.\<close>

datatype BindPhase = BindUnset | BindPending | BindBinding | BindBinded | BindUnbound | BindFailed

record ServiceBind =
  sv_Ref :: string
  sv_Status :: BindPhase
  sv_ExpiresAt :: "time option"

datatype ConditionStatus = ConditionTrue | ConditionFalse | ConditionUnknown

record Condition =
  cond_Type :: string
  cond_Status :: ConditionStatus
  cond_Reason :: string
  cond_Message :: string
  cond_LastTransitionTime :: time

record UserAuthenticationBindStatus =
  st_Conditions :: "Condition list"
  st_Sv :: ServiceBind

record ObjectMeta =
  om_Name :: string
  om_Namespace :: string
  om_UID :: string
  om_Annotations :: "string \<rightharpoonup> string"
  om_Labels :: "string \<rightharpoonup> string"
  om_Finalizers :: "string list"
  om_CreationTimestamp :: time
  om_DeletionTimestamp :: "time option"

record UserAuthenticationBind = ObjectMeta +
  uab_Spec :: UserAuthenticationBindSpec
  uab_Status :: UserAuthenticationBindStatus

section \<open>RBAC objects and ServiceAccounts\<close>

record RoleRef =
  rr_APIGroup :: string
  rr_Kind :: string
  rr_Name :: string

record Subject =
  sub_Kind :: string
  sub_Name :: string
  sub_Namespace :: string

text \<open>A ClusterRoleBinding (whose namespace is empty) or a RoleBinding.\<close>

record Binding = ObjectMeta +
  b_RoleRef :: RoleRef
  b_Subjects :: "Subject list"

record ServiceAccount = ObjectMeta +
  sa_Owners :: "string list"

text \<open>A fresh object: what \<open>metav1.ObjectMeta{Name: n, Namespace: ns}\<close> leaves unset.\<close>

definition object_meta :: "string \<Rightarrow> string \<Rightarrow> ObjectMeta" where
  "object_meta ns n =
     \<lparr>om_Name = n, om_Namespace = ns, om_UID = [], om_Annotations = Map.empty,
      om_Labels = Map.empty, om_Finalizers = [], om_CreationTimestamp = 0,
      om_DeletionTimestamp = None\<rparr>"

definition empty_status :: UserAuthenticationBindStatus where
  "empty_status =
     \<lparr>st_Conditions = [], st_Sv = \<lparr>sv_Ref = [], sv_Status = BindUnset, sv_ExpiresAt = None\<rparr>\<rparr>"

definition new_bind :: "string \<Rightarrow> string \<Rightarrow> UserAuthenticationBind" where
  "new_bind ns n =
     ObjectMeta.extend (object_meta ns n)
       (UserAuthenticationBind.fields
         \<lparr>spec_TTL = [], spec_Domain = [], spec_User = [], spec_Memberships = []\<rparr> empty_status)"

definition new_service_account :: "string \<Rightarrow> string \<Rightarrow> ServiceAccount" where
  "new_service_account ns n = ObjectMeta.extend (object_meta ns n) (ServiceAccount.fields [])"

definition new_binding :: "string \<Rightarrow> string \<Rightarrow> RoleRef \<Rightarrow> Subject list \<Rightarrow> Binding" where
  "new_binding ns n ref subs = ObjectMeta.extend (object_meta ns n) (Binding.fields ref subs)"

lemmas new_object_defs =
  object_meta_def new_bind_def new_service_account_def new_binding_def empty_status_def
  ObjectMeta.extend_def UserAuthenticationBind.fields_def ServiceAccount.fields_def Binding.fields_def

lemma new_binding_sel [simp]:
  "om_Name (new_binding ns n ref subs) = n"
  "om_Namespace (new_binding ns n ref subs) = ns"
  "b_RoleRef (new_binding ns n ref subs) = ref"
  "b_Subjects (new_binding ns n ref subs) = subs"
  by (simp_all add: new_object_defs)

lemma new_service_account_sel [simp]:
  "om_Name (new_service_account ns n) = n"
  "om_Namespace (new_service_account ns n) = ns"
  by (simp_all add: new_object_defs)

lemma new_bind_sel [simp]:
  "om_Name (new_bind ns n) = n"
  "om_Namespace (new_bind ns n) = ns"
  "uab_Status (new_bind ns n) = empty_status"
  by (simp_all add: new_object_defs)

end
