(* ===== verification/Store.thy ===== *)
theory Store
  imports Kargus_Model
begin

text \<open>
  \<open>service/internal/store\<close>: the grants the broker keeps between two requests, the
  contract every backend must keep (\<open>store.go\<close>) and the in-process backend (\<open>memory.go\<close>).
  The contract is the locale \<open>one_shot\<close>, once for each of the three kinds of entry: what
  is taken was saved, and it is taken once.
\<close>

section \<open>Entries and interface\<close>

record AuthRequest =
  ar_ClientID :: string
  ar_RedirectURI :: string
  ar_State :: string
  ar_Nonce :: string
  ar_CodeChallenge :: string
  ar_CodeChallengeMethod :: string
  ar_Scope :: string
  ar_IdPNonce :: string

record CodeGrant =
  cg_ClientID :: string
  cg_RedirectURI :: string
  cg_CodeChallenge :: string
  cg_Nonce :: string
  cg_Subject :: string
  cg_AccessToken :: string
  cg_IDToken :: string
  cg_RefreshToken :: string
  cg_ExpiresIn :: int

record GroupRef =
  gr_Gid :: string
  gr_Name :: string
  gr_Domain :: string

record RefreshGrant =
  rg_ClientID :: string
  rg_Email :: string
  rg_Subject :: string
  rg_Name :: string
  rg_EmailVerified :: bool
  rg_Domain :: string
  rg_Groups :: "GroupRef list"

record 'w Store =
  s_SaveAuthRequest :: "string \<Rightarrow> AuthRequest \<Rightarrow> duration \<Rightarrow> 'w \<Rightarrow> goerror option \<times> 'w"
  s_TakeAuthRequest :: "string \<Rightarrow> 'w \<Rightarrow> AuthRequest res \<times> 'w"
  s_SaveCode :: "string \<Rightarrow> CodeGrant \<Rightarrow> duration \<Rightarrow> 'w \<Rightarrow> goerror option \<times> 'w"
  s_TakeCode :: "string \<Rightarrow> 'w \<Rightarrow> CodeGrant res \<times> 'w"
  s_SaveRefresh :: "string \<Rightarrow> RefreshGrant \<Rightarrow> duration \<Rightarrow> 'w \<Rightarrow> goerror option \<times> 'w"
  s_TakeRefresh :: "string \<Rightarrow> 'w \<Rightarrow> RefreshGrant res \<times> 'w"

section \<open>The contract\<close>

text \<open>
  \<open>live w k\<close> is the value a take of \<open>k\<close> would return now. \<open>norm\<close> is what the backend
  does to a value on its way in and out. A call that fails may have had its effect.
\<close>

locale one_shot =
  fixes save :: "string \<Rightarrow> 'v \<Rightarrow> duration \<Rightarrow> 'w \<Rightarrow> goerror option \<times> 'w"
    and take :: "string \<Rightarrow> 'w \<Rightarrow> 'v res \<times> 'w"
    and live :: "'w \<Rightarrow> string \<rightharpoonup> 'v"
    and norm :: "'v \<Rightarrow> 'v"
  assumes save_ok: "save k v ttl w = (None, w') \<Longrightarrow> 0 < ttl \<Longrightarrow> live w' = (live w)(k \<mapsto> norm v)"
    and save_any: "save k v ttl w = (r, w') \<Longrightarrow>
      live w' = live w \<or> live w' = (live w)(k \<mapsto> norm v) \<or> live w' = (live w)(k := None)"
    and take_ok: "take k w = (Inr v, w') \<Longrightarrow> live w k = Some v \<and> live w' = (live w)(k := None)"
    and take_err: "take k w = (Inl e, w') \<Longrightarrow> live w' = live w \<or> live w' = (live w)(k := None)"
    and take_missing: "take k w = (Inl e, w') \<Longrightarrow> errors_Is e ErrNotFound \<Longrightarrow> live w k = None"

text \<open>
  A history of one kind of entry: saves, takes, and whatever else happens, which can only
  make entries disappear (time passes, a sweep runs, the backend is flushed).
\<close>

datatype 'v shot = Saved string 'v | Took string 'v | Refused string | Passed

inductive shots ::
  "(string \<Rightarrow> 'v \<Rightarrow> duration \<Rightarrow> 'w \<Rightarrow> goerror option \<times> 'w) \<Rightarrow> (string \<Rightarrow> 'w \<Rightarrow> 'v res \<times> 'w) \<Rightarrow>
   ('w \<Rightarrow> string \<rightharpoonup> 'v) \<Rightarrow> 'w \<Rightarrow> 'v shot list \<Rightarrow> 'w \<Rightarrow> bool"
  for save take live w where
  start: "shots save take live w [] w"
| saved: "shots save take live w tr w1 \<Longrightarrow> save k v ttl w1 = (r, w2) \<Longrightarrow>
    shots save take live w (tr @ [Saved k v]) w2"
| took: "shots save take live w tr w1 \<Longrightarrow> take k w1 = (Inr v, w2) \<Longrightarrow>
    shots save take live w (tr @ [Took k v]) w2"
| refused: "shots save take live w tr w1 \<Longrightarrow> take k w1 = (Inl e, w2) \<Longrightarrow>
    shots save take live w (tr @ [Refused k]) w2"
| passed: "shots save take live w tr w1 \<Longrightarrow> live w2 \<subseteq>\<^sub>m live w1 \<Longrightarrow>
    shots save take live w (tr @ [Passed]) w2"

fun saves_of :: "string \<Rightarrow> 'v shot \<Rightarrow> bool" where
  "saves_of k (Saved k' v) \<longleftrightarrow> k' = k"
| "saves_of k _ \<longleftrightarrow> False"

fun takes_of :: "string \<Rightarrow> 'v shot \<Rightarrow> bool" where
  "takes_of k (Took k' v) \<longleftrightarrow> k' = k"
| "takes_of k _ \<longleftrightarrow> False"

definition count :: "('v shot \<Rightarrow> bool) \<Rightarrow> 'v shot list \<Rightarrow> nat" where
  "count P tr = length (filter P tr)"

lemma count_simps [simp]:
  "count P [] = 0" "count P (tr @ [x]) = count P tr + (if P x then 1 else 0)"
  by (simp_all add: count_def)

context one_shot
begin

lemma balance:
  "shots save take live w tr w' \<Longrightarrow>
   count (takes_of k) tr + (if live w' k = None then 0 else 1) \<le>
   count (saves_of k) tr + (if live w k = None then 0 else 1)"
proof (induction rule: shots.induct)
  case (saved tr w1 k' v ttl r w2)
  with save_any [OF saved(2)] show ?case by (auto split: if_splits)
next
  case (took tr w1 k' v w2)
  with take_ok [OF took(2)] show ?case by (auto split: if_splits)
next
  case (refused tr w1 k' e w2)
  with take_err [OF refused(2)] show ?case by (auto split: if_splits)
next
  case (passed tr w1 w2)
  then have "live w1 k = None \<Longrightarrow> live w2 k = None" by (metis domIff map_le_implies_dom_le subsetD)
  with passed show ?case by (auto split: if_splits)
qed simp

text \<open>A value is never taken more often than it was saved.\<close>

lemma takes_le_saves:
  assumes "shots save take live w tr w'" and "live w k = None"
  shows "count (takes_of k) tr \<le> count (saves_of k) tr"
  using balance [OF assms(1), of k] assms(2) by (simp split: if_splits)

text \<open>What is taken is what was saved under that key.\<close>

lemma live_origin:
  "shots save take live w tr w' \<Longrightarrow> live w' k = Some x \<Longrightarrow>
   live w k = Some x \<or> (\<exists>v. Saved k v \<in> set tr \<and> norm v = x)"
proof (induction arbitrary: x rule: shots.induct)
  case (saved tr w1 k' v ttl r w2)
  then show ?case using save_any [OF saved(2)] by (auto split: if_splits)
next
  case (took tr w1 k' v w2)
  then show ?case using take_ok [OF took(2)] by (auto split: if_splits)
next
  case (refused tr w1 k' e w2)
  then show ?case using take_err [OF refused(2)] by (auto split: if_splits)
next
  case (passed tr w1 w2)
  then have "live w1 k = Some x" by (metis domI map_le_def)
  with passed.IH show ?case by auto
qed simp

lemma took_origin:
  "shots save take live w tr w' \<Longrightarrow> Took k x \<in> set tr \<Longrightarrow>
   live w k = Some x \<or> (\<exists>v. Saved k v \<in> set tr \<and> norm v = x)"
proof (induction rule: shots.induct)
  case (took tr w1 k' v w2)
  show ?case
  proof (cases "Took k x \<in> set tr")
    case False
    with took.prems have "k' = k" "v = x" by auto
    with take_ok [OF took(2)] have "live w1 k = Some x" by simp
    from live_origin [OF took(1) this] show ?thesis by auto
  qed (use took in auto)
qed auto

text \<open>Save, then take: the value comes back, and only once.\<close>

lemma save_take:
  assumes "save k v ttl w = (None, w1)" and "0 < ttl" and "take k w1 = (r, w2)"
  shows "(\<exists>e. r = Inl e \<and> \<not> errors_Is e ErrNotFound) \<or> r = Inr (norm v)"
    and "r = Inr x \<Longrightarrow> take k w2 = (r', w3) \<Longrightarrow> \<exists>e. r' = Inl e"
proof -
  have l: "live w1 k = Some (norm v)" using save_ok [OF assms(1,2)] by simp
  show "(\<exists>e. r = Inl e \<and> \<not> errors_Is e ErrNotFound) \<or> r = Inr (norm v)"
    using assms(3) take_missing [of k w1 _ w2] take_ok [of k w1 _ w2] l by (cases r) auto
  show "\<exists>e. r' = Inl e" if "r = Inr x" "take k w2 = (r', w3)"
    using take_ok [of k w1 x w2] take_ok [of k w2 _ w3] assms(3) that by (cases r') auto
qed

end

section \<open>The in-process store\<close>

text \<open>
  The maps with their expiry times; the clock is part of the world, since every operation
  reads it. Each operation holds the mutex from its first to its last access, so it is one
  step. \<open>stopCh\<close> only ends the background goroutine.
\<close>

record memory =
  m_now :: time
  m_auth :: "string \<rightharpoonup> AuthRequest \<times> time"
  m_codes :: "string \<rightharpoonup> CodeGrant \<times> time"
  m_refresh :: "string \<rightharpoonup> RefreshGrant \<times> time"

definition newMemory :: "time \<Rightarrow> memory" where
  "newMemory now = \<lparr>m_now = now, m_auth = Map.empty, m_codes = Map.empty, m_refresh = Map.empty\<rparr>"

definition mem_SaveAuthRequest ::
  "string \<Rightarrow> AuthRequest \<Rightarrow> duration \<Rightarrow> 'a memory_scheme \<Rightarrow> goerror option \<times> 'a memory_scheme" where
  "mem_SaveAuthRequest key ar ttl m = (None, m\<lparr>m_auth := (m_auth m)(key \<mapsto> (ar, m_now m + ttl))\<rparr>)"

definition mem_TakeAuthRequest ::
  "string \<Rightarrow> 'a memory_scheme \<Rightarrow> AuthRequest res \<times> 'a memory_scheme" where
  "mem_TakeAuthRequest key m =
     (let m' = m\<lparr>m_auth := (m_auth m)(key := None)\<rparr>
      in case m_auth m key of
           None \<Rightarrow> (Inl ErrNotFound, m')
         | Some (v, exp) \<Rightarrow> (if exp < m_now m then Inl ErrNotFound else Inr v, m'))"

definition mem_SaveCode ::
  "string \<Rightarrow> CodeGrant \<Rightarrow> duration \<Rightarrow> 'a memory_scheme \<Rightarrow> goerror option \<times> 'a memory_scheme" where
  "mem_SaveCode code g ttl m = (None, m\<lparr>m_codes := (m_codes m)(code \<mapsto> (g, m_now m + ttl))\<rparr>)"

definition mem_TakeCode :: "string \<Rightarrow> 'a memory_scheme \<Rightarrow> CodeGrant res \<times> 'a memory_scheme" where
  "mem_TakeCode code m =
     (let m' = m\<lparr>m_codes := (m_codes m)(code := None)\<rparr>
      in case m_codes m code of
           None \<Rightarrow> (Inl ErrNotFound, m')
         | Some (v, exp) \<Rightarrow> (if exp < m_now m then Inl ErrNotFound else Inr v, m'))"

definition mem_SaveRefresh ::
  "string \<Rightarrow> RefreshGrant \<Rightarrow> duration \<Rightarrow> 'a memory_scheme \<Rightarrow> goerror option \<times> 'a memory_scheme" where
  "mem_SaveRefresh token g ttl m = (None, m\<lparr>m_refresh := (m_refresh m)(token \<mapsto> (g, m_now m + ttl))\<rparr>)"

definition mem_TakeRefresh :: "string \<Rightarrow> 'a memory_scheme \<Rightarrow> RefreshGrant res \<times> 'a memory_scheme" where
  "mem_TakeRefresh token m =
     (let m' = m\<lparr>m_refresh := (m_refresh m)(token := None)\<rparr>
      in case m_refresh m token of
           None \<Rightarrow> (Inl ErrNotFound, m')
         | Some (v, exp) \<Rightarrow> (if exp < m_now m then Inl ErrNotFound else Inr v, m'))"

text \<open>One pass of the background sweep, with the tick's time.\<close>

definition swept :: "time \<Rightarrow> (string \<rightharpoonup> 'v \<times> time) \<Rightarrow> (string \<rightharpoonup> 'v \<times> time)" where
  "swept now e k = (case e k of None \<Rightarrow> None | Some (v, exp) \<Rightarrow> if exp < now then None else Some (v, exp))"

definition sweep :: "time \<Rightarrow> 'a memory_scheme \<Rightarrow> 'a memory_scheme" where
  "sweep now m =
     m\<lparr>m_auth := swept now (m_auth m), m_codes := swept now (m_codes m), m_refresh := swept now (m_refresh m)\<rparr>"

text \<open>
  The background goroutine: a pass per tick until \<open>stopCh\<close> is closed. \<open>Close\<close> closes it; closing
  it again panics (\<open>None\<close>).
\<close>

datatype sweep_event = StopClosed | Ticked time

fun sweepLoop :: "sweep_event list \<Rightarrow> 'a memory_scheme \<Rightarrow> 'a memory_scheme" where
  "sweepLoop [] m = m"
| "sweepLoop (StopClosed # es) m = m"
| "sweepLoop (Ticked now # es) m = sweepLoop es (sweep now m)"

definition mem_Close :: "bool \<Rightarrow> (goerror option \<times> bool) option" where
  "mem_Close closed = (if closed then None else Some (None, True))"

definition memoryStore :: "('a memory_scheme) Store" where
  "memoryStore =
     \<lparr>s_SaveAuthRequest = mem_SaveAuthRequest, s_TakeAuthRequest = mem_TakeAuthRequest,
      s_SaveCode = mem_SaveCode, s_TakeCode = mem_TakeCode,
      s_SaveRefresh = mem_SaveRefresh, s_TakeRefresh = mem_TakeRefresh\<rparr>"

lemmas [store_defs] = mem_SaveAuthRequest_def mem_TakeAuthRequest_def mem_SaveCode_def mem_TakeCode_def
  mem_SaveRefresh_def mem_TakeRefresh_def Let_def

text \<open>The entries that have not expired.\<close>

definition unexpired :: "time \<Rightarrow> (string \<rightharpoonup> 'v \<times> time) \<Rightarrow> (string \<rightharpoonup> 'v)" where
  "unexpired now e k = (case e k of None \<Rightarrow> None | Some (v, exp) \<Rightarrow> if exp < now then None else Some v)"

lemma unexpired_upd [simp]:
  "unexpired now (e(k \<mapsto> (v, x))) = (unexpired now e)(k := if x < now then None else Some v)"
  "unexpired now (e(k := None)) = (unexpired now e)(k := None)"
  by (auto simp: unexpired_def fun_eq_iff)

lemma unexpired_later: "now \<le> now' \<Longrightarrow> unexpired now' e \<subseteq>\<^sub>m unexpired now e"
  by (auto simp: unexpired_def map_le_def split: option.splits if_splits)

lemma unexpired_swept: "now' \<le> now \<Longrightarrow> unexpired now (swept now' e) = unexpired now e"
  by (auto simp: unexpired_def swept_def fun_eq_iff split: option.splits)

interpretation mem_auth: one_shot mem_SaveAuthRequest mem_TakeAuthRequest
    "\<lambda>m. unexpired (m_now m) (m_auth m)" id
  by unfold_locales
    (auto simp: store_defs fun_eq_iff unexpired_def split: option.splits prod.splits if_splits)

interpretation mem_codes: one_shot mem_SaveCode mem_TakeCode
    "\<lambda>m. unexpired (m_now m) (m_codes m)" id
  by unfold_locales
    (auto simp: store_defs fun_eq_iff unexpired_def split: option.splits prod.splits if_splits)

interpretation mem_refresh: one_shot mem_SaveRefresh mem_TakeRefresh
    "\<lambda>m. unexpired (m_now m) (m_refresh m)" id
  by unfold_locales
    (auto simp: store_defs fun_eq_iff unexpired_def split: option.splits prod.splits if_splits)

section \<open>Histories of the in-process store\<close>

text \<open>
  Any interleaving of the operations of concurrent requests with the clock and the sweep. The
  tick the sweep uses may be late, never early.
\<close>

datatype store_event =
    EvSaveAuth string AuthRequest duration
  | EvTakeAuth string
  | EvSaveCode string CodeGrant duration
  | EvTakeCode string
  | EvSaveRefresh string RefreshGrant duration
  | EvTakeRefresh string
  | EvSweep nat
  | EvClock nat

datatype store_outcome =
    ODone | OAuth "AuthRequest res" | OCode "CodeGrant res" | ORefresh "RefreshGrant res"

fun mem_event :: "store_event \<Rightarrow> memory \<Rightarrow> store_outcome \<times> memory" where
  "mem_event (EvSaveAuth k v ttl) m = (ODone, snd (mem_SaveAuthRequest k v ttl m))"
| "mem_event (EvTakeAuth k) m = (case mem_TakeAuthRequest k m of (r, m') \<Rightarrow> (OAuth r, m'))"
| "mem_event (EvSaveCode k v ttl) m = (ODone, snd (mem_SaveCode k v ttl m))"
| "mem_event (EvTakeCode k) m = (case mem_TakeCode k m of (r, m') \<Rightarrow> (OCode r, m'))"
| "mem_event (EvSaveRefresh k v ttl) m = (ODone, snd (mem_SaveRefresh k v ttl m))"
| "mem_event (EvTakeRefresh k) m = (case mem_TakeRefresh k m of (r, m') \<Rightarrow> (ORefresh r, m'))"
| "mem_event (EvSweep late) m = (ODone, sweep (m_now m - int late) m)"
| "mem_event (EvClock d) m = (ODone, m\<lparr>m_now := m_now m + int d\<rparr>)"

fun mem_history :: "store_event list \<Rightarrow> memory \<Rightarrow> (store_event \<times> store_outcome) list \<times> memory" where
  "mem_history [] m = ([], m)"
| "mem_history (e # es) m =
     (case mem_event e m of (r, m1) \<Rightarrow> case mem_history es m1 of (tr, m2) \<Rightarrow> ((e, r) # tr, m2))"

text \<open>The history as one kind of entry sees it.\<close>

fun code_shot :: "store_event \<times> store_outcome \<Rightarrow> CodeGrant shot" where
  "code_shot (EvSaveCode k v ttl, _) = Saved k v"
| "code_shot (EvTakeCode k, OCode (Inr v)) = Took k v"
| "code_shot (EvTakeCode k, _) = Refused k"
| "code_shot _ = Passed"

fun refresh_shot :: "store_event \<times> store_outcome \<Rightarrow> RefreshGrant shot" where
  "refresh_shot (EvSaveRefresh k v ttl, _) = Saved k v"
| "refresh_shot (EvTakeRefresh k, ORefresh (Inr v)) = Took k v"
| "refresh_shot (EvTakeRefresh k, _) = Refused k"
| "refresh_shot _ = Passed"

abbreviation live_codes :: "'a memory_scheme \<Rightarrow> string \<rightharpoonup> CodeGrant" where
  "live_codes m \<equiv> unexpired (m_now m) (m_codes m)"

abbreviation live_refresh :: "'a memory_scheme \<Rightarrow> string \<rightharpoonup> RefreshGrant" where
  "live_refresh m \<equiv> unexpired (m_now m) (m_refresh m)"

lemma sweep_sel [simp]:
  "m_now (sweep t m) = m_now m" "m_auth (sweep t m) = swept t (m_auth m)"
  "m_codes (sweep t m) = swept t (m_codes m)" "m_refresh (sweep t m) = swept t (m_refresh m)"
  by (simp_all add: sweep_def)

text \<open>With ticks that are never early, the goroutine removes only what has expired.\<close>

lemma sweepLoop_live:
  "(\<And>t. Ticked t \<in> set es \<Longrightarrow> t \<le> m_now m) \<Longrightarrow>
   m_now (sweepLoop es m) = m_now m \<and>
   unexpired (m_now m) (m_auth (sweepLoop es m)) = unexpired (m_now m) (m_auth m) \<and>
   unexpired (m_now m) (m_codes (sweepLoop es m)) = unexpired (m_now m) (m_codes m) \<and>
   unexpired (m_now m) (m_refresh (sweepLoop es m)) = unexpired (m_now m) (m_refresh m)"
proof (induction es m rule: sweepLoop.induct)
  case (3 now es m)
  have "now \<le> m_now m" using 3(2) by simp
  with 3 show ?case by (simp add: unexpired_swept)
qed simp_all

lemma mem_event_code:
  assumes "shots mem_SaveCode mem_TakeCode live_codes m0 tr m" and "mem_event e m = (r, m')"
  shows "shots mem_SaveCode mem_TakeCode live_codes m0 (tr @ [code_shot (e, r)]) m'"
proof (cases e)
  case (EvSaveCode k v ttl)
  with assms(2) have "mem_SaveCode k v ttl m = (None, m')" by (auto simp: mem_SaveCode_def)
  with EvSaveCode shots.saved [OF assms(1)] show ?thesis by simp
next
  case (EvTakeCode k)
  then obtain x where x: "mem_TakeCode k m = (x, m')" "r = OCode x" using assms(2) by (auto split: prod.splits)
  then show ?thesis
    using EvTakeCode shots.took [OF assms(1)] shots.refused [OF assms(1)] by (cases x) auto
qed (use assms(2) in \<open>auto simp: store_defs intro!: shots.passed [OF assms(1)] unexpired_later
    split: option.splits prod.splits\<close>, simp add: unexpired_swept)

lemma mem_event_refresh:
  assumes "shots mem_SaveRefresh mem_TakeRefresh live_refresh m0 tr m" and "mem_event e m = (r, m')"
  shows "shots mem_SaveRefresh mem_TakeRefresh live_refresh m0 (tr @ [refresh_shot (e, r)]) m'"
proof (cases e)
  case (EvSaveRefresh k v ttl)
  with assms(2) have "mem_SaveRefresh k v ttl m = (None, m')" by (auto simp: mem_SaveRefresh_def)
  with EvSaveRefresh shots.saved [OF assms(1)] show ?thesis by simp
next
  case (EvTakeRefresh k)
  then obtain x where x: "mem_TakeRefresh k m = (x, m')" "r = ORefresh x" using assms(2) by (auto split: prod.splits)
  then show ?thesis
    using EvTakeRefresh shots.took [OF assms(1)] shots.refused [OF assms(1)] by (cases x) auto
qed (use assms(2) in \<open>auto simp: store_defs intro!: shots.passed [OF assms(1)] unexpired_later
    split: option.splits prod.splits\<close>, simp add: unexpired_swept)

lemma mem_history_shots:
  "mem_history es m = (tr, m') \<Longrightarrow>
   shots mem_SaveCode mem_TakeCode live_codes m0 t m \<Longrightarrow>
   shots mem_SaveCode mem_TakeCode live_codes m0 (t @ map code_shot tr) m'"
  "mem_history es m = (tr, m') \<Longrightarrow>
   shots mem_SaveRefresh mem_TakeRefresh live_refresh m0 u m \<Longrightarrow>
   shots mem_SaveRefresh mem_TakeRefresh live_refresh m0 (u @ map refresh_shot tr) m'"
proof (induction es arbitrary: m tr t u)
  case (Cons e es)
  {
    case 1
    then obtain r m1 tr1 where "mem_event e m = (r, m1)" "mem_history es m1 = (tr1, m')" "tr = (e, r) # tr1"
      by (auto split: prod.splits)
    with Cons.IH(1) [of m1 tr1] mem_event_code [OF 1(2)] show ?case by fastforce
  next
    case 2
    then obtain r m1 tr1 where "mem_event e m = (r, m1)" "mem_history es m1 = (tr1, m')" "tr = (e, r) # tr1"
      by (auto split: prod.splits)
    with Cons.IH(2) [of m1 tr1] mem_event_refresh [OF 2(2)] show ?case by fastforce
  }
qed simp_all

end
