(* ===== verification/Store_Redis.thy ===== *)
theory Store_Redis
  imports Store Config
begin

text \<open>
  The Redis backend (\<open>service/internal/store/redis.go\<close>). The client \<open>go-redis\<close> is not in
  the repository: its \<open>Set\<close>, \<open>GetDel\<close> and \<open>Ping\<close> are the record \<open>redis\<close>, with their
  documented behaviour as the locale \<open>redis_client\<close>. A stored byte string is represented by
  the JSON value it encodes; the encoder's replacement of invalid UTF-8, which changes what
  comes back, is part of the model. The three kinds of entry share one key space, kept apart
  by the prefixes.
\<close>

section \<open>JSON values\<close>

datatype json =
    JNull
  | JBool bool
  | JInt int
  | JStr string
  | JArr "json list"
  | JObj "(string \<times> json) list"

text \<open>The string encoder writes U+FFFD for each invalid byte.\<close>

definition coerceUTF8 :: "string \<Rightarrow> string" where
  "coerceUTF8 s = concat (map encode_rune (runes s))"

definition validUTF8 :: "string \<Rightarrow> bool" where
  "validUTF8 s \<longleftrightarrow> coerceUTF8 s = s"

lemma coerceUTF8_valid [simp]: "validUTF8 s \<Longrightarrow> coerceUTF8 s = s"
  by (simp add: validUTF8_def)

lemma validUTF8_ascii: "ascii s \<Longrightarrow> validUTF8 s"
  unfolding validUTF8_def coerceUTF8_def
  by (simp add: runes_ascii) (induction s; simp add: encode_rune_ascii ascii_def)

definition jstr :: "string \<Rightarrow> json" where
  "jstr s = JStr (coerceUTF8 s)"

text \<open>
  \<open>json.Unmarshal\<close> into a struct: a field takes the value of its key, and keeps its zero
  value when the key is missing or null. A value of another type is an error.
\<close>

definition field :: "json \<Rightarrow> string \<Rightarrow> json option" where
  "field v k = (case v of JObj fs \<Rightarrow> map_of fs k | _ \<Rightarrow> None)"

definition typeError :: goerror where
  "typeError = Errorf ''json: cannot unmarshal value into Go struct field''"

definition getStr :: "json \<Rightarrow> string \<Rightarrow> string res" where
  "getStr v k = (case field v k of None \<Rightarrow> Inr [] | Some JNull \<Rightarrow> Inr [] | Some (JStr s) \<Rightarrow> Inr s | _ \<Rightarrow> Inl typeError)"

definition getInt :: "json \<Rightarrow> string \<Rightarrow> int res" where
  "getInt v k = (case field v k of None \<Rightarrow> Inr 0 | Some JNull \<Rightarrow> Inr 0 | Some (JInt n) \<Rightarrow> Inr n | _ \<Rightarrow> Inl typeError)"

definition getBool :: "json \<Rightarrow> string \<Rightarrow> bool res" where
  "getBool v k = (case field v k of None \<Rightarrow> Inr False | Some JNull \<Rightarrow> Inr False | Some (JBool b) \<Rightarrow> Inr b | _ \<Rightarrow> Inl typeError)"

definition getArr :: "json \<Rightarrow> string \<Rightarrow> json list res" where
  "getArr v k = (case field v k of None \<Rightarrow> Inr [] | Some JNull \<Rightarrow> Inr [] | Some (JArr xs) \<Rightarrow> Inr xs | _ \<Rightarrow> Inl typeError)"

definition andThen :: "'b res \<Rightarrow> ('b \<Rightarrow> 'c res) \<Rightarrow> 'c res" where
  "andThen r f = (case r of Inl e \<Rightarrow> Inl e | Inr x \<Rightarrow> f x)"

lemma andThen_simps [simp]: "andThen (Inl e) f = Inl e" "andThen (Inr x) f = f x"
  by (simp_all add: andThen_def)

fun traverse :: "('b \<Rightarrow> 'c res) \<Rightarrow> 'b list \<Rightarrow> 'c list res" where
  "traverse f [] = Inr []"
| "traverse f (x # xs) = andThen (f x) (\<lambda>y. andThen (traverse f xs) (\<lambda>ys. Inr (y # ys)))"

lemma traverse_map: "(\<And>x. x \<in> set xs \<Longrightarrow> f (g x) = Inr (h x)) \<Longrightarrow> traverse f (map g xs) = Inr (map h xs)"
  by (induction xs) auto

section \<open>Marshalling the entries\<close>

definition marshalAuthRequest :: "AuthRequest \<Rightarrow> json" where
  "marshalAuthRequest a =
     JObj [(''client_id'', jstr (ar_ClientID a)), (''redirect_uri'', jstr (ar_RedirectURI a)),
           (''state'', jstr (ar_State a)), (''nonce'', jstr (ar_Nonce a)),
           (''code_challenge'', jstr (ar_CodeChallenge a)),
           (''code_challenge_method'', jstr (ar_CodeChallengeMethod a)),
           (''scope'', jstr (ar_Scope a)), (''idp_nonce'', jstr (ar_IdPNonce a))]"

definition unmarshalAuthRequest :: "json \<Rightarrow> AuthRequest res" where
  "unmarshalAuthRequest v =
     andThen (getStr v ''client_id'') (\<lambda>a. andThen (getStr v ''redirect_uri'') (\<lambda>b.
     andThen (getStr v ''state'') (\<lambda>c. andThen (getStr v ''nonce'') (\<lambda>d.
     andThen (getStr v ''code_challenge'') (\<lambda>e. andThen (getStr v ''code_challenge_method'') (\<lambda>f.
     andThen (getStr v ''scope'') (\<lambda>g. andThen (getStr v ''idp_nonce'') (\<lambda>h.
     Inr \<lparr>ar_ClientID = a, ar_RedirectURI = b, ar_State = c, ar_Nonce = d, ar_CodeChallenge = e,
          ar_CodeChallengeMethod = f, ar_Scope = g, ar_IdPNonce = h\<rparr>))))))))"

definition marshalCodeGrant :: "CodeGrant \<Rightarrow> json" where
  "marshalCodeGrant g =
     JObj [(''client_id'', jstr (cg_ClientID g)), (''redirect_uri'', jstr (cg_RedirectURI g)),
           (''code_challenge'', jstr (cg_CodeChallenge g)), (''nonce'', jstr (cg_Nonce g)),
           (''subject'', jstr (cg_Subject g)), (''access_token'', jstr (cg_AccessToken g)),
           (''id_token'', jstr (cg_IDToken g)), (''refresh_token'', jstr (cg_RefreshToken g)),
           (''expires_in'', JInt (cg_ExpiresIn g))]"

definition unmarshalCodeGrant :: "json \<Rightarrow> CodeGrant res" where
  "unmarshalCodeGrant v =
     andThen (getStr v ''client_id'') (\<lambda>a. andThen (getStr v ''redirect_uri'') (\<lambda>b.
     andThen (getStr v ''code_challenge'') (\<lambda>c. andThen (getStr v ''nonce'') (\<lambda>d.
     andThen (getStr v ''subject'') (\<lambda>e. andThen (getStr v ''access_token'') (\<lambda>f.
     andThen (getStr v ''id_token'') (\<lambda>g. andThen (getStr v ''refresh_token'') (\<lambda>h.
     andThen (getInt v ''expires_in'') (\<lambda>i.
     Inr \<lparr>cg_ClientID = a, cg_RedirectURI = b, cg_CodeChallenge = c, cg_Nonce = d, cg_Subject = e,
          cg_AccessToken = f, cg_IDToken = g, cg_RefreshToken = h, cg_ExpiresIn = i\<rparr>)))))))))"

definition marshalGroupRef :: "GroupRef \<Rightarrow> json" where
  "marshalGroupRef g =
     JObj [(''gid'', jstr (gr_Gid g)), (''name'', jstr (gr_Name g)), (''domain'', jstr (gr_Domain g))]"

definition unmarshalGroupRef :: "json \<Rightarrow> GroupRef res" where
  "unmarshalGroupRef v =
     andThen (getStr v ''gid'') (\<lambda>a. andThen (getStr v ''name'') (\<lambda>b. andThen (getStr v ''domain'') (\<lambda>c.
     Inr \<lparr>gr_Gid = a, gr_Name = b, gr_Domain = c\<rparr>)))"

definition marshalRefreshGrant :: "RefreshGrant \<Rightarrow> json" where
  "marshalRefreshGrant g =
     JObj [(''client_id'', jstr (rg_ClientID g)), (''email'', jstr (rg_Email g)),
           (''subject'', jstr (rg_Subject g)), (''name'', jstr (rg_Name g)),
           (''email_verified'', JBool (rg_EmailVerified g)), (''domain'', jstr (rg_Domain g)),
           (''groups'', JArr (map marshalGroupRef (rg_Groups g)))]"

definition unmarshalRefreshGrant :: "json \<Rightarrow> RefreshGrant res" where
  "unmarshalRefreshGrant v =
     andThen (getStr v ''client_id'') (\<lambda>a. andThen (getStr v ''email'') (\<lambda>b.
     andThen (getStr v ''subject'') (\<lambda>c. andThen (getStr v ''name'') (\<lambda>d.
     andThen (getBool v ''email_verified'') (\<lambda>e. andThen (getStr v ''domain'') (\<lambda>f.
     andThen (getArr v ''groups'') (\<lambda>gs. andThen (traverse unmarshalGroupRef gs) (\<lambda>g.
     Inr \<lparr>rg_ClientID = a, rg_Email = b, rg_Subject = c, rg_Name = d, rg_EmailVerified = e,
          rg_Domain = f, rg_Groups = g\<rparr>))))))))"

text \<open>What an entry looks like after the round trip.\<close>

definition coerceAuthRequest :: "AuthRequest \<Rightarrow> AuthRequest" where
  "coerceAuthRequest a =
     \<lparr>ar_ClientID = coerceUTF8 (ar_ClientID a), ar_RedirectURI = coerceUTF8 (ar_RedirectURI a),
      ar_State = coerceUTF8 (ar_State a), ar_Nonce = coerceUTF8 (ar_Nonce a),
      ar_CodeChallenge = coerceUTF8 (ar_CodeChallenge a),
      ar_CodeChallengeMethod = coerceUTF8 (ar_CodeChallengeMethod a),
      ar_Scope = coerceUTF8 (ar_Scope a), ar_IdPNonce = coerceUTF8 (ar_IdPNonce a)\<rparr>"

definition coerceCodeGrant :: "CodeGrant \<Rightarrow> CodeGrant" where
  "coerceCodeGrant g =
     \<lparr>cg_ClientID = coerceUTF8 (cg_ClientID g), cg_RedirectURI = coerceUTF8 (cg_RedirectURI g),
      cg_CodeChallenge = coerceUTF8 (cg_CodeChallenge g), cg_Nonce = coerceUTF8 (cg_Nonce g),
      cg_Subject = coerceUTF8 (cg_Subject g), cg_AccessToken = coerceUTF8 (cg_AccessToken g),
      cg_IDToken = coerceUTF8 (cg_IDToken g), cg_RefreshToken = coerceUTF8 (cg_RefreshToken g),
      cg_ExpiresIn = cg_ExpiresIn g\<rparr>"

definition coerceGroupRef :: "GroupRef \<Rightarrow> GroupRef" where
  "coerceGroupRef g =
     \<lparr>gr_Gid = coerceUTF8 (gr_Gid g), gr_Name = coerceUTF8 (gr_Name g), gr_Domain = coerceUTF8 (gr_Domain g)\<rparr>"

definition coerceRefreshGrant :: "RefreshGrant \<Rightarrow> RefreshGrant" where
  "coerceRefreshGrant g =
     \<lparr>rg_ClientID = coerceUTF8 (rg_ClientID g), rg_Email = coerceUTF8 (rg_Email g),
      rg_Subject = coerceUTF8 (rg_Subject g), rg_Name = coerceUTF8 (rg_Name g),
      rg_EmailVerified = rg_EmailVerified g, rg_Domain = coerceUTF8 (rg_Domain g),
      rg_Groups = map coerceGroupRef (rg_Groups g)\<rparr>"

lemmas get_defs = getStr_def getInt_def getBool_def getArr_def field_def jstr_def

lemma unmarshal_marshal:
  "unmarshalAuthRequest (marshalAuthRequest a) = Inr (coerceAuthRequest a)"
  "unmarshalCodeGrant (marshalCodeGrant c) = Inr (coerceCodeGrant c)"
  "unmarshalGroupRef (marshalGroupRef x) = Inr (coerceGroupRef x)"
  "unmarshalRefreshGrant (marshalRefreshGrant r) = Inr (coerceRefreshGrant r)"
proof -
  show g: "unmarshalGroupRef (marshalGroupRef x) = Inr (coerceGroupRef x)" for x
    by (simp add: unmarshalGroupRef_def marshalGroupRef_def coerceGroupRef_def get_defs)
  show "unmarshalAuthRequest (marshalAuthRequest a) = Inr (coerceAuthRequest a)"
    by (simp add: unmarshalAuthRequest_def marshalAuthRequest_def coerceAuthRequest_def get_defs)
  show "unmarshalCodeGrant (marshalCodeGrant c) = Inr (coerceCodeGrant c)"
    by (simp add: unmarshalCodeGrant_def marshalCodeGrant_def coerceCodeGrant_def get_defs)
  have "traverse unmarshalGroupRef (map marshalGroupRef (rg_Groups r)) = Inr (map coerceGroupRef (rg_Groups r))"
    by (rule traverse_map) (rule g)
  then show "unmarshalRefreshGrant (marshalRefreshGrant r) = Inr (coerceRefreshGrant r)"
    by (simp add: unmarshalRefreshGrant_def marshalRefreshGrant_def coerceRefreshGrant_def get_defs)
qed

section \<open>The backend\<close>

record 'w redis =
  r_Set :: "string \<Rightarrow> json \<Rightarrow> duration \<Rightarrow> 'w \<Rightarrow> goerror option \<times> 'w"
  r_GetDel :: "string \<Rightarrow> 'w \<Rightarrow> json res \<times> 'w"
  r_Ping :: "'w \<Rightarrow> goerror option \<times> 'w"

definition redis_save :: "('w, 'a) redis_scheme \<Rightarrow> string \<Rightarrow> json \<Rightarrow> duration \<Rightarrow> 'w \<Rightarrow> goerror option \<times> 'w" where
  "redis_save R key v ttl w = r_Set R key v ttl w"

definition redis_take ::
  "('w, 'a) redis_scheme \<Rightarrow> string \<Rightarrow> (json \<Rightarrow> 'v res) \<Rightarrow> 'w \<Rightarrow> 'v res \<times> 'w" where
  "redis_take R key unmarshal w =
     (case r_GetDel R key w of
        (Inl e, w') \<Rightarrow> (Inl (if errors_Is e RedisNil then ErrNotFound else e), w')
      | (Inr b, w') \<Rightarrow> (unmarshal b, w'))"

definition redisStore :: "('w, 'a) redis_scheme \<Rightarrow> 'w Store" where
  "redisStore R =
     \<lparr>s_SaveAuthRequest = \<lambda>key ar. redis_save R (''auth:'' @ key) (marshalAuthRequest ar),
      s_TakeAuthRequest = \<lambda>key. redis_take R (''auth:'' @ key) unmarshalAuthRequest,
      s_SaveCode = \<lambda>code g. redis_save R (''code:'' @ code) (marshalCodeGrant g),
      s_TakeCode = \<lambda>code. redis_take R (''code:'' @ code) unmarshalCodeGrant,
      s_SaveRefresh = \<lambda>token g. redis_save R (''refresh:'' @ token) (marshalRefreshGrant g),
      s_TakeRefresh = \<lambda>token. redis_take R (''refresh:'' @ token) unmarshalRefreshGrant\<rparr>"

text \<open>
  \<open>newRedis\<close>: the store, if the server answers. \<open>redis.NewClient\<close> is the argument that makes
  a client from its options; TLS means version 1.2 or later.
\<close>

record redisOptions =
  ro_Addr :: string
  ro_Password :: string
  ro_DB :: int
  ro_TLS :: bool

definition newRedis :: "(redisOptions \<Rightarrow> 'w redis) \<Rightarrow> StoreConfig \<Rightarrow> 'w \<Rightarrow> ('w Store) res \<times> 'w" where
  "newRedis NewClient cfg w =
     (let c = NewClient \<lparr>ro_Addr = st_RedisAddr cfg, ro_Password = st_RedisPassword cfg, ro_DB = st_RedisDB cfg,
                ro_TLS = st_RedisTLS cfg\<rparr>
      in case r_Ping c w of (Some e, w') \<Rightarrow> (Inl e, w') | (None, w') \<Rightarrow> (Inr (redisStore c), w'))"

text \<open>\<open>store.New\<close>: the in-process store starts empty.\<close>

definition store_New ::
  "(redisOptions \<Rightarrow> ('a memory_scheme) redis) \<Rightarrow> StoreConfig \<Rightarrow> 'a memory_scheme \<Rightarrow>
   (('a memory_scheme) Store) res \<times> 'a memory_scheme" where
  "store_New NewClient cfg w =
     (if st_Backend cfg = ''redis'' then newRedis NewClient cfg w
      else (Inr memoryStore, w\<lparr>m_auth := Map.empty, m_codes := Map.empty, m_refresh := Map.empty\<rparr>))"

text \<open>The server: \<open>db w\<close> are the keys that have not expired.\<close>

locale redis_client =
  fixes R :: "('w, 'a) redis_scheme" and db :: "'w \<Rightarrow> string \<rightharpoonup> json"
  assumes set_ok: "r_Set R k v ttl w = (None, w') \<Longrightarrow> 0 < ttl \<Longrightarrow> db w' = (db w)(k \<mapsto> v)"
    and set_any: "r_Set R k v ttl w = (r, w') \<Longrightarrow>
      db w' = db w \<or> db w' = (db w)(k \<mapsto> v) \<or> db w' = (db w)(k := None)"
    and getdel_ok: "r_GetDel R k w = (Inr v, w') \<Longrightarrow> db w k = Some v \<and> db w' = (db w)(k := None)"
    and getdel_err: "r_GetDel R k w = (Inl e, w') \<Longrightarrow>
      (db w' = db w \<or> db w' = (db w)(k := None)) \<and> (errors_Is e RedisNil \<longrightarrow> db w k = None) \<and>
      \<not> errors_Is e ErrNotFound"

text \<open>Entries of one kind: the keys under one prefix whose value unmarshals.\<close>

definition entries :: "string \<Rightarrow> (json \<Rightarrow> 'v res) \<Rightarrow> (string \<rightharpoonup> json) \<Rightarrow> string \<rightharpoonup> 'v" where
  "entries p unmarshal d k =
     (case d (p @ k) of None \<Rightarrow> None | Some b \<Rightarrow> (case unmarshal b of Inl _ \<Rightarrow> None | Inr v \<Rightarrow> Some v))"

lemma entries_upd [simp]:
  "entries p u (d(p @ k := None)) = (entries p u d)(k := None)"
  "u b = Inr v \<Longrightarrow> entries p u (d(p @ k \<mapsto> b)) = (entries p u d)(k \<mapsto> v)"
  by (auto simp: entries_def fun_eq_iff)

context redis_client
begin

lemma kind_contract:
  assumes um: "\<And>v. unmarshal (marshal v) = Inr (norm v)"
    and err: "\<And>b e. unmarshal b = Inl e \<Longrightarrow> \<not> errors_Is e ErrNotFound"
  shows "one_shot (\<lambda>k v. redis_save R (p @ k) (marshal v)) (\<lambda>k. redis_take R (p @ k) unmarshal)
    (\<lambda>w. entries p unmarshal (db w)) norm"
proof
  fix k v ttl w w'
  show "entries p unmarshal (db w') = (entries p unmarshal (db w))(k \<mapsto> norm v)"
    if "redis_save R (p @ k) (marshal v) ttl w = (None, w')" "0 < ttl"
    using set_ok [of "p @ k" "marshal v" ttl w w'] that um by (simp add: redis_save_def)
  show "entries p unmarshal (db w') = entries p unmarshal (db w) \<or>
      entries p unmarshal (db w') = (entries p unmarshal (db w))(k \<mapsto> norm v) \<or>
      entries p unmarshal (db w') = (entries p unmarshal (db w))(k := None)"
    if "redis_save R (p @ k) (marshal v) ttl w = (r, w')" for r
    using set_any [of "p @ k" "marshal v" ttl w r w'] that um by (auto simp: redis_save_def)
  show "entries p unmarshal (db w) k = Some v \<and> entries p unmarshal (db w') = (entries p unmarshal (db w))(k := None)"
    if "redis_take R (p @ k) unmarshal w = (Inr v, w')"
    using that getdel_ok [of "p @ k" w _ w']
    by (auto simp: redis_take_def entries_def [of p unmarshal "db w" k] split: prod.splits sum.splits)
  fix e
  show "entries p unmarshal (db w') = entries p unmarshal (db w) \<or>
      entries p unmarshal (db w') = (entries p unmarshal (db w))(k := None)"
    if "redis_take R (p @ k) unmarshal w = (Inl e, w')"
    using that getdel_ok [of "p @ k" w _ w'] getdel_err [of "p @ k" w _ w']
    by (auto simp: redis_take_def split: prod.splits sum.splits)
  show "entries p unmarshal (db w) k = None"
    if "redis_take R (p @ k) unmarshal w = (Inl e, w')" "errors_Is e ErrNotFound"
    using that getdel_ok [of "p @ k" w _ w'] getdel_err [of "p @ k" w _ w'] err
    by (auto simp: redis_take_def entries_def split: prod.splits sum.splits if_splits)
qed

end

text \<open>Unmarshalling fails with a type error only.\<close>

definition type_errors_only :: "'b res \<Rightarrow> bool" where
  "type_errors_only r \<longleftrightarrow> (\<forall>e. r = Inl e \<longrightarrow> e = typeError)"

lemma type_errors_get [simp]:
  "type_errors_only (getStr v k)" "type_errors_only (getInt v k)" "type_errors_only (getBool v k)"
  "type_errors_only (getArr v k)" "type_errors_only (Inr x)"
  by (auto simp: type_errors_only_def getStr_def getInt_def getBool_def getArr_def
      split: option.splits json.splits)

lemma type_errors_andThen:
  "type_errors_only r \<Longrightarrow> (\<And>x. r = Inr x \<Longrightarrow> type_errors_only (f x)) \<Longrightarrow> type_errors_only (andThen r f)"
  by (cases r) (auto simp: type_errors_only_def)

lemma type_errors_unmarshal:
  "type_errors_only (unmarshalAuthRequest v)" "type_errors_only (unmarshalCodeGrant v)"
  "type_errors_only (unmarshalGroupRef v)" "type_errors_only (unmarshalRefreshGrant v)"
proof -
  show g: "type_errors_only (unmarshalGroupRef v)" for v
    unfolding unmarshalGroupRef_def by (intro type_errors_andThen type_errors_get)
  show "type_errors_only (unmarshalAuthRequest v)"
    unfolding unmarshalAuthRequest_def by (intro type_errors_andThen type_errors_get)
  show "type_errors_only (unmarshalCodeGrant v)"
    unfolding unmarshalCodeGrant_def by (intro type_errors_andThen type_errors_get)
  have "type_errors_only (traverse unmarshalGroupRef xs)" for xs
    by (induction xs) (auto intro!: type_errors_andThen g)
  then show "type_errors_only (unmarshalRefreshGrant v)"
    unfolding unmarshalRefreshGrant_def by (intro type_errors_andThen type_errors_get)
qed

lemma type_errors_not_found: "type_errors_only r \<Longrightarrow> r = Inl e \<Longrightarrow> \<not> errors_Is e ErrNotFound"
  by (simp add: type_errors_only_def typeError_def)

lemma redisStore_sel:
  "s_SaveAuthRequest (redisStore R) = (\<lambda>k v. redis_save R (''auth:'' @ k) (marshalAuthRequest v))"
  "s_TakeAuthRequest (redisStore R) = (\<lambda>k. redis_take R (''auth:'' @ k) unmarshalAuthRequest)"
  "s_SaveCode (redisStore R) = (\<lambda>k v. redis_save R (''code:'' @ k) (marshalCodeGrant v))"
  "s_TakeCode (redisStore R) = (\<lambda>k. redis_take R (''code:'' @ k) unmarshalCodeGrant)"
  "s_SaveRefresh (redisStore R) = (\<lambda>k v. redis_save R (''refresh:'' @ k) (marshalRefreshGrant v))"
  "s_TakeRefresh (redisStore R) = (\<lambda>k. redis_take R (''refresh:'' @ k) unmarshalRefreshGrant)"
  by (simp_all add: redisStore_def)

definition redis_auth :: "(string \<rightharpoonup> json) \<Rightarrow> string \<rightharpoonup> AuthRequest" where
  "redis_auth = entries ''auth:'' unmarshalAuthRequest"

definition redis_codes :: "(string \<rightharpoonup> json) \<Rightarrow> string \<rightharpoonup> CodeGrant" where
  "redis_codes = entries ''code:'' unmarshalCodeGrant"

definition redis_refresh :: "(string \<rightharpoonup> json) \<Rightarrow> string \<rightharpoonup> RefreshGrant" where
  "redis_refresh = entries ''refresh:'' unmarshalRefreshGrant"

sublocale redis_client \<subseteq> auth: one_shot "s_SaveAuthRequest (redisStore R)" "s_TakeAuthRequest (redisStore R)"
    "\<lambda>w. redis_auth (db w)" coerceAuthRequest
  unfolding redisStore_sel redis_auth_def
  by (rule kind_contract, rule unmarshal_marshal(1), rule type_errors_not_found [OF type_errors_unmarshal(1)])

sublocale redis_client \<subseteq> codes: one_shot "s_SaveCode (redisStore R)" "s_TakeCode (redisStore R)"
    "\<lambda>w. redis_codes (db w)" coerceCodeGrant
  unfolding redisStore_sel redis_codes_def
  by (rule kind_contract, rule unmarshal_marshal(2), rule type_errors_not_found [OF type_errors_unmarshal(2)])

sublocale redis_client \<subseteq> refresh: one_shot "s_SaveRefresh (redisStore R)" "s_TakeRefresh (redisStore R)"
    "\<lambda>w. redis_refresh (db w)" coerceRefreshGrant
  unfolding redisStore_sel redis_refresh_def
  by (rule kind_contract, rule unmarshal_marshal(4), rule type_errors_not_found [OF type_errors_unmarshal(4)])

text \<open>The prefixes keep the kinds apart: an operation on a code leaves the refresh tokens alone.\<close>

lemma prefixes_apart:
  "redis_refresh (d(''code:'' @ k := x)) = redis_refresh d"
  "redis_auth (d(''code:'' @ k := x)) = redis_auth d"
  "redis_codes (d(''refresh:'' @ k := x)) = redis_codes d"
  "redis_auth (d(''refresh:'' @ k := x)) = redis_auth d"
  "redis_codes (d(''auth:'' @ k := x)) = redis_codes d"
  "redis_refresh (d(''auth:'' @ k := x)) = redis_refresh d"
  by (simp_all add: redis_refresh_def redis_auth_def redis_codes_def entries_def fun_eq_iff)

context redis_client
begin

lemma code_once:
  assumes "shots (s_SaveCode (redisStore R)) (s_TakeCode (redisStore R)) (\<lambda>w. redis_codes (db w)) w tr w'"
    and "redis_codes (db w) c = None"
  shows "count (takes_of c) tr \<le> count (saves_of c) tr"
    and "Took c g \<in> set tr \<Longrightarrow> \<exists>g'. Saved c g' \<in> set tr \<and> coerceCodeGrant g' = g"
  using codes.takes_le_saves [OF assms] codes.took_origin [OF assms(1), of c g] assms(2) by auto

lemma save_take_code:
  assumes "s_SaveCode (redisStore R) c g ttl w = (None, w1)" and "0 < ttl"
    and "s_TakeCode (redisStore R) c w1 = (Inr x, w2)"
  shows "x = coerceCodeGrant g" and "redis_codes (db w2) c = None"
    and "redis_refresh (db w2) = redis_refresh (db w)" and "redis_auth (db w2) = redis_auth (db w)"
proof -
  show "x = coerceCodeGrant g" using codes.save_take(1) [OF assms] by simp
  show "redis_codes (db w2) c = None" using codes.take_ok [OF assms(3)] by simp
  have w1: "db w1 = (db w)(''code:'' @ c \<mapsto> marshalCodeGrant g)"
    using assms(1,2) set_ok by (simp add: redisStore_sel redis_save_def)
  obtain b where "r_GetDel R (''code:'' @ c) w1 = (Inr b, w2)"
    using assms(3) by (auto simp: redisStore_sel redis_take_def split: prod.splits sum.splits)
  from getdel_ok [OF this] have w2: "db w2 = (db w1)(''code:'' @ c := None)" by simp
  show "redis_refresh (db w2) = redis_refresh (db w)" by (simp only: w2 w1 prefixes_apart)
  show "redis_auth (db w2) = redis_auth (db w)" by (simp only: w2 w1 prefixes_apart)
qed

end

section \<open>A server\<close>

text \<open>A Redis server with a clock and a fault script, on which the client contract holds.\<close>

record rserver =
  rs_now :: time
  rs_faults :: "bool list"
  rs_db :: "string \<rightharpoonup> json \<times> time option"

definition rs_live :: "rserver \<Rightarrow> string \<rightharpoonup> json" where
  "rs_live s k =
     (case rs_db s k of
        None \<Rightarrow> None
      | Some (v, None) \<Rightarrow> Some v
      | Some (v, Some exp) \<Rightarrow> if exp \<le> rs_now s then None else Some v)"

definition rs_call :: "(rserver \<Rightarrow> 'b \<times> rserver) \<Rightarrow> 'b \<Rightarrow> rserver \<Rightarrow> 'b \<times> rserver" where
  "rs_call act bad s =
     (let s' = s\<lparr>rs_faults := tl (rs_faults s)\<rparr>
      in if rs_faults s \<noteq> [] \<and> hd (rs_faults s) then (bad, s') else act s')"

definition rs_client :: "rserver redis" where
  "rs_client =
     \<lparr>r_Set = \<lambda>k v ttl. rs_call (\<lambda>s. (None, s\<lparr>rs_db := (rs_db s)
          (k \<mapsto> (v, if 0 < ttl then Some (rs_now s + ttl) else None))\<rparr>)) (Some (Errorf ''i/o timeout'')),
      r_GetDel = \<lambda>k. rs_call (\<lambda>s. (case rs_live s k of None \<Rightarrow> Inl RedisNil | Some v \<Rightarrow> Inr v,
          s\<lparr>rs_db := (rs_db s)(k := None)\<rparr>)) (Inl (Errorf ''i/o timeout'')),
      r_Ping = rs_call (\<lambda>s. (None, s)) (Some (Errorf ''i/o timeout''))\<rparr>"

lemma rs_live_upd [simp]:
  "rs_live (s\<lparr>rs_db := (rs_db s)(k := None)\<rparr>) = (rs_live s)(k := None)"
  "rs_live (s\<lparr>rs_faults := fs\<rparr>) = rs_live s"
  "rs_live (s\<lparr>rs_faults := fs, rs_db := (rs_db s)(k := None)\<rparr>) = (rs_live s)(k := None)"
  "rs_live (s\<lparr>rs_faults := fs, rs_db := (rs_db s)(k \<mapsto> (v, None))\<rparr>) = (rs_live s)(k \<mapsto> v)"
  "0 < ttl \<Longrightarrow> rs_live (s\<lparr>rs_faults := fs, rs_db := (rs_db s)(k \<mapsto> (v, Some (rs_now s + ttl)))\<rparr>) =
     (rs_live s)(k \<mapsto> v)"
  by (auto simp: rs_live_def fun_eq_iff split: option.split)

interpretation rs: redis_client rs_client rs_live
  by unfold_locales
    (auto simp: rs_client_def rs_call_def Let_def split: if_splits option.splits)

end
