(* ===== verification/Go_Url.thy ===== *)
theory Go_Url
  imports Go_Rfc3339 "HOL-Library.List_Lexorder" "HOL-Library.Char_ord"
begin

text \<open>
  \<open>net/url\<close> as the handlers use it: query values (\<open>Get\<close>, \<open>Set\<close>, \<open>Encode\<close>), the escaping of
  their text and the parser of a query string. \<open>url.Parse\<close> itself is the field \<open>url_parse\<close> of
  the library record: the URL up to its query, the query's values, and what follows it.
\<close>

type_synonym url_values = "(string \<times> string) list"

definition Get :: "url_values \<Rightarrow> string \<Rightarrow> string" where
  "Get q k = (case map_of q k of Some v \<Rightarrow> v | None \<Rightarrow> [])"

definition Set :: "string \<Rightarrow> string \<Rightarrow> url_values \<Rightarrow> url_values" where
  "Set k v q = filter (\<lambda>(k', _). k' \<noteq> k) q @ [(k, v)]"

lemma Get_Set [simp]: "Get (Set k v q) k' = (if k' = k then v else Get q k')"
  by (auto simp: Get_def Set_def map_of_filter_key map_add_def split: option.splits)

section \<open>Escaping\<close>

definition upperhex :: "nat \<Rightarrow> char" where
  "upperhex n = (if n < 10 then char_of (48 + n) else char_of (55 + n))"

definition unreserved :: "char \<Rightarrow> bool" where
  "unreserved c \<longleftrightarrow>
     (let n = byte_val c
      in (97 \<le> n \<and> n \<le> 122) \<or> (65 \<le> n \<and> n \<le> 90) \<or> (48 \<le> n \<and> n \<le> 57) \<or> n \<in> {45, 95, 46, 126})"

definition escape_byte :: "char \<Rightarrow> string" where
  "escape_byte c =
     (if unreserved c then [c] else if c = CHR '' '' then ''+''
      else [CHR ''%'', upperhex (byte_val c div 16), upperhex (byte_val c mod 16)])"

definition QueryEscape :: "string \<Rightarrow> string" where
  "QueryEscape s = concat (map escape_byte s)"

definition unhex :: "char \<Rightarrow> nat option" where
  "unhex c =
     (let n = byte_val c
      in if 48 \<le> n \<and> n \<le> 57 then Some (n - 48)
         else if 97 \<le> n \<and> n \<le> 102 then Some (n - 87)
         else if 65 \<le> n \<and> n \<le> 70 then Some (n - 55) else None)"

fun QueryUnescape :: "string \<Rightarrow> string option" where
  "QueryUnescape [] = Some []"
| "QueryUnescape (c # cs) =
     (if c = CHR ''%'' then
        (case cs of
           a # b # rest \<Rightarrow>
             (case (unhex a, unhex b) of
                (Some x, Some y) \<Rightarrow> map_option (\<lambda>t. char_of (16 * x + y) # t) (QueryUnescape rest)
              | _ \<Rightarrow> None)
         | _ \<Rightarrow> None)
      else map_option (\<lambda>t. (if c = CHR ''+'' then CHR '' '' else c) # t) (QueryUnescape cs))"

lemma nibble: "byte_val c div 16 < 16"
  using nat_of_char_less_256 [of c] by (simp add: less_mult_imp_div_less)

lemma unhex_upperhex: "n < 16 \<Longrightarrow> unhex (upperhex n) = Some n"
  by (auto simp: unhex_def upperhex_def Let_def)

lemma unescape_escape_byte:
  "QueryUnescape (escape_byte c @ s) = map_option (\<lambda>t. c # t) (QueryUnescape s)"
proof -
  have hex: "unhex (upperhex (byte_val c div 16)) = Some (byte_val c div 16)"
    "unhex (upperhex (byte_val c mod 16)) = Some (byte_val c mod 16)" by (simp_all add: unhex_upperhex nibble)
  have "unreserved c \<Longrightarrow> c \<noteq> CHR ''%'' \<and> c \<noteq> CHR ''+''" by (auto simp: unreserved_def Let_def)
  then show ?thesis by (simp add: escape_byte_def hex)
qed

lemma QueryUnescape_QueryEscape: "QueryUnescape (QueryEscape s @ r) = map_option (\<lambda>t. s @ t) (QueryUnescape r)"
proof (induction s)
  case (Cons c s)
  then show ?case
    by (simp add: QueryEscape_def unescape_escape_byte option.map_comp comp_def)
qed (simp add: QueryEscape_def option.map_ident)

lemma QueryUnescape_Escape [simp]: "QueryUnescape (QueryEscape s) = Some s"
  using QueryUnescape_QueryEscape [of s "[]"] by simp

section \<open>Queries\<close>

text \<open>\<open>Values.Encode\<close>: sorted by key, the values of a key in their order.\<close>

definition encode_pair :: "string \<times> string \<Rightarrow> string" where
  "encode_pair p = QueryEscape (fst p) @ ''='' @ QueryEscape (snd p)"

definition Encode :: "url_values \<Rightarrow> string" where
  "Encode q = Join (map encode_pair (sort_key fst q)) ''&''"

text \<open>\<open>strings.Cut(s, "=")\<close>.\<close>

definition Cut :: "char \<Rightarrow> string \<Rightarrow> string \<times> string" where
  "Cut d s = (takeWhile (\<lambda>c. c \<noteq> d) s, tl (dropWhile (\<lambda>c. c \<noteq> d) s))"

text \<open>
  \<open>url.ParseQuery\<close>, whose errors \<open>URL.Query()\<close> drops: a piece with a semicolon or a bad
  escape is left out.
\<close>

definition parse_pair :: "string \<Rightarrow> (string \<times> string) option" where
  "parse_pair s =
     (if CHR '';'' \<in> set s \<or> s = [] then None
      else case (QueryUnescape (fst (Cut CHR ''='' s)), QueryUnescape (snd (Cut CHR ''='' s))) of
        (Some k, Some v) \<Rightarrow> Some (k, v) | _ \<Rightarrow> None)"

definition ParseQuery :: "string \<Rightarrow> url_values" where
  "ParseQuery s = List.map_filter parse_pair (SplitByte CHR ''&'' s)"

text \<open>The characters of an escaped text: no separator of a query among them.\<close>

definition escaped_char :: "char \<Rightarrow> bool" where
  "escaped_char c \<longleftrightarrow> unreserved c \<or> c = CHR ''%'' \<or> c = CHR ''+''"

lemma escaped_chars: "c \<in> set (QueryEscape s) \<Longrightarrow> escaped_char c"
proof -
  have "unreserved (upperhex n)" if "n < 16" for n
    using that by (auto simp: unreserved_def upperhex_def Let_def)
  then have "escaped_char c" if "c \<in> set (escape_byte x)" for c x
    using that nibble [of x] by (auto simp: escape_byte_def escaped_char_def split: if_splits)
  then show "c \<in> set (QueryEscape s) \<Longrightarrow> escaped_char c" by (auto simp: QueryEscape_def)
qed

lemma escaped_char_separators: "\<not> escaped_char CHR ''&''" "\<not> escaped_char CHR ''=''" "\<not> escaped_char CHR '';''"
  by (simp_all add: escaped_char_def unreserved_def)

lemma parse_encode_pair: "parse_pair (encode_pair p) = Some p"
proof -
  have eq: "CHR ''='' \<notin> set (QueryEscape s)" "CHR '';'' \<notin> set (QueryEscape s)" for s
    using escaped_chars escaped_char_separators by blast+
  have tw: "takeWhile (\<lambda>c. c \<noteq> CHR ''='') (QueryEscape s @ CHR ''='' # r) = QueryEscape s"
    and dw: "dropWhile (\<lambda>c. c \<noteq> CHR ''='') (QueryEscape s @ CHR ''='' # r) = CHR ''='' # r" for s r
    using eq(1) [of s] by (auto simp: takeWhile_append dropWhile_append)
  show ?thesis using eq by (simp add: parse_pair_def encode_pair_def Cut_def tw dw)
qed

lemma ParseQuery_Encode: "ParseQuery (Encode q) = sort_key fst q"
proof (cases "q = []")
  case True
  then show ?thesis by (simp add: ParseQuery_def Encode_def parse_pair_def List.map_filter_def)
next
  case False
  let ?xs = "map encode_pair (sort_key fst q)"
  have "CHR ''&'' \<notin> set (encode_pair p)" for p
    using escaped_chars escaped_char_separators(1) by (auto simp: encode_pair_def)
  then have "SplitByte CHR ''&'' (Join ?xs ''&'') = ?xs" using False
    by (intro SplitByte_Join) (auto simp flip: length_greater_0_conv)
  then show ?thesis by (simp add: ParseQuery_def Encode_def List.map_filter_def parse_encode_pair comp_def)
qed

lemma map_of_sort_key: "map_of (sort_key fst (q :: url_values)) k = map_of q k"
proof -
  have "map_of xs k = (case filter (\<lambda>p. fst p = k) xs of [] \<Rightarrow> None | p # _ \<Rightarrow> Some (snd p))"
    for xs :: url_values
    by (induction xs) auto
  then show ?thesis by (simp add: sort_key_stable)
qed

text \<open>What was set is what the other side reads.\<close>

lemma Get_ParseQuery_Encode: "Get (ParseQuery (Encode q)) k = Get q k"
  by (simp add: ParseQuery_Encode Get_def map_of_sort_key)

end
