(* ===== verification/Broker.thy ===== *)
theory Broker
  imports Config Store_Redis Go_Url
begin

text \<open>
  The OpenID provider of \<open>service/internal/broker\<close>: the authorization, callback and token
  endpoints, the tokens they issue and the helpers they share. The interfaces the broker is
  built on (\<open>Store\<close>, \<open>Provider\<close>, \<open>Binder\<close>, \<open>Minter\<close>), the JOSE signer, the random source
  and the clock are the record \<open>deps\<close>. A request carries its query and form as parsed; a
  response is what the handler writes. Logging is left out.
\<close>

section \<open>Requests and responses\<close>

record Request =
  rq_Query :: url_values
  rq_PostForm :: "url_values res"
  rq_BasicAuth :: "(string \<times> string) option"

text \<open>\<open>Panic\<close>: the handler dereferences a nil pointer.\<close>

datatype Response =
    HttpError nat string
  | Redirect nat string
  | WriteJSON nat json
  | WriteText nat string
  | Panic

definition writeOAuthError :: "nat \<Rightarrow> string \<Rightarrow> string \<Rightarrow> Response" where
  "writeOAuthError status code desc =
     WriteJSON status (JObj [(''error'', jstr code), (''error_description'', jstr desc)])"

section \<open>Dependencies\<close>

record 'w deps =
  d_store :: "'w Store"
  d_AuthURL :: "string \<Rightarrow> string \<Rightarrow> string"
  d_Authenticate :: "string \<Rightarrow> string \<Rightarrow> 'w \<Rightarrow> Identity res \<times> 'w"
  d_Upsert :: "Identity \<Rightarrow> 'w \<Rightarrow> string res \<times> 'w"
  d_WaitBinded :: "string \<Rightarrow> 'w \<Rightarrow> goerror option \<times> 'w"
  d_Mint :: "string \<Rightarrow> 'w \<Rightarrow> Token res \<times> 'w"
  d_Sign :: "json \<Rightarrow> string res"
  d_Read :: "'w \<Rightarrow> byte list \<times> 'w"
  d_now :: "'w \<Rightarrow> time"

section \<open>Helpers\<close>

definition authRequestTTL :: duration where "authRequestTTL = 10 * Minute"
definition codeTTL :: duration where "codeTTL = 2 * Minute"

text \<open>\<open>d_Read\<close> fills the 32 bytes that \<open>rand.Read\<close> returns.\<close>

definition randToken :: "('w, 'a) deps_scheme \<Rightarrow> 'w \<Rightarrow> string \<times> 'w" where
  "randToken D w = (case d_Read D w of (b, w') \<Rightarrow> (RawURLEncode b, w'))"

definition verifyPKCE :: "'l golib_scheme \<Rightarrow> string \<Rightarrow> string \<Rightarrow> bool" where
  "verifyPKCE L verifier challenge \<longleftrightarrow>
     ConstantTimeCompare (bytes_of (RawURLEncode (sha256 L (bytes_of verifier)))) (bytes_of challenge) = 1"

definition constantEq :: "string \<Rightarrow> string \<Rightarrow> bool" where
  "constantEq a b \<longleftrightarrow> ConstantTimeCompare (bytes_of a) (bytes_of b) = 1"

definition gids :: "Membership list \<Rightarrow> string list" where
  "gids ms = map m_Gid ms"

definition toGroupRefs :: "Membership list \<Rightarrow> GroupRef list" where
  "toGroupRefs ms = map (\<lambda>m. \<lparr>gr_Gid = m_Gid m, gr_Name = m_Name m, gr_Domain = m_Domain m\<rparr>) ms"

definition fromGroupRefs :: "GroupRef list \<Rightarrow> Membership list" where
  "fromGroupRefs gs = map (\<lambda>g. \<lparr>m_Gid = gr_Gid g, m_Name = gr_Name g, m_Domain = gr_Domain g\<rparr>) gs"

definition scopeHas :: "string \<Rightarrow> string \<Rightarrow> bool" where
  "scopeHas scope want \<longleftrightarrow> list_ex (\<lambda>s. s = want) (Fields scope)"

definition url_string :: "string \<Rightarrow> url_values \<Rightarrow> string \<Rightarrow> string" where
  "url_string base q frag = base @ (if Encode q = [] then [] else CHR ''?'' # Encode q) @ frag"

definition redirectError :: "'l golib_scheme \<Rightarrow> string \<Rightarrow> string \<Rightarrow> string \<Rightarrow> string \<Rightarrow> Response" where
  "redirectError L redirectURI state code desc =
     (case url_parse L redirectURI of
        None \<Rightarrow> HttpError 400 (code @ '': '' @ desc)
      | Some (base, q, frag) \<Rightarrow>
        let q1 = Set ''error'' code q;
            q2 = (if desc \<noteq> [] then Set ''error_description'' desc q1 else q1);
            q3 = (if state \<noteq> [] then Set ''state'' state q2 else q2)
        in Redirect 302 (url_string base q3 frag))"

section \<open>Metadata\<close>

definition jarr :: "string list \<Rightarrow> json" where
  "jarr xs = JArr (map jstr xs)"

definition Discovery :: "Config \<Rightarrow> Response" where
  "Discovery cfg =
     (let iss = TrimRight (cfg_Issuer cfg) ''/''
      in WriteJSON 200 (JObj
        [(''authorization_endpoint'', jstr (iss @ ''/authorize'')),
         (''claims_supported'', jarr [''sub'', ''email'', ''email_verified'', ''name'', ''groups'']),
         (''code_challenge_methods_supported'', jarr [''S256'']),
         (''grant_types_supported'', jarr [''authorization_code'', ''refresh_token'']),
         (''id_token_signing_alg_values_supported'', jarr [''RS256'']),
         (''issuer'', jstr iss),
         (''jwks_uri'', jstr (iss @ ''/jwks'')),
         (''response_types_supported'', jarr [''code'']),
         (''scopes_supported'', jarr [''openid'', ''email'', ''profile'', ''groups'', ''offline_access'']),
         (''subject_types_supported'', jarr [''public'']),
         (''token_endpoint'', jstr (iss @ ''/token'')),
         (''token_endpoint_auth_methods_supported'',
            jarr [''none'', ''client_secret_post'', ''client_secret_basic''])]))"

definition Healthz :: Response where
  "Healthz = WriteText 200 ''ok''"

section \<open>The id_token\<close>

record idClaims =
  ic_Iss :: string
  ic_Sub :: string
  ic_Aud :: string
  ic_Exp :: int
  ic_Iat :: int
  ic_Nonce :: string
  ic_Email :: string
  ic_EmailVerified :: bool
  ic_Name :: string
  ic_Groups :: "string list"

definition omitempty :: "string \<Rightarrow> string \<Rightarrow> (string \<times> json) list" where
  "omitempty k v = (if v = [] then [] else [(k, jstr v)])"

definition marshalIdClaims :: "idClaims \<Rightarrow> json" where
  "marshalIdClaims c =
     JObj ([(''iss'', jstr (ic_Iss c)), (''sub'', jstr (ic_Sub c)), (''aud'', jstr (ic_Aud c)),
            (''exp'', JInt (ic_Exp c)), (''iat'', JInt (ic_Iat c))] @
           omitempty ''nonce'' (ic_Nonce c) @ omitempty ''email'' (ic_Email c) @
           [(''email_verified'', JBool (ic_EmailVerified c))] @ omitempty ''name'' (ic_Name c) @
           (if ic_Groups c = [] then [] else [(''groups'', jarr (ic_Groups c))]))"

definition signIDToken ::
  "('w, 'a) deps_scheme \<Rightarrow> string \<Rightarrow> idClaims \<Rightarrow> duration \<Rightarrow> 'w \<Rightarrow> string res" where
  "signIDToken D issuer c ttl w =
     (let now = d_now D w
      in d_Sign D (marshalIdClaims (c\<lparr>ic_Iss := issuer, ic_Iat := Unix now, ic_Exp := Unix (now + ttl)\<rparr>)))"

section \<open>Issuing tokens\<close>

record issued =
  is_access :: string
  is_id :: string
  is_refresh :: string
  is_expiresIn :: int

definition idClaims_of :: "Identity \<Rightarrow> string \<Rightarrow> string \<Rightarrow> idClaims" where
  "idClaims_of ident clientID nonce =
     \<lparr>ic_Iss = [], ic_Sub = (if id_Subject ident = [] then id_Email ident else id_Subject ident),
      ic_Aud = clientID, ic_Exp = 0, ic_Iat = 0, ic_Nonce = nonce, ic_Email = id_Email ident,
      ic_EmailVerified = id_EmailVerified ident, ic_Name = id_Name ident, ic_Groups = gids (id_Groups ident)\<rparr>"

definition refreshGrant_of :: "Identity \<Rightarrow> string \<Rightarrow> RefreshGrant" where
  "refreshGrant_of ident clientID =
     \<lparr>rg_ClientID = clientID, rg_Email = id_Email ident, rg_Subject = id_Subject ident,
      rg_Name = id_Name ident, rg_EmailVerified = id_EmailVerified ident, rg_Domain = id_Domain ident,
      rg_Groups = toGroupRefs (id_Groups ident)\<rparr>"

definition issueTokens ::
  "('w, 'a) deps_scheme \<Rightarrow> Config \<Rightarrow> Identity \<Rightarrow> string \<Rightarrow> string \<Rightarrow> 'w \<Rightarrow> issued res \<times> 'w" where
  "issueTokens D cfg ident clientID nonce w =
     (case d_Upsert D ident w of
        (Inl e, w1) \<Rightarrow> (Inl (Wrap ''upsert bind'' e), w1)
      | (Inr name, w1) \<Rightarrow>
        (case d_WaitBinded D name w1 of
           (Some e, w2) \<Rightarrow> (Inl (Wrap ''wait binded'' e), w2)
         | (None, w2) \<Rightarrow>
           (case d_Mint D name w2 of
              (Inl e, w3) \<Rightarrow> (Inl (Wrap ''mint token'' e), w3)
            | (Inr tok, w3) \<Rightarrow>
              (case signIDToken D (TrimRight (cfg_Issuer cfg) ''/'') (idClaims_of ident clientID nonce)
                      (cfg_TokenLifetime cfg) w3 of
                 Inl e \<Rightarrow> (Inl (Wrap ''sign id_token'' e), w3)
               | Inr idToken \<Rightarrow>
                 (case randToken D w3 of (refresh, w4) \<Rightarrow>
                  (case s_SaveRefresh (d_store D) refresh (refreshGrant_of ident clientID)
                          (cfg_RefreshTokenLifetime cfg) w4 of
                     (Some e, w5) \<Rightarrow> (Inl (Wrap ''save refresh'' e), w5)
                   | (None, w5) \<Rightarrow>
                     (Inr \<lparr>is_access = tok_AccessToken tok, is_id = idToken, is_refresh = refresh,
                           is_expiresIn = tok_ExpiresIn tok\<rparr>, w5)))))))"

section \<open>The authorization endpoint\<close>

definition Authorize ::
  "('w, 'a) deps_scheme \<Rightarrow> 'l golib_scheme \<Rightarrow> Config \<Rightarrow> Request \<Rightarrow> 'w \<Rightarrow> Response \<times> 'w" where
  "Authorize D L cfg r w =
     (let q = rq_Query r; clientID = Get q ''client_id''; redirectURI = Get q ''redirect_uri''
      in if clientID \<noteq> cfg_ClientID cfg \<or> \<not> RedirectAllowed cfg redirectURI then
           (HttpError 400 ''invalid client_id or redirect_uri'', w)
         else
      let state = Get q ''state''
      in if Get q ''response_type'' \<noteq> ''code'' then
           (redirectError L redirectURI state ''unsupported_response_type'' ''only code is supported'', w)
         else if \<not> scopeHas (Get q ''scope'') ''openid'' then
           (redirectError L redirectURI state ''invalid_scope'' ''openid scope required'', w)
         else
      let challenge = Get q ''code_challenge''
      in if challenge = [] \<or> Get q ''code_challenge_method'' \<noteq> ''S256'' then
           (redirectError L redirectURI state ''invalid_request'' ''PKCE S256 required'', w)
         else
           (case randToken D w of (brokerState, w1) \<Rightarrow>
            (case randToken D w1 of (idpNonce, w2) \<Rightarrow>
             (case s_SaveAuthRequest (d_store D) brokerState
                     \<lparr>ar_ClientID = clientID, ar_RedirectURI = redirectURI, ar_State = state,
                      ar_Nonce = Get q ''nonce'', ar_CodeChallenge = challenge,
                      ar_CodeChallengeMethod = ''S256'', ar_Scope = Get q ''scope'', ar_IdPNonce = idpNonce\<rparr>
                     authRequestTTL w2 of
                (Some e, w3) \<Rightarrow>
                  (redirectError L redirectURI state ''server_error'' ''could not start login'', w3)
              | (None, w3) \<Rightarrow> (Redirect 302 (d_AuthURL D brokerState idpNonce), w3)))))"

section \<open>The callback\<close>

definition codeGrant_of :: "AuthRequest \<Rightarrow> Identity \<Rightarrow> issued \<Rightarrow> CodeGrant" where
  "codeGrant_of ar ident tokens =
     \<lparr>cg_ClientID = ar_ClientID ar, cg_RedirectURI = ar_RedirectURI ar,
      cg_CodeChallenge = ar_CodeChallenge ar, cg_Nonce = ar_Nonce ar, cg_Subject = id_Email ident,
      cg_AccessToken = is_access tokens, cg_IDToken = is_id tokens, cg_RefreshToken = is_refresh tokens,
      cg_ExpiresIn = is_expiresIn tokens\<rparr>"

text \<open>The redirect with the code; the error of \<open>url.Parse\<close> is dropped and its nil URL used.\<close>

definition redirectCode :: "'l golib_scheme \<Rightarrow> AuthRequest \<Rightarrow> string \<Rightarrow> Response" where
  "redirectCode L ar code =
     (case url_parse L (ar_RedirectURI ar) of
        None \<Rightarrow> Panic
      | Some (base, q, frag) \<Rightarrow>
        let q1 = Set ''code'' code q;
            q2 = (if ar_State ar \<noteq> [] then Set ''state'' (ar_State ar) q1 else q1)
        in Redirect 302 (url_string base q2 frag))"

definition issueCode ::
  "('w, 'a) deps_scheme \<Rightarrow> 'l golib_scheme \<Rightarrow> Config \<Rightarrow> AuthRequest \<Rightarrow> Identity \<Rightarrow> 'w \<Rightarrow> Response \<times> 'w" where
  "issueCode D L cfg ar ident w =
     (case issueTokens D cfg ident (ar_ClientID ar) (ar_Nonce ar) w of
        (Inl e, w1) \<Rightarrow>
          (redirectError L (ar_RedirectURI ar) (ar_State ar) ''server_error'' ''could not issue tokens'', w1)
      | (Inr tokens, w1) \<Rightarrow>
        (case randToken D w1 of (code, w2) \<Rightarrow>
         (case s_SaveCode (d_store D) code (codeGrant_of ar ident tokens) codeTTL w2 of
            (Some e, w3) \<Rightarrow>
              (redirectError L (ar_RedirectURI ar) (ar_State ar) ''server_error'' ''could not issue code'', w3)
          | (None, w3) \<Rightarrow> (redirectCode L ar code, w3))))"

definition Callback ::
  "('w, 'a) deps_scheme \<Rightarrow> 'l golib_scheme \<Rightarrow> Config \<Rightarrow> Request \<Rightarrow> 'w \<Rightarrow> Response \<times> 'w" where
  "Callback D L cfg r w =
     (let q = rq_Query r
      in case s_TakeAuthRequest (d_store D) (Get q ''state'') w of
           (Inl e, w1) \<Rightarrow> (HttpError 400 ''unknown or expired login state'', w1)
         | (Inr ar, w1) \<Rightarrow>
           if Get q ''error'' \<noteq> [] then
             (redirectError L (ar_RedirectURI ar) (ar_State ar) (Get q ''error'') (Get q ''error_description''), w1)
           else (case d_Authenticate D (Get q ''code'') (ar_IdPNonce ar) w1 of
             (Inl e, w2) \<Rightarrow>
               (redirectError L (ar_RedirectURI ar) (ar_State ar) ''access_denied'' ''authentication failed'', w2)
           | (Inr ident, w2) \<Rightarrow>
             if \<not> id_EmailVerified ident \<or> \<not> AllowedDomain L cfg (id_Domain ident) then
               (redirectError L (ar_RedirectURI ar) (ar_State ar) ''access_denied'' ''domain or email not allowed'', w2)
             else issueCode D L cfg ar ident w2))"

section \<open>The token endpoint\<close>

definition form_of :: "Request \<Rightarrow> url_values" where
  "form_of r = (case rq_PostForm r of Inl _ \<Rightarrow> [] | Inr f \<Rightarrow> f)"

definition clientIDOf :: "Request \<Rightarrow> string" where
  "clientIDOf r =
     (if Get (form_of r) ''client_id'' \<noteq> [] then Get (form_of r) ''client_id''
      else (case rq_BasicAuth r of Some (u, _) \<Rightarrow> u | None \<Rightarrow> []))"

definition validClientSecret :: "Config \<Rightarrow> Request \<Rightarrow> bool" where
  "validClientSecret cfg r =
     (let secret = Get (form_of r) ''client_secret'';
          secret' = (if secret = [] then (case rq_BasicAuth r of Some (_, pw) \<Rightarrow> pw | None \<Rightarrow> secret) else secret)
      in constantEq secret' (cfg_ClientSecret cfg))"

definition writeTokenResponse :: "string \<Rightarrow> string \<Rightarrow> string \<Rightarrow> int \<Rightarrow> Response" where
  "writeTokenResponse access ident refresh expiresIn =
     WriteJSON 200 (JObj
       ([(''access_token'', jstr access), (''expires_in'', JInt expiresIn), (''id_token'', jstr ident)] @
        (if refresh \<noteq> [] then [(''refresh_token'', jstr refresh)] else []) @
        [(''scope'', jstr ''openid''), (''token_type'', jstr ''Bearer'')]))"

definition handleAuthCode ::
  "('w, 'a) deps_scheme \<Rightarrow> 'l golib_scheme \<Rightarrow> Config \<Rightarrow> Request \<Rightarrow> 'w \<Rightarrow> Response \<times> 'w" where
  "handleAuthCode D L cfg r w =
     (case s_TakeCode (d_store D) (Get (form_of r) ''code'') w of
        (Inl e, w1) \<Rightarrow> (writeOAuthError 400 ''invalid_grant'' ''unknown or used code'', w1)
      | (Inr grant, w1) \<Rightarrow>
        (if clientIDOf r \<noteq> cg_ClientID grant \<or> Get (form_of r) ''redirect_uri'' \<noteq> cg_RedirectURI grant then
           writeOAuthError 400 ''invalid_grant'' ''client or redirect mismatch''
         else if cfg_ClientSecret cfg \<noteq> [] \<and> \<not> validClientSecret cfg r then
           writeOAuthError 401 ''invalid_client'' ''bad client credentials''
         else if \<not> verifyPKCE L (Get (form_of r) ''code_verifier'') (cg_CodeChallenge grant) then
           writeOAuthError 400 ''invalid_grant'' ''PKCE verification failed''
         else writeTokenResponse (cg_AccessToken grant) (cg_IDToken grant) (cg_RefreshToken grant)
                (cg_ExpiresIn grant), w1))"

definition identity_of :: "RefreshGrant \<Rightarrow> Identity" where
  "identity_of rg =
     \<lparr>id_Subject = rg_Subject rg, id_Email = rg_Email rg, id_EmailVerified = rg_EmailVerified rg,
      id_Domain = rg_Domain rg, id_Name = rg_Name rg, id_Groups = fromGroupRefs (rg_Groups rg)\<rparr>"

definition handleRefresh ::
  "('w, 'a) deps_scheme \<Rightarrow> Config \<Rightarrow> Request \<Rightarrow> 'w \<Rightarrow> Response \<times> 'w" where
  "handleRefresh D cfg r w =
     (case s_TakeRefresh (d_store D) (Get (form_of r) ''refresh_token'') w of
        (Inl e, w1) \<Rightarrow> (writeOAuthError 400 ''invalid_grant'' ''unknown or used refresh token'', w1)
      | (Inr rg, w1) \<Rightarrow>
        if clientIDOf r \<noteq> rg_ClientID rg then
          (writeOAuthError 400 ''invalid_grant'' ''client mismatch'', w1)
        else if cfg_ClientSecret cfg \<noteq> [] \<and> \<not> validClientSecret cfg r then
          (writeOAuthError 401 ''invalid_client'' ''bad client credentials'', w1)
        else (case issueTokens D cfg (identity_of rg) (rg_ClientID rg) [] w1 of
          (Inl e, w2) \<Rightarrow> (writeOAuthError 500 ''server_error'' ''could not refresh'', w2)
        | (Inr tokens, w2) \<Rightarrow>
          (writeTokenResponse (is_access tokens) (is_id tokens) (is_refresh tokens) (is_expiresIn tokens), w2)))"

definition Token_handler ::
  "('w, 'a) deps_scheme \<Rightarrow> 'l golib_scheme \<Rightarrow> Config \<Rightarrow> Request \<Rightarrow> 'w \<Rightarrow> Response \<times> 'w" where
  "Token_handler D L cfg r w =
     (case rq_PostForm r of
        Inl e \<Rightarrow> (writeOAuthError 400 ''invalid_request'' ''bad form'', w)
      | Inr f \<Rightarrow>
        if Get f ''grant_type'' = ''authorization_code'' then handleAuthCode D L cfg r w
        else if Get f ''grant_type'' = ''refresh_token'' then handleRefresh D cfg r w
        else (writeOAuthError 400 ''unsupported_grant_type'' [], w))"

end
