(* ===== verification/Signer.thy ===== *)
theory Signer
  imports Broker
begin

text \<open>
  The id_token signer of the broker (\<open>broker/signer.go\<close>) and the construction of the broker
  (\<open>broker.New\<close>). RSA, PEM, X.509 and JOSE are the record \<open>joselib\<close>; a private key is an
  opaque value \<open>'k\<close>.
\<close>

text \<open>
  \<open>jl_MarshalJWK\<close> is the JSON form of a public key; \<open>jl_PKCS8\<close> gives the parsed key, and \<open>None\<close> when it is a key of another kind;
  \<open>jl_Sign\<close> is signing with RS256 under a key id and serializing compactly.
\<close>

record JSONWebKey =
  jwk_Key :: string
  jwk_KeyID :: string
  jwk_Algorithm :: string
  jwk_Use :: string

record ('k, 'w) joselib =
  jl_GenerateKey :: "'w \<Rightarrow> 'k res \<times> 'w"
  jl_PemDecode :: "string \<Rightarrow> string option"
  jl_PKCS1 :: "string \<Rightarrow> 'k res"
  jl_PKCS8 :: "string \<Rightarrow> 'k option res"
  jl_Public :: "'k \<Rightarrow> string"
  jl_Thumbprint :: "string \<Rightarrow> byte list res"
  jl_NewSigner :: "'k \<Rightarrow> string \<Rightarrow> goerror option"
  jl_Sign :: "'k \<Rightarrow> string \<Rightarrow> json \<Rightarrow> string res"
  jl_MarshalJWK :: "JSONWebKey \<Rightarrow> json"

record 'k signer =
  sg_issuer :: string
  sg_pub :: JSONWebKey
  sg_key :: 'k
  sg_kid :: string

definition parseRSAPrivateKey :: "('k, 'w, 'a) joselib_scheme \<Rightarrow> string \<Rightarrow> 'k res" where
  "parseRSAPrivateKey J b =
     (case jl_PemDecode J b of
        None \<Rightarrow> Inl (Errorf ''ID_TOKEN_SIGNING_KEY is not valid PEM'')
      | Some block \<Rightarrow>
        (case jl_PKCS1 J block of
           Inr k \<Rightarrow> Inr k
         | Inl _ \<Rightarrow>
           (case jl_PKCS8 J block of
              Inl e \<Rightarrow> Inl (Wrap ''parse signing key'' e)
            | Inr None \<Rightarrow> Inl (Errorf ''ID_TOKEN_SIGNING_KEY must be an RSA private key'')
            | Inr (Some k) \<Rightarrow> Inr k)))"

definition newSigner ::
  "('k, 'w, 'a) joselib_scheme \<Rightarrow> string \<Rightarrow> string \<Rightarrow> 'w \<Rightarrow> ('k signer \<times> bool) res \<times> 'w" where
  "newSigner J issuer pemKey w =
     (let generated = (pemKey = []);
          (kr, w1) = (if generated then jl_GenerateKey J w else (parseRSAPrivateKey J pemKey, w))
      in case kr of
           Inl e \<Rightarrow> (Inl e, w1)
         | Inr priv \<Rightarrow>
           (case jl_Thumbprint J (jl_Public J priv) of
              Inl e \<Rightarrow> (Inl e, w1)
            | Inr tp \<Rightarrow>
              let kid = RawURLEncode tp;
                  pub = \<lparr>jwk_Key = jl_Public J priv, jwk_KeyID = kid, jwk_Algorithm = ''RS256'', jwk_Use = ''sig''\<rparr>
              in (case jl_NewSigner J priv kid of
                    Some e \<Rightarrow> (Inl e, w1)
                  | None \<Rightarrow> (Inr (\<lparr>sg_issuer = issuer, sg_pub = pub, sg_key = priv, sg_kid = kid\<rparr>, generated), w1))))"

definition jwks :: "'k signer \<Rightarrow> JSONWebKey list" where
  "jwks s = [sg_pub s]"

definition JWKS :: "('k, 'w, 'a) joselib_scheme \<Rightarrow> 'k signer \<Rightarrow> Response" where
  "JWKS J s = WriteJSON 200 (JObj [(''keys'', JArr (map (jl_MarshalJWK J) (jwks s)))])"

text \<open>\<open>broker.New\<close>: the interfaces it is given, with the signer it builds.\<close>

definition broker_New ::
  "('k, 'w, 'a) joselib_scheme \<Rightarrow> Config \<Rightarrow> 'w deps \<Rightarrow> 'w \<Rightarrow> ('w deps \<times> 'k signer) res \<times> 'w" where
  "broker_New J cfg D w =
     (case newSigner J (TrimRight (cfg_Issuer cfg) ''/'') (cfg_IDTokenSigningKey cfg) w of
        (Inl e, w') \<Rightarrow> (Inl (Wrap ''id_token signer'' e), w')
      | (Inr (sg, _), w') \<Rightarrow> (Inr (D\<lparr>d_Sign := jl_Sign J (sg_key sg) (sg_kid sg)\<rparr>, sg), w'))"

section \<open>The published key\<close>

lemma newSigner_ok:
  assumes "newSigner J issuer pem w = (Inr (s, g), w')"
  shows "sg_issuer s = issuer" and "g \<longleftrightarrow> pem = []"
    and "sg_pub s = \<lparr>jwk_Key = jl_Public J (sg_key s), jwk_KeyID = sg_kid s, jwk_Algorithm = ''RS256'', jwk_Use = ''sig''\<rparr>"
    and "\<exists>tp. jl_Thumbprint J (jl_Public J (sg_key s)) = Inr tp \<and> sg_kid s = RawURLEncode tp"
    and "pem \<noteq> [] \<Longrightarrow> parseRSAPrivateKey J pem = Inr (sg_key s) \<and> w' = w"
  using assms by (auto simp: newSigner_def Let_def split: prod.splits sum.splits option.splits if_splits)

end
