(* ===== verification/Broker_Correct.thy ===== *)
theory Broker_Correct
  imports Broker
begin

text \<open>
  The facts behind the properties of the broker: what the comparisons decide, what an
  exchange consumes, what a redirect carries, and what issuing tokens records.
\<close>

section \<open>Secrets\<close>

lemma constantEq_iff [simp]: "constantEq a b \<longleftrightarrow> a = b"
  unfolding constantEq_def ConstantTimeCompare_eq by (rule bytes_of_inj)

lemma verifyPKCE_iff: "verifyPKCE L v c \<longleftrightarrow> RawURLEncode (sha256 L (bytes_of v)) = c"
  unfolding verifyPKCE_def ConstantTimeCompare_eq by (rule bytes_of_inj)

lemma randToken_shape:
  assumes "randToken D w = (t, w')" and "length (fst (d_Read D w)) = 32"
  shows "length t = 43" and "c \<in> set t \<Longrightarrow> url_safe c"
  using assms RawURLEncode_url_safe by (auto simp: randToken_def length_RawURLEncode split: prod.splits)

text \<open>The secret a client presents, in the form or by basic authentication.\<close>

definition presentedSecret :: "Request \<Rightarrow> string" where
  "presentedSecret r =
     (if Get (form_of r) ''client_secret'' \<noteq> [] then Get (form_of r) ''client_secret''
      else (case rq_BasicAuth r of Some (_, pw) \<Rightarrow> pw | None \<Rightarrow> []))"

lemma validClientSecret_iff: "validClientSecret cfg r \<longleftrightarrow> presentedSecret r = cfg_ClientSecret cfg"
  by (auto simp: validClientSecret_def presentedSecret_def Let_def split: option.splits)

section \<open>Groups\<close>

lemma fromGroupRefs_toGroupRefs [simp]: "fromGroupRefs (toGroupRefs ms) = ms"
  by (induction ms) (simp_all add: fromGroupRefs_def toGroupRefs_def)

lemma toGroupRefs_fromGroupRefs [simp]: "toGroupRefs (fromGroupRefs gs) = gs"
  by (induction gs) (simp_all add: fromGroupRefs_def toGroupRefs_def)

lemma identity_of_refreshGrant_of [simp]: "identity_of (refreshGrant_of ident c) = ident"
  by (cases ident) (simp add: identity_of_def refreshGrant_of_def)

lemma refreshGrant_of_identity_of [simp]: "refreshGrant_of (identity_of rg) (rg_ClientID rg) = rg"
  by (cases rg) (simp add: identity_of_def refreshGrant_of_def)

section \<open>Redirects\<close>

lemma Encode_Set_not_Nil [simp]: "Encode (Set k v q) \<noteq> []"
proof
  assume "Encode (Set k v q) = []"
  then have "ParseQuery (Encode (Set k v q)) = []"
    by (simp add: ParseQuery_def List.map_filter_def parse_pair_def)
  then have "length (Set k v q) = 0" by (simp add: ParseQuery_Encode flip: length_0_conv)
  then show False by (simp add: Set_def)
qed

text \<open>\<open>carries u base q frag\<close>: the URL is the base with a query that reads as \<open>q\<close>.\<close>

definition carries :: "string \<Rightarrow> string \<Rightarrow> url_values \<Rightarrow> string \<Rightarrow> bool" where
  "carries u base q frag \<longleftrightarrow>
     (\<exists>s. u = base @ CHR ''?'' # s @ frag \<and> (\<forall>k. Get (ParseQuery s) k = Get q k))"

lemma url_string_carries: "Encode q \<noteq> [] \<Longrightarrow> carries (url_string base q frag) base q frag"
  unfolding carries_def url_string_def using Get_ParseQuery_Encode [of q] by auto

lemma redirectCode_carries:
  assumes "redirectCode L ar code = Redirect st u"
  obtains base q frag q' where "url_parse L (ar_RedirectURI ar) = Some (base, q, frag)" and "st = 302"
    and "carries u base q' frag" and "Get q' ''code'' = code"
    and "ar_State ar \<noteq> [] \<Longrightarrow> Get q' ''state'' = ar_State ar"
proof -
  obtain base q frag where p: "url_parse L (ar_RedirectURI ar) = Some (base, q, frag)"
    using assms by (cases "url_parse L (ar_RedirectURI ar)") (auto simp: redirectCode_def)
  let ?q = "if ar_State ar \<noteq> [] then Set ''state'' (ar_State ar) (Set ''code'' code q) else Set ''code'' code q"
  have "u = url_string base ?q frag" "st = 302" using assms p by (auto simp: redirectCode_def Let_def)
  then show thesis using that [OF p, of ?q] url_string_carries [of ?q base frag] by auto
qed

lemma redirectError_carries:
  assumes "redirectError L uri state code desc = Redirect st u"
  obtains base q frag q' where "url_parse L uri = Some (base, q, frag)" and "st = 302"
    and "carries u base q' frag" and "Get q' ''error'' = code"
proof -
  obtain base q frag where p: "url_parse L uri = Some (base, q, frag)"
    using assms by (cases "url_parse L uri") (auto simp: redirectError_def)
  let ?q1 = "Set ''error'' code q"
  let ?q2 = "if desc \<noteq> [] then Set ''error_description'' desc ?q1 else ?q1"
  let ?q = "if state \<noteq> [] then Set ''state'' state ?q2 else ?q2"
  have "u = url_string base ?q frag" "st = 302" using assms p by (auto simp: redirectError_def Let_def)
  then show thesis using that [OF p, of ?q] url_string_carries [of ?q base frag] by auto
qed

lemma redirectError_kinds:
  "(\<exists>u. redirectError L uri state code desc = Redirect 302 u) \<or>
   redirectError L uri state code desc = HttpError 400 (code @ '': '' @ desc)"
  by (auto simp: redirectError_def Let_def split: option.splits)

section \<open>The exchange of a code\<close>

lemma writeTokenResponse_ok: "\<exists>b. writeTokenResponse a i r e = WriteJSON 200 b"
  by (simp add: writeTokenResponse_def)

lemma handleAuthCode_granted:
  "handleAuthCode D L cfg r w = (WriteJSON 200 body, w') \<longleftrightarrow>
   (\<exists>g. s_TakeCode (d_store D) (Get (form_of r) ''code'') w = (Inr g, w') \<and>
      clientIDOf r = cg_ClientID g \<and> Get (form_of r) ''redirect_uri'' = cg_RedirectURI g \<and>
      (cfg_ClientSecret cfg = [] \<or> presentedSecret r = cfg_ClientSecret cfg) \<and>
      RawURLEncode (sha256 L (bytes_of (Get (form_of r) ''code_verifier''))) = cg_CodeChallenge g \<and>
      WriteJSON 200 body = writeTokenResponse (cg_AccessToken g) (cg_IDToken g) (cg_RefreshToken g) (cg_ExpiresIn g))"
proof -
  obtain x w1 where t: "s_TakeCode (d_store D) (Get (form_of r) ''code'') w = (x, w1)" by fastforce
  show ?thesis
    by (cases x)
      (auto simp: handleAuthCode_def t writeOAuthError_def validClientSecret_iff verifyPKCE_iff split: if_splits)
qed

text \<open>Whatever the request says, an exchange of a code that is there uses it up.\<close>

lemma handleAuthCode_takes:
  "\<exists>x. s_TakeCode (d_store D) (Get (form_of r) ''code'') w = (x, snd (handleAuthCode D L cfg r w))"
  by (auto simp: handleAuthCode_def split: prod.splits sum.splits)

lemma handleAuthCode_unknown:
  "s_TakeCode (d_store D) (Get (form_of r) ''code'') w = (Inl e, w') \<Longrightarrow>
   handleAuthCode D L cfg r w = (writeOAuthError 400 ''invalid_grant'' ''unknown or used code'', w')"
  by (simp add: handleAuthCode_def)

context one_shot
begin

lemma dead_stays:
  assumes "shots save take live w tr w'" and "live w k = None" and "\<And>v. Saved k v \<notin> set tr"
  shows "live w' k = None"
  using live_origin [OF assms(1), of k] assms(2,3) by (cases "live w' k") auto

lemma take_dead: "live w k = None \<Longrightarrow> take k w = (x, w') \<Longrightarrow> \<exists>e. x = Inl e"
  using take_ok [of k w _ w'] by (cases x) auto

end

section \<open>Issuing tokens\<close>

lemma issueTokens_ok:
  assumes "issueTokens D cfg ident clientID nonce w = (Inr t, w')"
  obtains name w1 w2 tok w3 w4 where
    "d_Upsert D ident w = (Inr name, w1)" and "d_WaitBinded D name w1 = (None, w2)"
    and "d_Mint D name w2 = (Inr tok, w3)"
    and "signIDToken D (TrimRight (cfg_Issuer cfg) ''/'') (idClaims_of ident clientID nonce)
           (cfg_TokenLifetime cfg) w3 = Inr (is_id t)"
    and "randToken D w3 = (is_refresh t, w4)"
    and "s_SaveRefresh (d_store D) (is_refresh t) (refreshGrant_of ident clientID)
           (cfg_RefreshTokenLifetime cfg) w4 = (None, w')"
    and "is_access t = tok_AccessToken tok" and "is_expiresIn t = tok_ExpiresIn tok"
  using assms unfolding issueTokens_def by (auto split: prod.splits sum.splits option.splits)

text \<open>A refresh that succeeds went through every step.\<close>

lemma handleRefresh_ok:
  assumes "handleRefresh D cfg r w = (WriteJSON 200 body, w')"
  shows "\<exists>rg w1 t w4. s_TakeRefresh (d_store D) (Get (form_of r) ''refresh_token'') w = (Inr rg, w1) \<and>
    clientIDOf r = rg_ClientID rg \<and>
    (cfg_ClientSecret cfg = [] \<or> presentedSecret r = cfg_ClientSecret cfg) \<and>
    issueTokens D cfg (identity_of rg) (rg_ClientID rg) [] w1 = (Inr t, w') \<and>
    s_SaveRefresh (d_store D) (is_refresh t) rg (cfg_RefreshTokenLifetime cfg) w4 = (None, w') \<and>
    WriteJSON 200 body = writeTokenResponse (is_access t) (is_id t) (is_refresh t) (is_expiresIn t)"
proof -
  obtain x w1 where t: "s_TakeRefresh (d_store D) (Get (form_of r) ''refresh_token'') w = (x, w1)" by fastforce
  with assms obtain rg where x: "x = Inr rg" by (cases x) (auto simp: handleRefresh_def writeOAuthError_def)
  obtain y w2 where i: "issueTokens D cfg (identity_of rg) (rg_ClientID rg) [] w1 = (y, w2)" by fastforce
  with assms t x obtain tk where y: "y = Inr tk" "w2 = w'"
    and c: "clientIDOf r = rg_ClientID rg" "cfg_ClientSecret cfg = [] \<or> presentedSecret r = cfg_ClientSecret cfg"
    and b: "WriteJSON 200 body = writeTokenResponse (is_access tk) (is_id tk) (is_refresh tk) (is_expiresIn tk)"
    by (cases y) (auto simp: handleRefresh_def writeOAuthError_def validClientSecret_iff split: if_splits)
  from i y have i': "issueTokens D cfg (identity_of rg) (rg_ClientID rg) [] w1 = (Inr tk, w')" by simp
  then obtain w4 where "s_SaveRefresh (d_store D) (is_refresh tk) rg (cfg_RefreshTokenLifetime cfg) w4 = (None, w')"
    by (rule issueTokens_ok) simp
  with t x c i' b show ?thesis by blast
qed

lemma Unix_add: "Unix (t + n * Second) = Unix t + n"
  by (simp add: Unix_def)

end
