(* ===== verification/Server.thy ===== *)
theory Server
  imports Signer Broker_Correct
begin

text \<open>
  The broker's HTTP server (\<open>service/internal/server/server.go\<close>): the routes it registers
  with \<open>http.ServeMux\<close>, the matching of a request against them, and the request log. A
  request has its method, its path as escaped in the request line and as decoded, and what the
  handlers read. Host-specific patterns and the asterisk form do not
  occur; the settings of the listening server are in \<open>Server_Main\<close>.
\<close>

section \<open>Paths\<close>

fun clean_segments :: "string list \<Rightarrow> string list \<Rightarrow> string list" where
  "clean_segments stack [] = rev stack"
| "clean_segments stack (s # ss) =
     (if s = [] \<or> s = ''.'' then clean_segments stack ss
      else if s = ''..'' then clean_segments (tl stack) ss
      else clean_segments (s # stack) ss)"

text \<open>\<open>cleanPath\<close> of \<open>net/http\<close>: \<open>path.Clean\<close> of the rooted path, with its trailing slash.\<close>

definition rooted :: "string \<Rightarrow> string" where
  "rooted p = (if p = [] \<or> hd p \<noteq> CHR ''/'' then CHR ''/'' # p else p)"

definition path_Clean :: "string \<Rightarrow> string" where
  "path_Clean p = CHR ''/'' # Join (clean_segments [] (SplitByte CHR ''/'' p)) ''/''"

definition cleanPath :: "string \<Rightarrow> string" where
  "cleanPath p =
     (if p = [] then ''/''
      else let np = path_Clean (rooted p)
           in if last (rooted p) = CHR ''/'' \<and> np \<noteq> ''/'' then np @ ''/'' else np)"

fun PathUnescape :: "string \<Rightarrow> string option" where
  "PathUnescape [] = Some []"
| "PathUnescape (c # cs) =
     (if c = CHR ''%'' then
        (case cs of
           a # b # rest \<Rightarrow>
             (case (unhex a, unhex b, PathUnescape rest) of
                (Some x, Some y, Some t) \<Rightarrow> Some (char_of (16 * x + y) # t) | _ \<Rightarrow> None)
         | _ \<Rightarrow> None)
      else map_option ((#) c) (PathUnescape cs))"

definition pathSegments :: "string \<Rightarrow> string list" where
  "pathSegments p =
     map (\<lambda>s. case PathUnescape s of Some t \<Rightarrow> t | None \<Rightarrow> s) (SplitByte CHR ''/'' p)"

section \<open>Routes\<close>

datatype route = RDiscovery | RJWKS | RAuthorize | RCallback | RToken | RHealthz

definition routes :: "(string \<times> string \<times> route) list" where
  "routes =
     [(''GET'', ''/.well-known/openid-configuration'', RDiscovery), (''GET'', ''/jwks'', RJWKS),
      (''GET'', ''/authorize'', RAuthorize), (''GET'', ''/callback'', RCallback),
      (''POST'', ''/token'', RToken), (''GET'', ''/healthz'', RHealthz)]"

text \<open>A pattern for \<open>GET\<close> also matches \<open>HEAD\<close>.\<close>

definition method_ok :: "string \<Rightarrow> string \<Rightarrow> bool" where
  "method_ok pat m \<longleftrightarrow> pat = m \<or> pat = ''GET'' \<and> m = ''HEAD''"

datatype mux_result =
    Handler route
  | CleanRedirect string
  | MethodNotAllowed "string list"
  | NotFound

definition allowedMethods :: "string \<Rightarrow> string list" where
  "allowedMethods p =
     concat (map (\<lambda>(m, q, _). if pathSegments p = SplitByte CHR ''/'' q
       then (if m = ''GET'' then [''GET'', ''HEAD''] else [m]) else []) routes)"

definition findHandler :: "string \<Rightarrow> string \<Rightarrow> mux_result" where
  "findHandler method escapedPath =
     (let path = (if method = ''CONNECT'' then escapedPath else cleanPath escapedPath)
      in if path \<noteq> escapedPath then CleanRedirect path
         else (case find (\<lambda>(m, q, _). method_ok m method \<and> pathSegments path = SplitByte CHR ''/'' q) routes of
           Some (_, _, rt) \<Rightarrow> Handler rt
         | None \<Rightarrow>
           if allowedMethods path \<noteq> [] then MethodNotAllowed (allowedMethods path) else NotFound))"

section \<open>Serving\<close>

record httpRequest =
  hr_Method :: string
  hr_EscapedPath :: string
  hr_Path :: string
  hr_Request :: Request

fun handle ::
  "('w, 'a) deps_scheme \<Rightarrow> ('k, 'w, 'j) joselib_scheme \<Rightarrow> 'k signer \<Rightarrow> 'l golib_scheme \<Rightarrow> Config \<Rightarrow> route \<Rightarrow> Request \<Rightarrow> 'w \<Rightarrow> Response \<times> 'w" where
  "handle D J sg L cfg RDiscovery r w = (Discovery cfg, w)"
| "handle D J sg L cfg RJWKS r w = (JWKS J sg, w)"
| "handle D J sg L cfg RAuthorize r w = Authorize D L cfg r w"
| "handle D J sg L cfg RCallback r w = Callback D L cfg r w"
| "handle D J sg L cfg RToken r w = Token_handler D L cfg r w"
| "handle D J sg L cfg RHealthz r w = (Healthz, w)"

text \<open>
  \<open>st\<close> is the status of the redirect to the cleaned path, which depends on the Go release; the
  redirect is given by its path.
\<close>

definition mux_ServeHTTP ::
  "nat \<Rightarrow> ('w, 'a) deps_scheme \<Rightarrow> ('k, 'w, 'j) joselib_scheme \<Rightarrow> 'k signer \<Rightarrow> 'l golib_scheme \<Rightarrow> Config \<Rightarrow> httpRequest \<Rightarrow> 'w \<Rightarrow> Response \<times> 'w" where
  "mux_ServeHTTP st D J sg L cfg r w =
     (case findHandler (hr_Method r) (hr_EscapedPath r) of
        Handler rt \<Rightarrow> handle D J sg L cfg rt (hr_Request r) w
      | CleanRedirect p \<Rightarrow> (Redirect st p, w)
      | MethodNotAllowed ms \<Rightarrow> (HttpError 405 ''Method Not Allowed'', w)
      | NotFound \<Rightarrow> (HttpError 404 ''404 page not found'', w))"

fun status_of :: "Response \<Rightarrow> nat" where
  "status_of (HttpError s _) = s"
| "status_of (Redirect s _) = s"
| "status_of (WriteJSON s _) = s"
| "status_of (WriteText s _) = s"
| "status_of Panic = 200"

record logLine =
  lg_method :: string
  lg_path :: string
  lg_status :: nat

text \<open>The log middleware: a panic unwinds past it, and health probes are not recorded.\<close>

definition logging ::
  "(httpRequest \<Rightarrow> 'w \<Rightarrow> Response \<times> 'w) \<Rightarrow> httpRequest \<Rightarrow> 'w \<Rightarrow> Response \<times> logLine list \<times> 'w" where
  "logging next r w =
     (case next r w of (out, w') \<Rightarrow>
       (out, if out = Panic \<or> hr_Path r = ''/healthz'' then []
             else [\<lparr>lg_method = hr_Method r, lg_path = hr_Path r, lg_status = status_of out\<rparr>], w'))"

definition serve ::
  "nat \<Rightarrow> ('w, 'a) deps_scheme \<Rightarrow> ('k, 'w, 'j) joselib_scheme \<Rightarrow> 'k signer \<Rightarrow> 'l golib_scheme \<Rightarrow> Config \<Rightarrow> httpRequest \<Rightarrow> 'w \<Rightarrow>
   Response \<times> logLine list \<times> 'w" where
  "serve st D J sg L cfg = logging (mux_ServeHTTP st D J sg L cfg)"

end
