(* ===== verification/Idp.thy ===== *)
theory Idp
  imports Config Store_Redis
begin

text \<open>
  The identity providers, \<open>service/internal/idp\<close>: the generic OpenID Connect provider, the
  Google Workspace provider with its Directory groups, and the choice between them. The
  libraries they call (\<open>oauth2\<close>, \<open>go-oidc\<close>, the Google clients, the file system) are the
  record \<open>idplib\<close>. A token's claims are a JSON object without repeated keys.
\<close>

section \<open>Libraries\<close>

record OAuthConfig =
  oa_ClientID :: string
  oa_ClientSecret :: string
  oa_RedirectURL :: string
  oa_Endpoint :: string
  oa_Scopes :: "string list"

text \<open>A token the verifier accepted.\<close>

record IDToken =
  it_Subject :: string
  it_Nonce :: string
  it_Claims :: json

record dirGroup =
  dg_Id :: string
  dg_Name :: string

text \<open>
  \<open>il_Exchange\<close> gives the value of the extra field \<open>id_token\<close>; \<open>il_Verify\<close> takes the issuer
  and the client of the verifier; \<open>il_Pages\<close> gives the pages that were delivered and the error
  that ended the listing, if one did.
\<close>

record 'w idplib =
  il_NewProvider :: "string \<Rightarrow> 'w \<Rightarrow> string res \<times> 'w"
  il_AuthCodeURL :: "OAuthConfig \<Rightarrow> string \<Rightarrow> string \<Rightarrow> string"
  il_Exchange :: "OAuthConfig \<Rightarrow> string \<Rightarrow> 'w \<Rightarrow> json option res \<times> 'w"
  il_Verify :: "string \<Rightarrow> string \<Rightarrow> string \<Rightarrow> 'w \<Rightarrow> IDToken res \<times> 'w"
  il_ReadFile :: "string \<Rightarrow> 'w \<Rightarrow> string res \<times> 'w"
  il_DefaultCredentials :: "'w \<Rightarrow> string res \<times> 'w"
  il_JWTConfig :: "string \<Rightarrow> goerror option"
  il_NewService :: "string \<Rightarrow> string \<Rightarrow> 'w \<Rightarrow> string res \<times> 'w"
  il_Pages :: "string \<Rightarrow> string \<Rightarrow> nat \<Rightarrow> 'w \<Rightarrow> (dirGroup list list \<times> goerror option) \<times> 'w"

text \<open>\<open>idToken.Claims\<close> into a \<open>map[string]any\<close>.\<close>

definition claimsMap :: "json \<Rightarrow> (string \<rightharpoonup> json) res" where
  "claimsMap v = (case v of JObj fs \<Rightarrow> Inr (map_of fs) | JNull \<Rightarrow> Inr Map.empty | _ \<Rightarrow> Inl typeError)"

section \<open>The generic provider\<close>

definition asString :: "json option \<Rightarrow> string" where
  "asString v = (case v of Some (JStr s) \<Rightarrow> s | _ \<Rightarrow> [])"

definition asBool :: "json option \<Rightarrow> bool" where
  "asBool v = (case v of Some (JBool b) \<Rightarrow> b | _ \<Rightarrow> False)"

text \<open>The loop of \<open>DomainOf\<close> runs from the end: \<open>i\<close> is one more than the index it looks at.\<close>

fun domainLoop :: "string \<Rightarrow> nat \<Rightarrow> string" where
  "domainLoop email 0 = []"
| "domainLoop email (Suc i) = (if email ! i = CHR ''@'' then drop (Suc i) email else domainLoop email i)"

definition DomainOf :: "string \<Rightarrow> string" where
  "DomainOf email = domainLoop email (length email)"

fun groupLoop :: "string \<Rightarrow> json list \<Rightarrow> Membership list \<Rightarrow> Membership list" where
  "groupLoop domain [] out = out"
| "groupLoop domain (v # vs) out =
     (case v of
        JStr g \<Rightarrow> if g \<noteq> [] then groupLoop domain vs (out @ [\<lparr>m_Gid = g, m_Name = g, m_Domain = domain\<rparr>])
                else groupLoop domain vs out
      | _ \<Rightarrow> groupLoop domain vs out)"

definition ParseGroups :: "json option \<Rightarrow> string \<Rightarrow> Membership list" where
  "ParseGroups claim domain = (case claim of Some (JArr raw) \<Rightarrow> groupLoop domain raw [] | _ \<Rightarrow> [])"

record OidcProvider =
  op_oauth :: OAuthConfig
  op_issuer :: string
  op_groupsClaim :: string

definition oauthConfig :: "IdPConfig \<Rightarrow> string \<Rightarrow> OAuthConfig" where
  "oauthConfig c endpoint =
     \<lparr>oa_ClientID = idp_ClientID c, oa_ClientSecret = idp_ClientSecret c, oa_RedirectURL = idp_RedirectURL c,
      oa_Endpoint = endpoint, oa_Scopes = idp_Scopes c\<rparr>"

definition oidc_New :: "('w, 'a) idplib_scheme \<Rightarrow> Config \<Rightarrow> 'w \<Rightarrow> OidcProvider res \<times> 'w" where
  "oidc_New I cfg w =
     (case il_NewProvider I (idp_Issuer (cfg_IdP cfg)) w of
        (Inl e, w') \<Rightarrow> (Inl (Wrap (''oidc discovery ('' @ idp_Issuer (cfg_IdP cfg) @ '')'') e), w')
      | (Inr endpoint, w') \<Rightarrow>
        (Inr \<lparr>op_oauth = oauthConfig (cfg_IdP cfg) endpoint, op_issuer = idp_Issuer (cfg_IdP cfg),
              op_groupsClaim = idp_GroupsClaim (cfg_IdP cfg)\<rparr>, w'))"

definition oidc_identity :: "OidcProvider \<Rightarrow> IDToken \<Rightarrow> (string \<rightharpoonup> json) \<Rightarrow> Identity" where
  "oidc_identity p tok claims =
     (let email = asString (claims ''email''); domain = DomainOf email
      in \<lparr>id_Subject = it_Subject tok, id_Email = email, id_EmailVerified = asBool (claims ''email_verified''),
          id_Domain = domain, id_Name = asString (claims ''name''),
          id_Groups = ParseGroups (claims (op_groupsClaim p)) domain\<rparr>)"

definition oidc_Authenticate ::
  "('w, 'a) idplib_scheme \<Rightarrow> OidcProvider \<Rightarrow> string \<Rightarrow> string \<Rightarrow> 'w \<Rightarrow> Identity res \<times> 'w" where
  "oidc_Authenticate I p code nonce w =
     (case il_Exchange I (op_oauth p) code w of
        (Inl e, w1) \<Rightarrow> (Inl (Wrap ''code exchange'' e), w1)
      | (Inr (Some (JStr rawID)), w1) \<Rightarrow>
        (case il_Verify I (op_issuer p) (oa_ClientID (op_oauth p)) rawID w1 of
           (Inl e, w2) \<Rightarrow> (Inl (Wrap ''verify id_token'' e), w2)
         | (Inr tok, w2) \<Rightarrow>
           (if nonce \<noteq> [] \<and> it_Nonce tok \<noteq> nonce then Inl (Errorf ''id_token nonce mismatch'')
            else (case claimsMap (it_Claims tok) of
              Inl e \<Rightarrow> Inl (Wrap ''parse claims'' e)
            | Inr claims \<Rightarrow> Inr (oidc_identity p tok claims)), w2))
      | (_, w1) \<Rightarrow> (Inl (Errorf ''response missing id_token''), w1))"

section \<open>The Google provider\<close>

record GoogleProvider =
  gp_oauth :: OAuthConfig
  gp_issuer :: string
  gp_dir :: string

definition serviceAccountKey :: "('w, 'a) idplib_scheme \<Rightarrow> Config \<Rightarrow> 'w \<Rightarrow> string res \<times> 'w" where
  "serviceAccountKey I cfg w =
     (let file = idp_GoogleCredentialsFile (cfg_IdP cfg)
      in if file \<noteq> [] then
           (case il_ReadFile I file w of
              (Inl e, w') \<Rightarrow> (Inl (Wrap ''read GOOGLE_CREDENTIALS_FILE'' e), w')
            | (Inr b, w') \<Rightarrow> (Inr b, w'))
         else
           (case il_DefaultCredentials I w of
              (Inl e, w') \<Rightarrow> (Inl (Wrap ''no google credentials (set GOOGLE_CREDENTIALS_FILE)'' e), w')
            | (Inr b, w') \<Rightarrow>
              (if b = [] then
                 Inl (Errorf (''domain-wide delegation requires a service-account key file; '' @
                   ''set GOOGLE_CREDENTIALS_FILE (metadata/Workload-Identity ADC has no key to sign the subject JWT)''))
               else Inr b, w')))"

definition newDirectory :: "('w, 'a) idplib_scheme \<Rightarrow> Config \<Rightarrow> 'w \<Rightarrow> string res \<times> 'w" where
  "newDirectory I cfg w =
     (case serviceAccountKey I cfg w of
        (Inl e, w1) \<Rightarrow> (Inl e, w1)
      | (Inr key, w1) \<Rightarrow>
        (case il_JWTConfig I key of
           Some e \<Rightarrow> (Inl (Wrap ''google domain-wide delegation needs a service-account key'' e), w1)
         | None \<Rightarrow> il_NewService I key (idp_GoogleDelegatedAdmin (cfg_IdP cfg)) w1))"

definition google_New :: "('w, 'a) idplib_scheme \<Rightarrow> Config \<Rightarrow> 'w \<Rightarrow> GoogleProvider res \<times> 'w" where
  "google_New I cfg w =
     (case il_NewProvider I (idp_Issuer (cfg_IdP cfg)) w of
        (Inl e, w1) \<Rightarrow> (Inl (Wrap ''google oidc discovery'' e), w1)
      | (Inr endpoint, w1) \<Rightarrow>
        (case newDirectory I cfg w1 of
           (Inl e, w2) \<Rightarrow> (Inl e, w2)
         | (Inr dir, w2) \<Rightarrow>
           (Inr \<lparr>gp_oauth = oauthConfig (cfg_IdP cfg) endpoint, gp_issuer = idp_Issuer (cfg_IdP cfg), gp_dir = dir\<rparr>, w2)))"

definition fetchGroups ::
  "('w, 'a) idplib_scheme \<Rightarrow> GoogleProvider \<Rightarrow> string \<Rightarrow> string \<Rightarrow> 'w \<Rightarrow> Membership list res \<times> 'w" where
  "fetchGroups I p email domain w =
     (case il_Pages I (gp_dir p) email 200 w of
        ((pages, Some e), w') \<Rightarrow> (Inl (Wrap (''list groups for '' @ email) e), w')
      | ((pages, None), w') \<Rightarrow>
        (Inr (concat (map (map (\<lambda>g. \<lparr>m_Gid = dg_Id g, m_Name = dg_Name g, m_Domain = domain\<rparr>)) pages)), w'))"

record googleClaims =
  gc_Subject :: string
  gc_Email :: string
  gc_EmailVerified :: bool
  gc_HostedDomain :: string
  gc_Name :: string

definition unmarshalGoogleClaims :: "json \<Rightarrow> googleClaims res" where
  "unmarshalGoogleClaims v =
     andThen (getStr v ''sub'') (\<lambda>a. andThen (getStr v ''email'') (\<lambda>b. andThen (getBool v ''email_verified'') (\<lambda>c.
     andThen (getStr v ''hd'') (\<lambda>d. andThen (getStr v ''name'') (\<lambda>e.
     Inr \<lparr>gc_Subject = a, gc_Email = b, gc_EmailVerified = c, gc_HostedDomain = d, gc_Name = e\<rparr>)))))"

definition google_Authenticate ::
  "('w, 'a) idplib_scheme \<Rightarrow> GoogleProvider \<Rightarrow> string \<Rightarrow> string \<Rightarrow> 'w \<Rightarrow> Identity res \<times> 'w" where
  "google_Authenticate I p code nonce w =
     (case il_Exchange I (gp_oauth p) code w of
        (Inl e, w1) \<Rightarrow> (Inl (Wrap ''google code exchange'' e), w1)
      | (Inr (Some (JStr rawID)), w1) \<Rightarrow>
        (case il_Verify I (gp_issuer p) (oa_ClientID (gp_oauth p)) rawID w1 of
           (Inl e, w2) \<Rightarrow> (Inl (Wrap ''verify google id_token'' e), w2)
         | (Inr tok, w2) \<Rightarrow>
           if nonce \<noteq> [] \<and> it_Nonce tok \<noteq> nonce then (Inl (Errorf ''google id_token nonce mismatch''), w2)
           else (case unmarshalGoogleClaims (it_Claims tok) of
             Inl e \<Rightarrow> (Inl (Wrap ''parse google claims'' e), w2)
           | Inr c \<Rightarrow>
             (case fetchGroups I p (gc_Email c) (gc_HostedDomain c) w2 of
                (Inl e, w3) \<Rightarrow> (Inl e, w3)
              | (Inr groups, w3) \<Rightarrow>
                (Inr \<lparr>id_Subject = gc_Subject c, id_Email = gc_Email c, id_EmailVerified = gc_EmailVerified c,
                      id_Domain = gc_HostedDomain c, id_Name = gc_Name c, id_Groups = groups\<rparr>, w3))))
      | (_, w1) \<Rightarrow> (Inl (Errorf ''google response missing id_token''), w1))"

section \<open>The choice of the provider\<close>

datatype Provider = Google GoogleProvider | Oidc OidcProvider

definition idp_New :: "'u unicode_scheme \<Rightarrow> ('w, 'a) idplib_scheme \<Rightarrow> Config \<Rightarrow> 'w \<Rightarrow> Provider res \<times> 'w" where
  "idp_New U I cfg w =
     (if idp_Type (cfg_IdP cfg) = ''google'' then
        (case google_New I cfg w of (Inl e, w') \<Rightarrow> (Inl e, w') | (Inr p, w') \<Rightarrow> (Inr (Google p), w'))
      else if idp_Type (cfg_IdP cfg) = ''oidc'' then
        (case oidc_New I cfg w of (Inl e, w') \<Rightarrow> (Inl e, w') | (Inr p, w') \<Rightarrow> (Inr (Oidc p), w'))
      else (Inl (Errorf (''unknown IDP_TYPE '' @ Quote U (idp_Type (cfg_IdP cfg)))), w))"

fun Authenticate :: "('w, 'a) idplib_scheme \<Rightarrow> Provider \<Rightarrow> string \<Rightarrow> string \<Rightarrow> 'w \<Rightarrow> Identity res \<times> 'w" where
  "Authenticate I (Google p) = google_Authenticate I p"
| "Authenticate I (Oidc p) = oidc_Authenticate I p"

definition google_AuthURL :: "('w, 'a) idplib_scheme \<Rightarrow> GoogleProvider \<Rightarrow> string \<Rightarrow> string \<Rightarrow> string" where
  "google_AuthURL I p state nonce = il_AuthCodeURL I (gp_oauth p) state nonce"

definition oidc_AuthURL :: "('w, 'a) idplib_scheme \<Rightarrow> OidcProvider \<Rightarrow> string \<Rightarrow> string \<Rightarrow> string" where
  "oidc_AuthURL I p state nonce = il_AuthCodeURL I (op_oauth p) state nonce"

fun AuthURL :: "('w, 'a) idplib_scheme \<Rightarrow> Provider \<Rightarrow> string \<Rightarrow> string \<Rightarrow> string" where
  "AuthURL I (Google p) = google_AuthURL I p"
| "AuthURL I (Oidc p) = oidc_AuthURL I p"

end
