(* ===== verification/K8s_Name.thy ===== *)
theory K8s_Name
  imports Go_Strings
begin

text \<open>
  \<open>SanitizeName\<close> of \<open>service/internal/k8s/bind.go\<close>: the function that turns an e-mail
  address into the name of the user's \<open>UserAuthenticationBind\<close> and ServiceAccount. The
  broker names the resource with it and the proxy finds the ServiceAccount with it, so
  the two must agree and the result must be a legal resource name.
\<close>

definition sanitize_rune :: "rune \<Rightarrow> char" where
  "sanitize_rune r =
     (if (97 \<le> r \<and> r \<le> 122) \<or> (48 \<le> r \<and> r \<le> 57) then char_of r else CHR ''-'')"

definition SanitizeName :: "'a unicode_scheme \<Rightarrow> string \<Rightarrow> string" where
  "SanitizeName U email =
     (let s = ToLower U email;
          out = Trim (map sanitize_rune (runes s)) ''-'';
          out = (if 253 < length out then Trim (take 253 out) ''-'' else out)
      in if out = [] then ''user'' else out)"

text \<open>
  What Kubernetes asks of such a name (a DNS-1123 subdomain without dots): one to 253
  lower-case letters, digits and hyphens, a letter or digit at both ends.
\<close>

definition dns_char :: "char \<Rightarrow> bool" where
  "dns_char c \<longleftrightarrow>
     (97 \<le> byte_val c \<and> byte_val c \<le> 122) \<or> (48 \<le> byte_val c \<and> byte_val c \<le> 57) \<or> c = CHR ''-''"

definition dns_name :: "string \<Rightarrow> bool" where
  "dns_name s \<longleftrightarrow>
     s \<noteq> [] \<and> length s \<le> 253 \<and> list_all dns_char s \<and> hd s \<noteq> CHR ''-'' \<and> last s \<noteq> CHR ''-''"

lemma sanitize_rune_dns: "dns_char (sanitize_rune r)"
  by (auto simp: dns_char_def sanitize_rune_def)

lemma dns_char_ascii: "dns_char c \<Longrightarrow> byte_val c < 128"
  by (auto simp: dns_char_def)

lemma sanitize_rune_id: "dns_char c \<Longrightarrow> sanitize_rune (byte_val c) = c"
  by (auto simp: dns_char_def sanitize_rune_def)

lemma lower_rune_dns: "dns_char c \<Longrightarrow> lower_rune U (byte_val c) = byte_val c"
  by (auto simp: dns_char_def lower_rune_def)

lemma Trim_dns: "list_all dns_char s \<Longrightarrow> list_all dns_char (Trim s cs)"
  using set_Trim [of s cs] by (auto simp: list_all_iff)

lemma dns_nameI:
  assumes "s = Trim t ''-''" and "list_all dns_char t" and "s \<noteq> []" and "length s \<le> 253"
  shows "dns_name s"
  using assms Trim_ends [of t "''-''"] Trim_dns [of t "''-''"] by (auto simp: dns_name_def)

lemma SanitizeName_dns_name: "dns_name (SanitizeName U email)"
proof -
  define t where "t = map sanitize_rune (runes (ToLower U email))"
  have t: "list_all dns_char t" by (simp add: t_def list_all_iff sanitize_rune_dns)
  define out where "out = Trim t ''-''"
  have out: "list_all dns_char out" unfolding out_def by (rule Trim_dns [OF t])
  define out' where "out' = (if 253 < length out then Trim (take 253 out) ''-'' else out)"
  have "dns_name out'" if "out' \<noteq> []"
  proof (cases "253 < length out")
    case True
    then have "out' = Trim (take 253 out) ''-''" by (simp add: out'_def)
    moreover have "list_all dns_char (take 253 out)"
      using out by (auto simp: list_all_iff dest: in_set_takeD)
    moreover have "length out' \<le> 253"
      using True length_Trim [of "take 253 out" "''-''"] by (simp add: out'_def)
    ultimately show ?thesis using that by (auto intro: dns_nameI)
  next
    case False
    with that show ?thesis by (auto simp: out'_def out_def intro: dns_nameI [OF refl t])
  qed
  moreover have "dns_name ''user''" by (simp add: dns_name_def dns_char_def)
  moreover have "SanitizeName U email = (if out' = [] then ''user'' else out')"
    by (simp only: SanitizeName_def Let_def out'_def out_def t_def)
  ultimately show ?thesis by simp
qed

lemma ToLower_dns: "list_all dns_char s \<Longrightarrow> ToLower U s = s"
proof -
  assume s: "list_all dns_char s"
  then have "ascii s" by (auto simp: ascii_def list_all_iff dns_char_ascii)
  then have "ToLower U s = concat (map (\<lambda>c. encode_rune (lower_rune U (byte_val c))) s)"
    by (simp add: ToLower_def runes_ascii comp_def)
  also have "\<dots> = concat (map (\<lambda>c. [c]) s)"
    using s by (intro arg_cong [where f = concat] map_cong refl)
      (simp add: lower_rune_dns dns_char_ascii encode_rune_ascii list_all_iff)
  finally show ?thesis by simp
qed

lemma SanitizeName_id: 
  assumes "dns_name s"
  shows "SanitizeName U s = s"
proof -
  from assms have s: "list_all dns_char s" by (simp add: dns_name_def)
  then have "ascii s" by (auto simp: ascii_def list_all_iff dns_char_ascii)
  then have "map sanitize_rune (runes s) = map (\<lambda>c. sanitize_rune (byte_val c)) s"
    by (simp add: runes_ascii comp_def)
  also have "\<dots> = s" using s by (intro map_idI) (simp add: sanitize_rune_id list_all_iff)
  finally have "map sanitize_rune (runes (ToLower U s)) = s" by (simp add: ToLower_dns [OF s])
  moreover have "Trim s ''-'' = s" using assms by (intro Trim_id) (auto simp: dns_name_def)
  ultimately show ?thesis using assms by (simp add: SanitizeName_def Let_def dns_name_def)
qed

text \<open>
  C31. Every name \<open>SanitizeName\<close> returns, for any input bytes and any Unicode case table,
  is one that Kubernetes accepts as a resource name: not empty, at most 253 characters,
  only lower-case letters, digits and hyphens, and no hyphen at either end.
\<close>

theorem SanitizeName_legal: "dns_name (SanitizeName U email)"
  by (rule SanitizeName_dns_name)

text \<open>
  \<open>SanitizeName\<close> is idempotent: the proxy, which may be given a claim that is already
  the ServiceAccount name, reaches the same ServiceAccount.
\<close>

theorem SanitizeName_idempotent: "SanitizeName U (SanitizeName U email) = SanitizeName U email"
  by (rule SanitizeName_id [OF SanitizeName_dns_name])

text \<open>
  The name is not one-to-one. Punctuation is an ASCII byte that becomes a hyphen; which
  punctuation stood at a place of the address is lost.
\<close>

definition punctuation :: "char \<Rightarrow> bool" where
  "punctuation c \<longleftrightarrow>
     byte_val c < 128 \<and> \<not> (48 \<le> byte_val c \<and> byte_val c \<le> 57) \<and>
     \<not> (65 \<le> byte_val c \<and> byte_val c \<le> 90) \<and> \<not> (97 \<le> byte_val c \<and> byte_val c \<le> 122)"

lemma sanitized_runes_append:
  assumes "ascii p"
  shows "map sanitize_rune (runes (ToLower U (p @ s))) =
    map (\<lambda>c. sanitize_rune (lower_rune U (byte_val c))) p @ map sanitize_rune (runes (ToLower U s))"
proof -
  have "byte_val (char_of (lower_rune U (byte_val c))) = lower_rune U (byte_val c)"
    if "c \<in> set p" for c
    using that assms by (auto simp: ascii_def lower_rune_def)
  then show ?thesis
    by (simp add: ToLower_ascii_append runes_ascii_append assms ascii_lower comp_def cong: map_cong)
qed

lemma sanitize_punctuation: "punctuation c \<Longrightarrow> sanitize_rune (lower_rune U (byte_val c)) = CHR ''-''"
  by (auto simp: punctuation_def sanitize_rune_def lower_rune_def)

text \<open>
  C32. Two addresses that differ only in one punctuation character (a dot, a plus, a hyphen,
  an underscore, \<dots>) are given the same name, hence share one \<open>UserAuthenticationBind\<close>
  and one ServiceAccount: the per-user separation the program documents does not hold for them.
\<close>

theorem SanitizeName_collision:
  assumes "ascii p" and "punctuation c" and "punctuation d"
  shows "SanitizeName U (p @ c # q) = SanitizeName U (p @ d # q)"
proof -
  have split: "map sanitize_rune (runes (ToLower U (p @ x # q))) =
      map (\<lambda>c. sanitize_rune (lower_rune U (byte_val c))) p @ CHR ''-'' #
      map sanitize_rune (runes (ToLower U q))" if "punctuation x" for x
  proof -
    have "ascii (p @ [x])" using assms(1) that by (auto simp: ascii_def punctuation_def)
    from sanitized_runes_append [OF this, of U q] show ?thesis
      by (simp add: sanitize_punctuation [OF that])
  qed
  show ?thesis
    by (simp only: SanitizeName_def Let_def split [OF assms(2)] split [OF assms(3)])
qed

theorem SanitizeName_collision_witness:
  "\<forall>U :: unicode. SanitizeName U ''ann.lee@corp.io'' = SanitizeName U ''ann-lee@corp.io'' \<and>
     ''ann.lee@corp.io'' \<noteq> ''ann-lee@corp.io''"
proof
  fix U :: unicode
  show "SanitizeName U ''ann.lee@corp.io'' = SanitizeName U ''ann-lee@corp.io'' \<and>
     ''ann.lee@corp.io'' \<noteq> ''ann-lee@corp.io''"
    using SanitizeName_collision [of "''ann''" "CHR ''.''" "CHR ''-''" U "''lee@corp.io''"]
    by (simp add: ascii_def punctuation_def)
qed

end
