(* ===== verification/Kube_Api.thy ===== *)
theory Kube_Api
  imports Kargus_Model
begin

text \<open>
  The Kubernetes API as the operator, the binder and the minter call it. None of this code
  is in the repository (\<open>client-go\<close>, \<open>controller-runtime\<close>, the API server), so it is the
  argument \<open>K :: 'w kube\<close> of the definitions that use it: a record of functions on a world
  \<open>'w\<close>. What the code relies on are the laws of the locales below, stated over the
  cluster's objects as \<open>view\<close> reads them off the world: a call that succeeds has its
  documented effect, a call that fails may or may not have had it, and a list is a fresh
  read. The manager of the operator reads through a cache, which a list may find stale;
  \<open>Revocation\<close> has an API with such lists, which does not meet the contract.
\<close>

section \<open>The interface\<close>

type_synonym nsname = "string \<times> string"

record 'w kube =
  k_now :: "'w \<Rightarrow> time"
  k_getBind :: "nsname \<Rightarrow> 'w \<Rightarrow> UserAuthenticationBind res \<times> 'w"
  k_updateBind :: "UserAuthenticationBind \<Rightarrow> 'w \<Rightarrow> UserAuthenticationBind res \<times> 'w"
  k_patchStatus ::
    "UserAuthenticationBind \<Rightarrow> UserAuthenticationBind \<Rightarrow> 'w \<Rightarrow> UserAuthenticationBind res \<times> 'w"
  k_createOrUpdateBind ::
    "nsname \<Rightarrow> (UserAuthenticationBind \<Rightarrow> UserAuthenticationBind res) \<Rightarrow> 'w \<Rightarrow>
     UserAuthenticationBind res \<times> 'w"
  k_createOrUpdateSA ::
    "nsname \<Rightarrow> (ServiceAccount \<Rightarrow> ServiceAccount res) \<Rightarrow> 'w \<Rightarrow> ServiceAccount res \<times> 'w"
  k_listClusterRoles :: "'w \<Rightarrow> ObjectMeta list res \<times> 'w"
  k_listRoles :: "'w \<Rightarrow> ObjectMeta list res \<times> 'w"
  k_createCRB :: "Binding \<Rightarrow> 'w \<Rightarrow> goerror option \<times> 'w"
  k_listCRBs :: "string \<Rightarrow> string \<Rightarrow> 'w \<Rightarrow> Binding list res \<times> 'w"
  k_deleteCRB :: "Binding \<Rightarrow> 'w \<Rightarrow> goerror option \<times> 'w"
  k_createRB :: "Binding \<Rightarrow> 'w \<Rightarrow> goerror option \<times> 'w"
  k_listRBs :: "string \<Rightarrow> string \<Rightarrow> 'w \<Rightarrow> Binding list res \<times> 'w"
  k_deleteRB :: "Binding \<Rightarrow> 'w \<Rightarrow> goerror option \<times> 'w"
  k_createToken :: "nsname \<Rightarrow> string list \<Rightarrow> int \<Rightarrow> 'w \<Rightarrow> string res \<times> 'w"
  k_addFinalizer :: "string \<Rightarrow> string list \<Rightarrow> bool \<times> string list"
  k_removeFinalizer :: "string \<Rightarrow> string list \<Rightarrow> string list"
  k_containsFinalizer :: "string \<Rightarrow> string list \<Rightarrow> bool"
  k_setStatusCondition :: "Condition \<Rightarrow> time \<Rightarrow> Condition list \<Rightarrow> Condition list"
  k_setControllerReference :: "UserAuthenticationBind \<Rightarrow> ServiceAccount \<Rightarrow> ServiceAccount res"

text \<open>The objects of the cluster that the program reads or writes.\<close>

record cluster =
  cl_binds :: "nsname \<rightharpoonup> UserAuthenticationBind"
  cl_sas :: "nsname \<rightharpoonup> ServiceAccount"
  cl_crbs :: "string \<rightharpoonup> Binding"
  cl_rbs :: "nsname \<rightharpoonup> Binding"
  cl_clusterroles :: "ObjectMeta list"
  cl_roles :: "ObjectMeta list"

definition nsname_of :: "'a ObjectMeta_scheme \<Rightarrow> nsname" where
  "nsname_of x = (om_Namespace x, om_Name x)"

text \<open>What of a binding the server keeps as it was submitted.\<close>

definition same_binding :: "Binding \<Rightarrow> Binding \<Rightarrow> bool" where
  "same_binding b b' \<longleftrightarrow>
     om_Name b' = om_Name b \<and> om_Namespace b' = om_Namespace b \<and> om_Labels b' = om_Labels b \<and>
     b_RoleRef b' = b_RoleRef b \<and> b_Subjects b' = b_Subjects b"

text \<open>
  A JSON merge patch of \<open>status\<close>: a field that the patched object shares with the baseline
  is not in the patch and keeps the server's value.
\<close>

definition merged :: "'a \<Rightarrow> 'a \<Rightarrow> 'a \<Rightarrow> 'a" where
  "merged orig new cur = (if new = orig then cur else new)"

definition merge_status ::
  "UserAuthenticationBindStatus \<Rightarrow> UserAuthenticationBindStatus \<Rightarrow>
   UserAuthenticationBindStatus \<Rightarrow> UserAuthenticationBindStatus" where
  "merge_status orig new cur =
     \<lparr>st_Conditions = merged (st_Conditions orig) (st_Conditions new) (st_Conditions cur),
      st_Sv =
        \<lparr>sv_Ref = merged (sv_Ref (st_Sv orig)) (sv_Ref (st_Sv new)) (sv_Ref (st_Sv cur)),
         sv_Status = merged (sv_Status (st_Sv orig)) (sv_Status (st_Sv new)) (sv_Status (st_Sv cur)),
         sv_ExpiresAt =
           merged (sv_ExpiresAt (st_Sv orig)) (sv_ExpiresAt (st_Sv new)) (sv_ExpiresAt (st_Sv cur))\<rparr>\<rparr>"

lemma merge_status_orig [simp]: "merge_status s n s = n"
  by (simp add: merge_status_def merged_def)

lemma merge_status_same [simp]: "merge_status s s c = c"
  by (simp add: merge_status_def merged_def)

section \<open>One kind of binding\<close>

text \<open>
  ClusterRoleBindings and RoleBindings obey the same contract under different keys. \<open>owned\<close>
  lists the objects that carry an owner label; \<open>rest\<close> is what of the world the three
  calls leave alone.
\<close>

locale binding_kind =
  fixes create :: "Binding \<Rightarrow> 'w \<Rightarrow> goerror option \<times> 'w"
    and list :: "string \<Rightarrow> string \<Rightarrow> 'w \<Rightarrow> Binding list res \<times> 'w"
    and delete :: "Binding \<Rightarrow> 'w \<Rightarrow> goerror option \<times> 'w"
    and key :: "Binding \<Rightarrow> 'k"
    and objs :: "'w \<Rightarrow> 'k \<rightharpoonup> Binding"
    and rest :: "'w \<Rightarrow> 'r"
  assumes objs_key: "objs w k = Some b \<Longrightarrow> key b = k"
    and key_same: "same_binding b b' \<Longrightarrow> key b = key b'"
    and create_ok: "create b w = (None, w') \<Longrightarrow>
      objs w (key b) = None \<and> rest w' = rest w \<and>
      (\<exists>b'. same_binding b b' \<and> objs w' = (objs w)(key b \<mapsto> b'))"
    and create_exists: "create b w = (Some e, w') \<Longrightarrow> errors_Is e ApiAlreadyExists \<Longrightarrow>
      objs w (key b) \<noteq> None \<and> rest w' = rest w \<and> objs w' = objs w"
    and create_present: "objs w (key b) \<noteq> None \<Longrightarrow> create b w = (r, w') \<Longrightarrow>
      r \<noteq> None \<and> rest w' = rest w \<and> objs w' = objs w"
    and create_err: "create b w = (Some e, w') \<Longrightarrow> \<not> errors_Is e ApiAlreadyExists \<Longrightarrow>
      rest w' = rest w \<and>
      (objs w' = objs w \<or>
       objs w (key b) = None \<and> (\<exists>b'. same_binding b b' \<and> objs w' = (objs w)(key b \<mapsto> b')))"
    and list_ok: "list lab v w = (Inr bs, w') \<Longrightarrow>
      rest w' = rest w \<and> objs w' = objs w \<and>
      set bs = {b. \<exists>k. objs w k = Some b \<and> om_Labels b lab = Some v}"
    and list_err: "list lab v w = (Inl e, w') \<Longrightarrow> rest w' = rest w \<and> objs w' = objs w"
    and delete_ok: "delete b w = (None, w') \<Longrightarrow>
      rest w' = rest w \<and> objs w' = (objs w)(key b := None)"
    and delete_err: "delete b w = (Some e, w') \<Longrightarrow>
      rest w' = rest w \<and> (objs w' = objs w \<or> objs w' = (objs w)(key b := None)) \<and>
      (errors_Is e ApiNotFound \<longrightarrow> objs w' (key b) = None)"

section \<open>The RBAC API\<close>

text \<open>
  Both kinds of binding obey the contract above; the roles are only read. Namespaces are
  DNS labels, so they contain no slash.
\<close>

locale rbac_api =
  fixes K :: "('w, 'a) kube_scheme" and view :: "'w \<Rightarrow> cluster"
  assumes crb_contract:
      "binding_kind (k_createCRB K) (k_listCRBs K) (k_deleteCRB K) om_Name
         (\<lambda>w. cl_crbs (view w)) (\<lambda>w. (view w)\<lparr>cl_crbs := Map.empty\<rparr>)"
    and rb_contract:
      "binding_kind (k_createRB K) (k_listRBs K) (k_deleteRB K) nsname_of
         (\<lambda>w. cl_rbs (view w)) (\<lambda>w. (view w)\<lparr>cl_rbs := Map.empty\<rparr>)"
    and listClusterRoles_view: "k_listClusterRoles K w = (r, w') \<Longrightarrow> view w' = view w"
    and listClusterRoles_ok: "k_listClusterRoles K w = (Inr rs, w') \<Longrightarrow> rs = cl_clusterroles (view w)"
    and listRoles_view: "k_listRoles K w = (r, w') \<Longrightarrow> view w' = view w"
    and listRoles_ok: "k_listRoles K w = (Inr rs, w') \<Longrightarrow> rs = cl_roles (view w)"
    and role_ns: "x \<in> set (cl_roles (view w)) \<Longrightarrow> CHR ''/'' \<notin> set (om_Namespace x)"
    and rb_ns: "cl_rbs (view w) k = Some b \<Longrightarrow> CHR ''/'' \<notin> set (om_Namespace b)"

sublocale rbac_api \<subseteq> crb: binding_kind "k_createCRB K" "k_listCRBs K" "k_deleteCRB K" om_Name
    "\<lambda>w. cl_crbs (view w)" "\<lambda>w. (view w)\<lparr>cl_crbs := Map.empty\<rparr>"
  by (rule crb_contract)

sublocale rbac_api \<subseteq> rb: binding_kind "k_createRB K" "k_listRBs K" "k_deleteRB K" nsname_of
    "\<lambda>w. cl_rbs (view w)" "\<lambda>w. (view w)\<lparr>cl_rbs := Map.empty\<rparr>"
  by (rule rb_contract)

section \<open>The whole API of the operator\<close>

definition put_bind :: "nsname \<Rightarrow> UserAuthenticationBind option \<Rightarrow> cluster \<Rightarrow> cluster" where
  "put_bind k v cl = cl\<lparr>cl_binds := (cl_binds cl)(k := v)\<rparr>"

definition put_sa :: "nsname \<Rightarrow> ServiceAccount option \<Rightarrow> cluster \<Rightarrow> cluster" where
  "put_sa k v cl = cl\<lparr>cl_sas := (cl_sas cl)(k := v)\<rparr>"

lemma put_bind_sel [simp]:
  "cl_binds (put_bind k v cl) = (cl_binds cl)(k := v)" "cl_sas (put_bind k v cl) = cl_sas cl"
  "cl_crbs (put_bind k v cl) = cl_crbs cl" "cl_rbs (put_bind k v cl) = cl_rbs cl"
  "cl_clusterroles (put_bind k v cl) = cl_clusterroles cl" "cl_roles (put_bind k v cl) = cl_roles cl"
  by (simp_all add: put_bind_def)

lemma put_sa_sel [simp]:
  "cl_binds (put_sa k v cl) = cl_binds cl" "cl_sas (put_sa k v cl) = (cl_sas cl)(k := v)"
  "cl_crbs (put_sa k v cl) = cl_crbs cl" "cl_rbs (put_sa k v cl) = cl_rbs cl"
  "cl_clusterroles (put_sa k v cl) = cl_clusterroles cl" "cl_roles (put_sa k v cl) = cl_roles cl"
  by (simp_all add: put_sa_def)

text \<open>
  An update of the main resource keeps the status and the fields the server owns; an object
  that is being deleted disappears with its last finalizer. A patch of the status
  subresource changes the status only.
\<close>

definition updated :: "UserAuthenticationBind \<Rightarrow> UserAuthenticationBind \<Rightarrow> UserAuthenticationBind" where
  "updated cur b =
     cur\<lparr>om_Annotations := om_Annotations b, om_Labels := om_Labels b,
         om_Finalizers := om_Finalizers b, uab_Spec := uab_Spec b\<rparr>"

definition stored :: "UserAuthenticationBind \<Rightarrow> UserAuthenticationBind option" where
  "stored b = (if om_DeletionTimestamp b \<noteq> None \<and> om_Finalizers b = [] then None else Some b)"

definition patched ::
  "UserAuthenticationBind \<Rightarrow> UserAuthenticationBind \<Rightarrow> UserAuthenticationBind \<Rightarrow> UserAuthenticationBind" where
  "patched orig new cur =
     cur\<lparr>uab_Status := merge_status (uab_Status orig) (uab_Status new) (uab_Status cur)\<rparr>"

lemma patched_sel [simp]:
  "om_Name (patched orig new cur) = om_Name cur" "om_Namespace (patched orig new cur) = om_Namespace cur"
  "om_UID (patched orig new cur) = om_UID cur" "om_Annotations (patched orig new cur) = om_Annotations cur"
  "om_Finalizers (patched orig new cur) = om_Finalizers cur"
  "om_CreationTimestamp (patched orig new cur) = om_CreationTimestamp cur"
  "om_DeletionTimestamp (patched orig new cur) = om_DeletionTimestamp cur"
  "uab_Spec (patched orig new cur) = uab_Spec cur"
  "uab_Status (patched orig new cur) =
     merge_status (uab_Status orig) (uab_Status new) (uab_Status cur)"
  by (simp_all add: patched_def)

lemma nsname_of_patched [simp]: "nsname_of (patched orig new cur) = nsname_of cur"
  by (simp add: nsname_of_def)

lemma updated_self [simp]: "updated b (b\<lparr>om_Finalizers := fs\<rparr>) = b\<lparr>om_Finalizers := fs\<rparr>"
  by (simp add: updated_def)

locale operator_api = rbac_api K view
  for K :: "('w, 'a) kube_scheme" and view :: "'w \<Rightarrow> cluster" +
  assumes bind_key: "cl_binds (view w) k = Some b \<Longrightarrow> nsname_of b = k"
    and getBind_view: "k_getBind K k w = (r, w') \<Longrightarrow> view w' = view w"
    and getBind_ok: "k_getBind K k w = (Inr b, w') \<Longrightarrow> cl_binds (view w) k = Some b"
    and getBind_now: "k_getBind K k w = (r, w') \<Longrightarrow> k_now K w \<le> k_now K w'"
    and getBind_missing: "k_getBind K k w = (Inl e, w') \<Longrightarrow> errors_Is e ApiNotFound \<Longrightarrow>
      cl_binds (view w) k = None"
    and updateBind_ok: "k_updateBind K b w = (Inr b', w') \<Longrightarrow>
      (\<exists>cur. cl_binds (view w) (nsname_of b) = Some cur \<and>
         view w' = put_bind (nsname_of b) (stored (updated cur b)) (view w))"
    and updateBind_err: "k_updateBind K b w = (Inl e, w') \<Longrightarrow>
      view w' = view w \<or>
      (\<exists>cur. cl_binds (view w) (nsname_of b) = Some cur \<and>
         view w' = put_bind (nsname_of b) (stored (updated cur b)) (view w))"
    and patchStatus_ok: "k_patchStatus K orig new w = (Inr b', w') \<Longrightarrow>
      (\<exists>cur. cl_binds (view w) (nsname_of new) = Some cur \<and> b' = patched orig new cur \<and>
         view w' = put_bind (nsname_of new) (Some b') (view w))"
    and patchStatus_err: "k_patchStatus K orig new w = (Inl e, w') \<Longrightarrow>
      view w' = view w \<or>
      (\<exists>cur. cl_binds (view w) (nsname_of new) = Some cur \<and>
         view w' = put_bind (nsname_of new) (Some (patched orig new cur)) (view w))"
    and createOrUpdateSA_ok: "k_createOrUpdateSA K k f w = (Inr sa, w') \<Longrightarrow>
      nsname_of sa = k \<and> view w' = put_sa k (Some sa) (view w) \<and>
      (\<forall>cur. cl_sas (view w) k = Some cur \<longrightarrow>
         om_UID sa = om_UID cur \<and> (f cur = Inr cur \<longrightarrow> sa = cur))"
    and createOrUpdateSA_err: "k_createOrUpdateSA K k f w = (Inl e, w') \<Longrightarrow>
      view w' = view w \<or> (\<exists>sa. nsname_of sa = k \<and> view w' = put_sa k (Some sa) (view w))"
    and setControllerReference_owner: "om_UID b' = om_UID b \<Longrightarrow> nsname_of b' = nsname_of b \<Longrightarrow>
      k_setControllerReference K b' x = k_setControllerReference K b x"
    and addFinalizer: "k_addFinalizer K fin fs = (if fin \<in> set fs then (False, fs) else (True, fs @ [fin]))"
    and removeFinalizer: "k_removeFinalizer K fin fs = filter (\<lambda>x. x \<noteq> fin) fs"
    and containsFinalizer: "k_containsFinalizer K fin fs \<longleftrightarrow> fin \<in> set fs"

text \<open>
  An API server that answers every call: what exists is found, what is accepted is done.
  Liveness is stated against it; the clock advances between the calls of different runs only.
\<close>

definition current_sa :: "nsname \<Rightarrow> cluster \<Rightarrow> ServiceAccount" where
  "current_sa k cl =
     (case cl_sas cl k of None \<Rightarrow> new_service_account (fst k) (snd k) | Some sa \<Rightarrow> sa)"

locale reliable_api = operator_api +
  assumes getBind_total: "cl_binds (view w) k = Some b \<Longrightarrow>
      \<exists>w'. k_getBind K k w = (Inr b, w') \<and> k_now K w' = k_now K w"
    and updateBind_total: "cl_binds (view w) (nsname_of b) = Some cur \<Longrightarrow>
      \<exists>b' w'. k_updateBind K b w = (Inr b', w') \<and> k_now K w' = k_now K w"
    and patchStatus_total: "cl_binds (view w) (nsname_of new) = Some cur \<Longrightarrow>
      \<exists>b' w'. k_patchStatus K orig new w = (Inr b', w') \<and> k_now K w' = k_now K w"
    and createOrUpdateSA_total: "f (current_sa k (view w)) = Inr sa \<Longrightarrow> nsname_of sa = k \<Longrightarrow>
      \<exists>sa w'. k_createOrUpdateSA K k f w = (Inr sa, w')"
    and listClusterRoles_total: "\<exists>rs w'. k_listClusterRoles K w = (Inr rs, w')"
    and listRoles_total: "\<exists>rs w'. k_listRoles K w = (Inr rs, w')"
    and createCRB_total: "k_createCRB K x w = (Some e, w') \<Longrightarrow> errors_Is e ApiAlreadyExists"
    and createRB_total: "CHR ''/'' \<notin> set (om_Namespace x) \<Longrightarrow> k_createRB K x w = (Some e, w') \<Longrightarrow>
      errors_Is e ApiAlreadyExists"
    and listCRBs_total: "\<exists>bs w'. k_listCRBs K lab v w = (Inr bs, w')"
    and listRBs_total: "\<exists>bs w'. k_listRBs K lab v w = (Inr bs, w')"
    and deleteCRB_total: "k_deleteCRB K x w = (Some e, w') \<Longrightarrow> errors_Is e ApiNotFound"
    and deleteRB_total: "k_deleteRB K x w = (Some e, w') \<Longrightarrow> errors_Is e ApiNotFound"

end
