(* ===== verification/Sync_Bindings.thy ===== *)
theory Sync_Bindings
  imports Kube_Api
begin

text \<open>
  The RBAC half of the operator
  (\<open>operator/internal/controller/userauthenticationbind_controller.go\<close>): which roles a
  bind is granted (\<open>groupMatches\<close>, \<open>bindingName\<close>), the loop that brings the owned
  bindings to that set (\<open>syncBindings\<close>) and the one that removes them all
  (\<open>deleteOwned\<close>). The loops over one kind of binding are verified once, inside the
  locale \<open>binding_kind\<close>.
\<close>

section \<open>Names\<close>

definition finalizer :: string where "finalizer = ''kargus.io/finalizer''"
definition groupAnnotation :: string where "groupAnnotation = ''rbac.kargus.io/group''"
definition renewedAtAnnotation :: string where "renewedAtAnnotation = ''kargus.io/renewed-at''"
definition ownerLabel :: string where "ownerLabel = ''kargus.io/owned-by''"
definition conditionReady :: string where "conditionReady = ''Ready''"
definition rbacAPIGroup :: string where "rbacAPIGroup = ''rbac.authorization.k8s.io''"
definition clusterRoleKind :: string where "clusterRoleKind = ''ClusterRole''"

definition groupMatches :: "(string \<Rightarrow> bool) \<Rightarrow> (string \<rightharpoonup> string) \<Rightarrow> bool" where
  "groupMatches groups annotations =
     (case annotations groupAnnotation of None \<Rightarrow> False | Some g \<Rightarrow> groups g)"

definition bindingName :: "string \<Rightarrow> string \<Rightarrow> string" where
  "bindingName cruid role = ''kargus-'' @ cruid @ ''-'' @ role"

definition owned_by :: "string \<Rightarrow> Binding \<Rightarrow> bool" where
  "owned_by uid b \<longleftrightarrow> om_Labels b ownerLabel = Some uid"

lemma same_binding_owned: "same_binding b b' \<Longrightarrow> owned_by uid b \<longleftrightarrow> owned_by uid b'"
  by (simp add: same_binding_def owned_by_def)

section \<open>The loops\<close>

text \<open>Create each binding; one that is already there is fine, any other error stops the loop.\<close>

fun ensureBindings ::
  "(Binding \<Rightarrow> 'w \<Rightarrow> goerror option \<times> 'w) \<Rightarrow> (Binding \<Rightarrow> string) \<Rightarrow> Binding list \<Rightarrow> 'w \<Rightarrow>
   goerror option \<times> 'w" where
  "ensureBindings create msg [] w = (None, w)"
| "ensureBindings create msg (b # bs) w =
     (case create b w of
        (None, w') \<Rightarrow> ensureBindings create msg bs w'
      | (Some e, w') \<Rightarrow>
        if errors_Is e ApiAlreadyExists then ensureBindings create msg bs w'
        else (Some (Wrap (msg b) e), w'))"

text \<open>Delete each binding that is not kept; one that is already gone is fine.\<close>

fun pruneBindings ::
  "(Binding \<Rightarrow> 'w \<Rightarrow> goerror option \<times> 'w) \<Rightarrow> (Binding \<Rightarrow> bool) \<Rightarrow> string \<Rightarrow> Binding list \<Rightarrow> 'w \<Rightarrow>
   goerror option \<times> 'w" where
  "pruneBindings delete keep msg [] w = (None, w)"
| "pruneBindings delete keep msg (b # bs) w =
     (if keep b then pruneBindings delete keep msg bs w
      else (case delete b w of
        (None, w') \<Rightarrow> pruneBindings delete keep msg bs w'
      | (Some e, w') \<Rightarrow>
        if errors_Is e ApiNotFound then pruneBindings delete keep msg bs w'
        else (Some (Wrap msg e), w')))"

text \<open>One kind of binding: create the desired ones, list the owned ones, prune the others.\<close>

definition syncKind ::
  "(Binding \<Rightarrow> 'w \<Rightarrow> goerror option \<times> 'w) \<Rightarrow> (string \<Rightarrow> string \<Rightarrow> 'w \<Rightarrow> Binding list res \<times> 'w) \<Rightarrow>
   (Binding \<Rightarrow> 'w \<Rightarrow> goerror option \<times> 'w) \<Rightarrow> (Binding \<Rightarrow> string) \<Rightarrow> string \<Rightarrow> string \<Rightarrow>
   (Binding \<Rightarrow> string) \<Rightarrow> string \<Rightarrow> Binding list \<Rightarrow> 'w \<Rightarrow> goerror option \<times> 'w" where
  "syncKind create list delete createMsg listMsg pruneMsg keyString cruid desired w =
     (case ensureBindings create createMsg desired w of
        (Some e, w1) \<Rightarrow> (Some e, w1)
      | (None, w1) \<Rightarrow>
        (case list ownerLabel cruid w1 of
           (Inl e, w2) \<Rightarrow> (Some (Wrap listMsg e), w2)
         | (Inr existing, w2) \<Rightarrow>
           pruneBindings delete (\<lambda>b. keyString b \<in> set (map keyString desired)) pruneMsg existing w2))"

text \<open>Delete every owned binding of one kind.\<close>

definition deleteKind ::
  "(string \<Rightarrow> string \<Rightarrow> 'w \<Rightarrow> Binding list res \<times> 'w) \<Rightarrow> (Binding \<Rightarrow> 'w \<Rightarrow> goerror option \<times> 'w) \<Rightarrow>
   string \<Rightarrow> string \<Rightarrow> string \<Rightarrow> 'w \<Rightarrow> goerror option \<times> 'w" where
  "deleteKind list delete listMsg delMsg cruid w =
     (case list ownerLabel cruid w of
        (Inl e, w1) \<Rightarrow> (Some (Wrap listMsg e), w1)
      | (Inr existing, w1) \<Rightarrow> pruneBindings delete (\<lambda>_. False) delMsg existing w1)"

section \<open>The operations\<close>

definition desiredCRBs :: "UserAuthenticationBind \<Rightarrow> Subject \<Rightarrow> ObjectMeta list \<Rightarrow> Binding list" where
  "desiredCRBs bind subject clusterRoles =
     (let groups = (\<lambda>g. g \<in> set (map crm_Gid (spec_Memberships (uab_Spec bind)))); cruid = om_UID bind
      in map (\<lambda>role.
           (new_binding [] (bindingName cruid (om_Name role))
             \<lparr>rr_APIGroup = rbacAPIGroup, rr_Kind = clusterRoleKind, rr_Name = om_Name role\<rparr> [subject])
           \<lparr>om_Labels := [ownerLabel \<mapsto> cruid]\<rparr>)
         (filter (\<lambda>role. groupMatches groups (om_Annotations role)) clusterRoles))"

definition desiredRBs :: "UserAuthenticationBind \<Rightarrow> Subject \<Rightarrow> ObjectMeta list \<Rightarrow> Binding list" where
  "desiredRBs bind subject roles =
     (let groups = (\<lambda>g. g \<in> set (map crm_Gid (spec_Memberships (uab_Spec bind)))); cruid = om_UID bind
      in map (\<lambda>role.
           (new_binding (om_Namespace role) (bindingName cruid (om_Name role))
             \<lparr>rr_APIGroup = rbacAPIGroup, rr_Kind = ''Role'', rr_Name = om_Name role\<rparr> [subject])
           \<lparr>om_Labels := [ownerLabel \<mapsto> cruid]\<rparr>)
         (filter (\<lambda>role. groupMatches groups (om_Annotations role)) roles))"

definition subject_of :: "ServiceAccount \<Rightarrow> Subject" where
  "subject_of sa =
     \<lparr>sub_Kind = ''ServiceAccount'', sub_Name = om_Name sa, sub_Namespace = om_Namespace sa\<rparr>"

definition rbKey :: "Binding \<Rightarrow> string" where
  "rbKey b = om_Namespace b @ ''/'' @ om_Name b"

definition syncClusterRoleBindings ::
  "('w, 'a) kube_scheme \<Rightarrow> string \<Rightarrow> Binding list \<Rightarrow> 'w \<Rightarrow> goerror option \<times> 'w" where
  "syncClusterRoleBindings K =
     syncKind (k_createCRB K) (k_listCRBs K) (k_deleteCRB K)
       (\<lambda>b. ''creating ClusterRoleBinding '' @ om_Name b)
       ''listing owned ClusterRoleBindings'' ''pruning ClusterRoleBinding'' om_Name"

definition syncRoleBindings ::
  "('w, 'a) kube_scheme \<Rightarrow> string \<Rightarrow> Binding list \<Rightarrow> 'w \<Rightarrow> goerror option \<times> 'w" where
  "syncRoleBindings K =
     syncKind (k_createRB K) (k_listRBs K) (k_deleteRB K)
       (\<lambda>b. ''creating RoleBinding '' @ rbKey b)
       ''listing owned RoleBindings'' ''pruning RoleBinding'' rbKey"

definition syncBindings ::
  "('w, 'a) kube_scheme \<Rightarrow> UserAuthenticationBind \<Rightarrow> ServiceAccount \<Rightarrow> 'w \<Rightarrow> goerror option \<times> 'w" where
  "syncBindings K bind sa w =
     (case k_listClusterRoles K w of
        (Inl e, w1) \<Rightarrow> (Some (Wrap ''listing ClusterRoles'' e), w1)
      | (Inr clusterRoles, w1) \<Rightarrow>
        (case syncClusterRoleBindings K (om_UID bind)
                (desiredCRBs bind (subject_of sa) clusterRoles) w1 of
           (Some e, w2) \<Rightarrow> (Some e, w2)
         | (None, w2) \<Rightarrow>
           (case k_listRoles K w2 of
              (Inl e, w3) \<Rightarrow> (Some (Wrap ''listing Roles'' e), w3)
            | (Inr roles, w3) \<Rightarrow>
              syncRoleBindings K (om_UID bind) (desiredRBs bind (subject_of sa) roles) w3)))"

definition deleteOwned :: "('w, 'a) kube_scheme \<Rightarrow> string \<Rightarrow> 'w \<Rightarrow> goerror option \<times> 'w" where
  "deleteOwned K cruid w =
     (case deleteKind (k_listCRBs K) (k_deleteCRB K) ''listing owned ClusterRoleBindings''
             ''deleting ClusterRoleBinding'' cruid w of
        (Some e, w1) \<Rightarrow> (Some e, w1)
      | (None, w1) \<Rightarrow>
        deleteKind (k_listRBs K) (k_deleteRB K) ''listing owned RoleBindings''
          ''deleting RoleBinding'' cruid w1)"

section \<open>The loops are correct for one kind of binding\<close>

text \<open>
  \<open>grown key m m' ds\<close>: the objects gained some of \<open>ds\<close> and lost none;
  \<open>shrunk m m' P\<close>: they lost only some with \<open>P\<close> and gained none.
\<close>

definition grown ::
  "(Binding \<Rightarrow> 'k) \<Rightarrow> ('k \<rightharpoonup> Binding) \<Rightarrow> ('k \<rightharpoonup> Binding) \<Rightarrow> Binding list \<Rightarrow> bool" where
  "grown key m m' ds \<longleftrightarrow>
     (\<forall>k b. m k = Some b \<longrightarrow> m' k = Some b) \<and>
     (\<forall>k b. m' k = Some b \<longrightarrow> m k = Some b \<or>
        m k = None \<and> (\<exists>d \<in> set ds. key d = k \<and> same_binding d b))"

definition shrunk :: "('k \<rightharpoonup> Binding) \<Rightarrow> ('k \<rightharpoonup> Binding) \<Rightarrow> (Binding \<Rightarrow> bool) \<Rightarrow> bool" where
  "shrunk m m' P \<longleftrightarrow>
     (\<forall>k b. m' k = Some b \<longrightarrow> m k = Some b) \<and>
     (\<forall>k b. m k = Some b \<longrightarrow> m' k = Some b \<or> m' k = None \<and> P b)"

lemma grown_refl [simp]: "grown key m m ds"
  by (simp add: grown_def)

lemma shrunk_refl [simp]: "shrunk m m P"
  by (simp add: shrunk_def)

lemma grown_keeps: "grown key m m' ds \<Longrightarrow> m k = Some b \<Longrightarrow> m' k = Some b"
  by (simp add: grown_def)

lemma grownD:
  "grown key m m' ds \<Longrightarrow> m' k = Some b \<Longrightarrow>
   m k = Some b \<or> m k = None \<and> (\<exists>d \<in> set ds. key d = k \<and> same_binding d b)"
  by (simp add: grown_def)

lemma shrunk_sub: "shrunk m m' P \<Longrightarrow> m' k = Some b \<Longrightarrow> m k = Some b"
  by (simp add: shrunk_def)

lemma shrunkD: "shrunk m m' P \<Longrightarrow> m k = Some b \<Longrightarrow> m' k = Some b \<or> m' k = None \<and> P b"
  by (simp add: shrunk_def)

lemma grown_Cons:
  assumes m1: "grown key m m1 [d]" and m': "grown key m1 m' ds"
  shows "grown key m m' (d # ds)"
  unfolding grown_def
proof (intro conjI allI impI)
  fix k b
  show "m' k = Some b" if "m k = Some b" using grown_keeps [OF m'] grown_keeps [OF m1] that by blast
  show "m k = Some b \<or> m k = None \<and> (\<exists>d' \<in> set (d # ds). key d' = k \<and> same_binding d' b)"
    if b: "m' k = Some b"
  proof (cases "m1 k")
    case None
    then have "m k = None" using grown_keeps [OF m1] by (cases "m k") auto
    with None grownD [OF m' b] show ?thesis by auto
  next
    case (Some c)
    then have "m1 k = Some b" using grown_keeps [OF m'] b by auto
    from grownD [OF m1 this] show ?thesis by auto
  qed
qed

lemma shrunk_trans:
  assumes m1: "shrunk m m1 P" and m': "shrunk m1 m' P"
  shows "shrunk m m' P"
  unfolding shrunk_def
proof (intro conjI allI impI)
  fix k b
  show "m k = Some b" if "m' k = Some b" using shrunk_sub [OF m1] shrunk_sub [OF m'] that by blast
  show "m' k = Some b \<or> m' k = None \<and> P b" if b: "m k = Some b"
  proof (cases "m1 k")
    case None
    then have "m' k = None" using shrunk_sub [OF m'] by (cases "m' k") auto
    with shrunkD [OF m1 b] None show ?thesis by simp
  next
    case (Some c)
    with shrunkD [OF m1 b] have "m1 k = Some b" by simp
    from shrunkD [OF m' this] show ?thesis .
  qed
qed

lemma shrunk_None: "shrunk m m' P \<Longrightarrow> m k = None \<Longrightarrow> m' k = None"
  by (cases "m' k") (auto simp: shrunk_def)

lemma grown_upd: "m (key d) = None \<Longrightarrow> same_binding d b \<Longrightarrow> grown key m (m(key d \<mapsto> b)) [d]"
  by (auto simp: grown_def)

lemma shrunk_del: "(\<And>b. m k = Some b \<Longrightarrow> P b) \<Longrightarrow> shrunk m (m(k := None)) P"
  by (auto simp: shrunk_def)

context binding_kind
begin

lemma create_grown: "create b w = (r, w') \<Longrightarrow> rest w' = rest w \<and> grown key (objs w) (objs w') [b]"
  using create_ok [of b w w'] create_exists [of b w _ w'] create_err [of b w _ w']
  by (cases r) (metis grown_refl grown_upd)+

lemma ensure_grown:
  "ensureBindings create msg ds w = (r, w') \<Longrightarrow>
   rest w' = rest w \<and> grown key (objs w) (objs w') ds"
proof (induction ds arbitrary: w)
  case (Cons d ds)
  obtain r1 w1 where c: "create d w = (r1, w1)" by fastforce
  note step = create_grown [OF c]
  show ?case
  proof (cases "ensureBindings create msg ds w1 = (r, w')")
    case True
    from Cons.IH [OF this] step show ?thesis by (auto intro: grown_Cons)
  next
    case False
    with Cons.prems c have "w' = w1" by (auto split: option.splits if_splits)
    with step show ?thesis by (auto intro: grown_Cons)
  qed
qed simp

lemma ensure_present:
  "ensureBindings create msg ds w = (None, w') \<Longrightarrow> d \<in> set ds \<Longrightarrow> objs w' (key d) \<noteq> None"
proof (induction ds arbitrary: w)
  case (Cons x ds)
  obtain r1 w1 where c: "create x w = (r1, w1)" by fastforce
  with Cons.prems(1) have rec: "ensureBindings create msg ds w1 = (None, w')"
    and r1: "r1 = None \<or> (\<exists>e. r1 = Some e \<and> errors_Is e ApiAlreadyExists)"
    by (auto split: option.splits if_splits)
  have "objs w1 (key x) \<noteq> None"
    using r1 create_ok [of x w w1] create_exists [of x w _ w1] c by auto
  with ensure_grown [OF rec] have "objs w' (key x) \<noteq> None" by (auto simp: grown_def)
  with Cons.IH [OF rec] Cons.prems(2) show ?case by auto
qed simp

lemma prune_shrunk:
  assumes "pruneBindings delete keep msg bs w = (r, w')"
    and "\<forall>b \<in> set bs. \<not> keep b \<longrightarrow> (\<forall>x. objs w (key b) = Some x \<longrightarrow> P x)"
  shows "rest w' = rest w \<and> shrunk (objs w) (objs w') P"
  using assms
proof (induction bs arbitrary: w)
  case (Cons b bs)
  show ?case
  proof (cases "keep b")
    case True
    with Cons show ?thesis by simp
  next
    case False
    obtain r1 w1 where d: "delete b w = (r1, w1)" by fastforce
    have "rest w1 = rest w" and "objs w1 = objs w \<or> objs w1 = (objs w)(key b := None)"
      using d delete_ok [of b w w1] delete_err [of b w _ w1] by (cases r1; auto)+
    with Cons.prems(2) False have step: "rest w1 = rest w" "shrunk (objs w) (objs w1) P"
      by (auto intro!: shrunk_del)
    show ?thesis
    proof (cases "pruneBindings delete keep msg bs w1 = (r, w')")
      case True
      have "\<forall>x \<in> set bs. \<not> keep x \<longrightarrow> (\<forall>y. objs w1 (key x) = Some y \<longrightarrow> P y)"
        using Cons.prems(2) step(2) by (auto simp: shrunk_def)
      from Cons.IH [OF True this] step show ?thesis by (auto intro: shrunk_trans)
    next
      case rec: False
      with Cons.prems(1) d False have "w' = w1" by (auto split: option.splits if_splits)
      with step show ?thesis by simp
    qed
  qed
qed simp

lemma prune_absent:
  "pruneBindings delete keep msg bs w = (None, w') \<Longrightarrow> b \<in> set bs \<Longrightarrow> \<not> keep b \<Longrightarrow>
   objs w' (key b) = None"
proof (induction bs arbitrary: w)
  case (Cons x bs)
  show ?case
  proof (cases "keep x")
    case True
    with Cons show ?thesis by auto
  next
    case False
    obtain r1 w1 where d: "delete x w = (r1, w1)" by fastforce
    with Cons.prems(1) False have rec: "pruneBindings delete keep msg bs w1 = (None, w')"
      and r1: "r1 = None \<or> (\<exists>e. r1 = Some e \<and> errors_Is e ApiNotFound)"
      by (auto split: option.splits if_splits)
    have "objs w1 (key x) = None"
      using r1 d delete_ok [of x w w1] delete_err [of x w _ w1] by auto
    then have "objs w' (key x) = None"
      using prune_shrunk [OF rec, where P = "\<lambda>_. True"] by (auto dest: shrunk_None)
    with Cons.IH [OF rec] Cons.prems(2,3) show ?thesis by auto
  qed
qed simp

text \<open>One round of synchronisation, whatever it returns: only owned objects go, only desired ones come.\<close>

lemma syncKind_frame:
  assumes run: "syncKind create list delete cm lm pm ks uid ds w = (r, w')"
  shows "rest w' = rest w"
    and "objs w k = Some b \<Longrightarrow> \<not> owned_by uid b \<Longrightarrow> objs w' k = Some b"
    and "objs w' k = Some b \<Longrightarrow>
      objs w k = Some b \<or> objs w k = None \<and> (\<exists>d \<in> set ds. key d = k \<and> same_binding d b)"
proof -
  obtain r1 w1 where e: "ensureBindings create cm ds w = (r1, w1)" by fastforce
  note g = ensure_grown [OF e]
  have "rest w' = rest w1 \<and> shrunk (objs w1) (objs w') (owned_by uid)"
  proof (cases r1)
    case None
    obtain r2 w2 where l: "list ownerLabel uid w1 = (r2, w2)" by fastforce
    show ?thesis
    proof (cases r2)
      case (Inl x)
      with run e None l list_err [of ownerLabel uid w1 x w2] show ?thesis by (simp add: syncKind_def)
    next
      case (Inr bs)
      note lk = list_ok [OF l [unfolded Inr]]
      with run e None l Inr have p: "pruneBindings delete (\<lambda>b. ks b \<in> set (map ks ds)) pm bs w2 = (r, w')"
        by (simp add: syncKind_def)
      have "rest w' = rest w2 \<and> shrunk (objs w2) (objs w') (owned_by uid)"
      proof (rule prune_shrunk [OF p], intro ballI impI allI)
        fix b x
        assume "b \<in> set bs" and x: "objs w2 (key b) = Some x"
        then obtain k where k: "objs w1 k = Some b" "owned_by uid b" using lk by (auto simp: owned_by_def)
        then have "key b = k" by (auto dest: objs_key)
        with x k lk show "owned_by uid x" by simp
      qed
      with lk show ?thesis by simp
    qed
  next
    case (Some x)
    with run e show ?thesis by (simp add: syncKind_def)
  qed
  then have rest: "rest w' = rest w1" and s: "shrunk (objs w1) (objs w') (owned_by uid)" by simp_all
  from rest g show "rest w' = rest w" by simp
  show "objs w' k = Some b" if "objs w k = Some b" and "\<not> owned_by uid b"
    using grown_keeps [OF conjunct2 [OF g] that(1)] shrunkD [OF s] that(2) by auto
  show "objs w k = Some b \<or> objs w k = None \<and> (\<exists>d \<in> set ds. key d = k \<and> same_binding d b)"
    if "objs w' k = Some b"
    using grownD [OF conjunct2 [OF g] shrunk_sub [OF s that]] .
qed

lemma syncKind_parts:
  assumes "syncKind create list delete cm lm pm ks uid ds w = (None, w')"
  obtains w1 w2 bs where "ensureBindings create cm ds w = (None, w1)"
    and "list ownerLabel uid w1 = (Inr bs, w2)"
    and "pruneBindings delete (\<lambda>b. ks b \<in> set (map ks ds)) pm bs w2 = (None, w')"
  using assms by (auto simp: syncKind_def split: prod.splits option.splits sum.splits)

text \<open>
  A round that returns \<open>nil\<close>: the owned objects are exactly those at the desired keys. The
  loop compares keys as strings (\<open>ks\<close>), which must tell the objects apart.
\<close>

lemma syncKind_ok:
  assumes run: "syncKind create list delete cm lm pm ks uid ds w = (None, w')"
    and good: "\<And>k b. objs w k = Some b \<Longrightarrow> good b" "\<And>d. d \<in> set ds \<Longrightarrow> good d"
      "\<And>b b'. same_binding b b' \<Longrightarrow> good b \<Longrightarrow> good b'"
    and ks: "\<And>b d. good b \<Longrightarrow> good d \<Longrightarrow> ks b = ks d \<longleftrightarrow> key b = key d"
  shows "objs w' k = Some b \<Longrightarrow> owned_by uid b \<Longrightarrow> k \<in> key ` set ds"
    and "d \<in> set ds \<Longrightarrow> objs w' (key d) \<noteq> None"
proof -
  obtain w1 w2 bs where e: "ensureBindings create cm ds w = (None, w1)"
    and l: "list ownerLabel uid w1 = (Inr bs, w2)"
    and p: "pruneBindings delete (\<lambda>b. ks b \<in> set (map ks ds)) pm bs w2 = (None, w')"
    using run by (rule syncKind_parts)
  note g = conjunct2 [OF ensure_grown [OF e]] and lk = list_ok [OF l]
  have good1: "good b" if "objs w1 k = Some b" for k b
    using grownD [OF g that] good by blast
  have kept: "ks b \<in> set (map ks ds) \<longleftrightarrow> k \<in> key ` set ds" if "objs w1 k = Some b" for k b
    using ks [OF good1 [OF that] good(2)] objs_key [OF that] by auto
  have s: "shrunk (objs w2) (objs w') (\<lambda>b. key b \<notin> key ` set ds)"
  proof (rule conjunct2 [OF prune_shrunk [OF p]], intro ballI impI allI)
    fix b x
    assume "b \<in> set bs" and nk: "ks b \<notin> set (map ks ds)" and x: "objs w2 (key b) = Some x"
    then obtain k where k: "objs w1 k = Some b" using lk by auto
    have "objs w1 (key b) = Some x" using x lk by simp
    then have "key x = key b" by (rule objs_key)
    with kept [OF k] nk objs_key [OF k] show "key x \<notin> key ` set ds" by simp
  qed
  show "k \<in> key ` set ds" if "objs w' k = Some b" and "owned_by uid b"
  proof (rule ccontr)
    assume "k \<notin> key ` set ds"
    have b: "objs w1 k = Some b" using shrunk_sub [OF s that(1)] lk by simp
    then have "b \<in> set bs" using lk that(2) by (auto simp: owned_by_def)
    then have "objs w' (key b) = None"
      using prune_absent [OF p] kept [OF b] \<open>k \<notin> key ` set ds\<close> by blast
    with objs_key [OF b] that(1) show False by simp
  qed
  show "objs w' (key d) \<noteq> None" if d: "d \<in> set ds"
  proof -
    obtain b where b: "objs w2 (key d) = Some b" using ensure_present [OF e d] lk by auto
    then have "key b = key d" using lk objs_key by simp
    with shrunkD [OF s b] d show ?thesis by auto
  qed
qed

text \<open>A round that finds everything in place changes nothing, whatever it returns.\<close>

lemma ensure_settled:
  "\<forall>d \<in> set ds. objs w (key d) \<noteq> None \<Longrightarrow> ensureBindings create msg ds w = (r, w') \<Longrightarrow>
   rest w' = rest w \<and> objs w' = objs w"
proof (induction ds arbitrary: w)
  case (Cons d ds)
  obtain r1 w1 where c: "create d w = (r1, w1)" by fastforce
  have "objs w (key d) \<noteq> None" using Cons.prems(1) by simp
  note step = create_present [OF this c]
  show ?case
  proof (cases "ensureBindings create msg ds w1 = (r, w')")
    case True
    with Cons.IH [of w1] Cons.prems(1) step show ?thesis by simp
  next
    case False
    with Cons.prems(2) c have "w' = w1" by (auto split: option.splits if_splits)
    with step show ?thesis by simp
  qed
qed simp

lemma prune_all_kept: "\<forall>b \<in> set bs. keep b \<Longrightarrow> pruneBindings delete keep msg bs w = (None, w)"
  by (induction bs) auto

lemma syncKind_settled:
  assumes run: "syncKind create list delete cm lm pm ks uid ds w = (r, w')"
    and present: "\<forall>d \<in> set ds. objs w (key d) \<noteq> None"
    and only: "\<And>k b. objs w k = Some b \<Longrightarrow> owned_by uid b \<Longrightarrow> ks b \<in> set (map ks ds)"
  shows "rest w' = rest w \<and> objs w' = objs w"
proof -
  obtain r1 w1 where e: "ensureBindings create cm ds w = (r1, w1)" by fastforce
  note s = ensure_settled [OF present e]
  show ?thesis
  proof (cases r1)
    case None
    obtain r2 w2 where l: "list ownerLabel uid w1 = (r2, w2)" by fastforce
    show ?thesis
    proof (cases r2)
      case (Inl x)
      with run e None l list_err [of ownerLabel uid w1 x w2] s show ?thesis by (simp add: syncKind_def)
    next
      case (Inr bs)
      note lk = list_ok [OF l [unfolded Inr]]
      then have "\<forall>b \<in> set bs. ks b \<in> set (map ks ds)" using only s by (auto simp: owned_by_def)
      then have "w' = w2" using run e None l Inr by (simp add: syncKind_def prune_all_kept)
      with lk s show ?thesis by simp
    qed
  next
    case (Some x)
    with run e s show ?thesis by (simp add: syncKind_def)
  qed
qed

text \<open>Deleting: only owned objects go; after \<open>nil\<close> none is left.\<close>

lemma deleteKind_frame:
  assumes run: "deleteKind list delete lm dm uid w = (r, w')"
  shows "rest w' = rest w \<and> shrunk (objs w) (objs w') (owned_by uid)"
proof -
  obtain r1 w1 where l: "list ownerLabel uid w = (r1, w1)" by fastforce
  show ?thesis
  proof (cases r1)
    case (Inl x)
    with run l list_err [of ownerLabel uid w x w1] show ?thesis by (simp add: deleteKind_def)
  next
    case (Inr bs)
    note lk = list_ok [OF l [unfolded Inr]]
    with run l Inr have p: "pruneBindings delete (\<lambda>_. False) dm bs w1 = (r, w')"
      by (simp add: deleteKind_def)
    have "rest w' = rest w1 \<and> shrunk (objs w1) (objs w') (owned_by uid)"
    proof (rule prune_shrunk [OF p], intro ballI impI allI)
      fix b x
      assume "b \<in> set bs" and x: "objs w1 (key b) = Some x"
      then obtain k where k: "objs w k = Some b" "owned_by uid b" using lk by (auto simp: owned_by_def)
      then have "key b = k" by (auto dest: objs_key)
      with x k lk show "owned_by uid x" by simp
    qed
    with lk show ?thesis by simp
  qed
qed

lemma deleteKind_ok:
  assumes run: "deleteKind list delete lm dm uid w = (None, w')"
  shows "objs w' k = Some b \<Longrightarrow> \<not> owned_by uid b"
proof
  assume b: "objs w' k = Some b" and o: "owned_by uid b"
  obtain bs w1 where l: "list ownerLabel uid w = (Inr bs, w1)"
    and p: "pruneBindings delete (\<lambda>_. False) dm bs w1 = (None, w')"
    using run by (auto simp: deleteKind_def split: prod.splits sum.splits)
  note lk = list_ok [OF l]
  have "objs w k = Some b" using deleteKind_frame [OF run] b by (auto dest: shrunk_sub)
  then have "b \<in> set bs" and "key b = k" using lk o by (auto simp: owned_by_def objs_key)
  with prune_absent [OF p, of b] b show False by simp
qed

end

end
