(* ===== verification/Sync_Correct.thy ===== *)
theory Sync_Correct
  imports Sync_Bindings
begin

text \<open>
  What the operator promises about access, and that \<open>syncBindings\<close> and \<open>deleteOwned\<close>
  keep the promise. The specification is in terms of roles, not of binding objects: the
  roles a bind is entitled to by its memberships, and the roles the owned bindings grant to
  its ServiceAccount. The proofs are inside \<open>rbac_api\<close>; the properties state its laws as
  their hypothesis.
\<close>

section \<open>Specification\<close>

definition member_of :: "UserAuthenticationBind \<Rightarrow> string \<Rightarrow> bool" where
  "member_of bind g \<longleftrightarrow> g \<in> crm_Gid ` set (spec_Memberships (uab_Spec bind))"

text \<open>The (cluster) roles annotated with a group of the bind.\<close>

definition entitled :: "UserAuthenticationBind \<Rightarrow> ObjectMeta list \<Rightarrow> ObjectMeta set" where
  "entitled bind roles =
     {r \<in> set roles. \<exists>g. om_Annotations r groupAnnotation = Some g \<and> member_of bind g}"

text \<open>The roles that owned bindings grant to a subject, by name and by namespace and name.\<close>

definition granted_cluster_roles :: "string \<Rightarrow> Subject \<Rightarrow> cluster \<Rightarrow> string set" where
  "granted_cluster_roles uid subj cl =
     {rr_Name (b_RoleRef b) | b n. cl_crbs cl n = Some b \<and> owned_by uid b \<and>
        rr_Kind (b_RoleRef b) = clusterRoleKind \<and> subj \<in> set (b_Subjects b)}"

definition granted_roles :: "string \<Rightarrow> Subject \<Rightarrow> cluster \<Rightarrow> nsname set" where
  "granted_roles uid subj cl =
     {(om_Namespace b, rr_Name (b_RoleRef b)) | b n. cl_rbs cl n = Some b \<and> owned_by uid b \<and>
        rr_Kind (b_RoleRef b) = ''Role'' \<and> subj \<in> set (b_Subjects b)}"

text \<open>
  A binding as the operator writes it. \<open>canonical\<close> is the invariant of the cluster: every
  binding that is owned by the bind, or carries a name the operator would use for it, is
  one the operator wrote for this subject.
\<close>

definition canonical_binding :: "string \<Rightarrow> Subject \<Rightarrow> string \<Rightarrow> Binding \<Rightarrow> bool" where
  "canonical_binding uid subj kind b \<longleftrightarrow>
     owned_by uid b \<and> om_Name b = bindingName uid (rr_Name (b_RoleRef b)) \<and>
     rr_Kind (b_RoleRef b) = kind \<and> b_Subjects b = [subj]"

definition canonical :: "string \<Rightarrow> Subject \<Rightarrow> cluster \<Rightarrow> bool" where
  "canonical uid subj cl \<longleftrightarrow>
     (\<forall>n b. cl_crbs cl n = Some b \<longrightarrow> owned_by uid b \<or> (\<exists>r. om_Name b = bindingName uid r) \<longrightarrow>
        canonical_binding uid subj clusterRoleKind b) \<and>
     (\<forall>n b. cl_rbs cl n = Some b \<longrightarrow> owned_by uid b \<or> (\<exists>r. om_Name b = bindingName uid r) \<longrightarrow>
        canonical_binding uid subj ''Role'' b)"

lemma bindingName_inj [simp]: "bindingName uid r = bindingName uid r' \<longleftrightarrow> r = r'"
  by (simp add: bindingName_def)

lemma groupMatches_entitled:
  "r \<in> set roles \<Longrightarrow>
   groupMatches (\<lambda>g. g \<in> set (map crm_Gid (spec_Memberships (uab_Spec bind)))) (om_Annotations r)
     \<longleftrightarrow> r \<in> entitled bind roles"
  by (auto simp: groupMatches_def entitled_def member_of_def split: option.splits)

lemma desiredCRBs_set:
  "d \<in> set (desiredCRBs bind subj roles) \<longleftrightarrow>
   (\<exists>r \<in> entitled bind roles. d =
      (new_binding [] (bindingName (om_UID bind) (om_Name r))
        \<lparr>rr_APIGroup = rbacAPIGroup, rr_Kind = clusterRoleKind, rr_Name = om_Name r\<rparr> [subj])
      \<lparr>om_Labels := [ownerLabel \<mapsto> om_UID bind]\<rparr>)"
  using groupMatches_entitled [of _ roles bind] by (auto simp: desiredCRBs_def Let_def entitled_def)

lemma desiredRBs_set:
  "d \<in> set (desiredRBs bind subj roles) \<longleftrightarrow>
   (\<exists>r \<in> entitled bind roles. d =
      (new_binding (om_Namespace r) (bindingName (om_UID bind) (om_Name r))
        \<lparr>rr_APIGroup = rbacAPIGroup, rr_Kind = ''Role'', rr_Name = om_Name r\<rparr> [subj])
      \<lparr>om_Labels := [ownerLabel \<mapsto> om_UID bind]\<rparr>)"
  using groupMatches_entitled [of _ roles bind] by (auto simp: desiredRBs_def Let_def entitled_def)

lemma desired_canonical:
  "d \<in> set (desiredCRBs bind subj roles) \<Longrightarrow> same_binding d b \<Longrightarrow>
   canonical_binding (om_UID bind) subj clusterRoleKind b"
  "d \<in> set (desiredRBs bind subj roles) \<Longrightarrow> same_binding d b \<Longrightarrow>
   canonical_binding (om_UID bind) subj ''Role'' b"
  by (auto simp: desiredCRBs_set desiredRBs_set same_binding_def canonical_binding_def owned_by_def)

lemma desired_keys:
  "om_Name ` set (desiredCRBs bind subj roles) =
     (\<lambda>r. bindingName (om_UID bind) (om_Name r)) ` entitled bind roles"
  "nsname_of ` set (desiredRBs bind subj roles) =
     (\<lambda>r. (om_Namespace r, bindingName (om_UID bind) (om_Name r))) ` entitled bind roles"
proof -
  have f: "{r \<in> set roles. groupMatches (\<lambda>g. g \<in> set (map crm_Gid (spec_Memberships (uab_Spec bind))))
      (om_Annotations r)} = entitled bind roles"
    using groupMatches_entitled [of _ roles bind] by (auto simp: entitled_def)
  show "om_Name ` set (desiredCRBs bind subj roles) =
     (\<lambda>r. bindingName (om_UID bind) (om_Name r)) ` entitled bind roles"
    unfolding f [symmetric] by (simp add: desiredCRBs_def Let_def image_image)
  show "nsname_of ` set (desiredRBs bind subj roles) =
     (\<lambda>r. (om_Namespace r, bindingName (om_UID bind) (om_Name r))) ` entitled bind roles"
    unfolding f [symmetric] by (simp add: desiredRBs_def Let_def image_image nsname_of_def)
qed

lemma rbKey_inj:
  assumes "CHR ''/'' \<notin> set (om_Namespace b)" and "CHR ''/'' \<notin> set (om_Namespace d)"
  shows "rbKey b = rbKey d \<longleftrightarrow> nsname_of b = nsname_of d"
proof
  assume eq: "rbKey b = rbKey d"
  have ns: "takeWhile (\<lambda>c. c \<noteq> CHR ''/'') (rbKey x) = om_Namespace x"
    if "CHR ''/'' \<notin> set (om_Namespace x)" for x :: Binding
  proof -
    have "\<And>c. c \<in> set (om_Namespace x) \<Longrightarrow> c \<noteq> CHR ''/''" using that by auto
    then show ?thesis by (simp add: rbKey_def takeWhile_append2)
  qed
  from ns [OF assms(1)] ns [OF assms(2)] eq have "om_Namespace b = om_Namespace d" by simp
  with eq show "nsname_of b = nsname_of d" by (simp add: rbKey_def nsname_of_def)
qed (simp add: rbKey_def nsname_of_def)

section \<open>Correctness\<close>

text \<open>What one run of \<open>syncBindings\<close> may do to the cluster, whatever it returns.\<close>

definition sync_frame :: "UserAuthenticationBind \<Rightarrow> Subject \<Rightarrow> cluster \<Rightarrow> cluster \<Rightarrow> bool" where
  "sync_frame bind subj cl cl' \<longleftrightarrow>
     cl' = cl\<lparr>cl_crbs := cl_crbs cl', cl_rbs := cl_rbs cl'\<rparr> \<and>
     (\<forall>n b. cl_crbs cl n = Some b \<longrightarrow> \<not> owned_by (om_UID bind) b \<longrightarrow> cl_crbs cl' n = Some b) \<and>
     (\<forall>n b. cl_crbs cl' n = Some b \<longrightarrow> cl_crbs cl n = Some b \<or>
        cl_crbs cl n = None \<and>
        (\<exists>d \<in> set (desiredCRBs bind subj (cl_clusterroles cl)). om_Name d = n \<and> same_binding d b)) \<and>
     (\<forall>k b. cl_rbs cl k = Some b \<longrightarrow> \<not> owned_by (om_UID bind) b \<longrightarrow> cl_rbs cl' k = Some b) \<and>
     (\<forall>k b. cl_rbs cl' k = Some b \<longrightarrow> cl_rbs cl k = Some b \<or>
        cl_rbs cl k = None \<and>
        (\<exists>d \<in> set (desiredRBs bind subj (cl_roles cl)). nsname_of d = k \<and> same_binding d b))"

lemma sync_frame_refl [simp]: "sync_frame bind subj cl cl"
  by (simp add: sync_frame_def)

lemma sync_frame_new:
  "sync_frame bind subj cl cl' \<Longrightarrow> cl_crbs cl' n = Some b \<Longrightarrow>
   cl_crbs cl n = Some b \<or>
   (\<exists>d \<in> set (desiredCRBs bind subj (cl_clusterroles cl)). om_Name d = n \<and> same_binding d b)"
  "sync_frame bind subj cl cl' \<Longrightarrow> cl_rbs cl' k = Some b \<Longrightarrow>
   cl_rbs cl k = Some b \<or>
   (\<exists>d \<in> set (desiredRBs bind subj (cl_roles cl)). nsname_of d = k \<and> same_binding d b)"
  unfolding sync_frame_def by blast+

lemma sync_frame_canonical:
  assumes f: "sync_frame bind subj cl cl'" and c: "canonical (om_UID bind) subj cl"
  shows "canonical (om_UID bind) subj cl'"
  unfolding canonical_def
proof (intro conjI allI impI)
  fix n b
  assume b: "cl_crbs cl' n = Some b"
    and o: "owned_by (om_UID bind) b \<or> (\<exists>r. om_Name b = bindingName (om_UID bind) r)"
  from sync_frame_new(1) [OF f b] show "canonical_binding (om_UID bind) subj clusterRoleKind b"
    using c o by (auto simp: canonical_def intro: desired_canonical)
next
  fix k b
  assume b: "cl_rbs cl' k = Some b"
    and o: "owned_by (om_UID bind) b \<or> (\<exists>r. om_Name b = bindingName (om_UID bind) r)"
  from sync_frame_new(2) [OF f b] show "canonical_binding (om_UID bind) subj ''Role'' b"
    using c o by (cases k) (auto simp: canonical_def intro: desired_canonical)
qed

text \<open>
  From objects to roles: where the owned bindings are canonical and sit exactly at the
  desired keys, they grant exactly the roles the bind is entitled to.
\<close>

lemma granted_cluster_roles_eq:
  assumes c: "canonical (om_UID bind) subj cl"
    and key: "\<And>n b. cl_crbs cl n = Some b \<Longrightarrow> om_Name b = n"
    and only: "\<And>n b. cl_crbs cl n = Some b \<Longrightarrow> owned_by (om_UID bind) b \<Longrightarrow>
      n \<in> om_Name ` set (desiredCRBs bind subj roles)"
    and all: "\<And>n. n \<in> om_Name ` set (desiredCRBs bind subj roles) \<Longrightarrow> cl_crbs cl n \<noteq> None"
  shows "granted_cluster_roles (om_UID bind) subj cl = om_Name ` entitled bind roles"
proof (intro equalityI subsetI)
  fix x
  assume "x \<in> granted_cluster_roles (om_UID bind) subj cl"
  then obtain n b where b: "cl_crbs cl n = Some b" "owned_by (om_UID bind) b" "x = rr_Name (b_RoleRef b)"
    unfolding granted_cluster_roles_def by blast
  then have "n = bindingName (om_UID bind) x"
    using c key [OF b(1)] unfolding canonical_def canonical_binding_def by blast
  with only [OF b(1,2)] show "x \<in> om_Name ` entitled bind roles" by (auto simp: desired_keys)
next
  fix x
  assume "x \<in> om_Name ` entitled bind roles"
  then have "bindingName (om_UID bind) x \<in> om_Name ` set (desiredCRBs bind subj roles)"
    by (auto simp: desired_keys)
  with all obtain b where b: "cl_crbs cl (bindingName (om_UID bind) x) = Some b" by blast
  then have n: "om_Name b = bindingName (om_UID bind) x" by (rule key)
  then have "canonical_binding (om_UID bind) subj clusterRoleKind b"
    using c b unfolding canonical_def by blast
  with b n show "x \<in> granted_cluster_roles (om_UID bind) subj cl"
    unfolding granted_cluster_roles_def canonical_binding_def by force
qed

lemma granted_roles_eq:
  assumes c: "canonical (om_UID bind) subj cl"
    and key: "\<And>k b. cl_rbs cl k = Some b \<Longrightarrow> nsname_of b = k"
    and only: "\<And>k b. cl_rbs cl k = Some b \<Longrightarrow> owned_by (om_UID bind) b \<Longrightarrow>
      k \<in> nsname_of ` set (desiredRBs bind subj roles)"
    and all: "\<And>k. k \<in> nsname_of ` set (desiredRBs bind subj roles) \<Longrightarrow> cl_rbs cl k \<noteq> None"
  shows "granted_roles (om_UID bind) subj cl = nsname_of ` entitled bind roles"
proof (intro equalityI subsetI)
  fix x
  assume "x \<in> granted_roles (om_UID bind) subj cl"
  then obtain k b where b: "cl_rbs cl k = Some b" "owned_by (om_UID bind) b"
    "x = (om_Namespace b, rr_Name (b_RoleRef b))"
    unfolding granted_roles_def by blast
  have "om_Name b = bindingName (om_UID bind) (rr_Name (b_RoleRef b))"
    using c b(1,2) unfolding canonical_def canonical_binding_def by blast
  with key [OF b(1)] b(3) have "k = (fst x, bindingName (om_UID bind) (snd x))"
    by (simp add: nsname_of_def)
  with only [OF b(1,2)] show "x \<in> nsname_of ` entitled bind roles"
    unfolding desired_keys by (cases x) (auto simp: nsname_of_def)
next
  fix x
  assume "x \<in> nsname_of ` entitled bind roles"
  then have "(fst x, bindingName (om_UID bind) (snd x)) \<in> nsname_of ` set (desiredRBs bind subj roles)"
    unfolding desired_keys by (auto simp: nsname_of_def)
  with all obtain b where b: "cl_rbs cl (fst x, bindingName (om_UID bind) (snd x)) = Some b" by blast
  from key [OF b] have n: "om_Name b = bindingName (om_UID bind) (snd x)" "om_Namespace b = fst x"
    by (simp_all add: nsname_of_def)
  then have cb: "canonical_binding (om_UID bind) subj ''Role'' b"
    using c b unfolding canonical_def by blast
  then have "rr_Name (b_RoleRef b) = snd x" using n(1) by (simp add: canonical_binding_def)
  with cb b n(2) show "x \<in> granted_roles (om_UID bind) subj cl"
    unfolding granted_roles_def canonical_binding_def by force
qed

context rbac_api
begin

lemma view_rest_crb:
  "(view w')\<lparr>cl_crbs := Map.empty\<rparr> = (view w)\<lparr>cl_crbs := Map.empty\<rparr> \<Longrightarrow>
   view w' = (view w)\<lparr>cl_crbs := cl_crbs (view w')\<rparr>"
  by (cases "view w"; cases "view w'") simp

lemma view_rest_rb:
  "(view w')\<lparr>cl_rbs := Map.empty\<rparr> = (view w)\<lparr>cl_rbs := Map.empty\<rparr> \<Longrightarrow>
   view w' = (view w)\<lparr>cl_rbs := cl_rbs (view w')\<rparr>"
  by (cases "view w"; cases "view w'") simp

text \<open>The stages of a run: the ClusterRoleBindings first, then the RoleBindings.\<close>

lemma syncBindings_stages:
  assumes run: "syncBindings K bind sa w = (r, w')"
  obtains (unread) "view w' = view w" and "r \<noteq> None"
  | (first) w1 r1 w2 where "view w1 = view w"
      and "syncClusterRoleBindings K (om_UID bind)
             (desiredCRBs bind (subject_of sa) (cl_clusterroles (view w))) w1 = (r1, w2)"
      and "view w' = view w2" and "r \<noteq> None"
  | (both) w1 w2 w3 where "view w1 = view w"
      and "syncClusterRoleBindings K (om_UID bind)
             (desiredCRBs bind (subject_of sa) (cl_clusterroles (view w))) w1 = (None, w2)"
      and "view w3 = view w2"
      and "syncRoleBindings K (om_UID bind)
             (desiredRBs bind (subject_of sa) (cl_roles (view w2))) w3 = (r, w')"
proof -
  obtain r0 w1 where l1: "k_listClusterRoles K w = (r0, w1)" by fastforce
  note v1 = listClusterRoles_view [OF l1]
  show thesis
  proof (cases r0)
    case (Inl e)
    with run l1 v1 show thesis by (intro unread) (auto simp: syncBindings_def)
  next
    case (Inr crs)
    then have crs: "crs = cl_clusterroles (view w)" using listClusterRoles_ok l1 by simp
    obtain r1 w2 where s1: "syncClusterRoleBindings K (om_UID bind)
        (desiredCRBs bind (subject_of sa) (cl_clusterroles (view w))) w1 = (r1, w2)" by fastforce
    obtain r2 w3 where l2: "k_listRoles K w2 = (r2, w3)" by fastforce
    note v3 = listRoles_view [OF l2]
    show thesis
    proof (cases "r1 = None \<and> (\<exists>rs. r2 = Inr rs)")
      case True
      then obtain rs where rs: "r1 = None" "r2 = Inr rs" by blast
      with listRoles_ok l2 have "rs = cl_roles (view w2)" by simp
      with run l1 Inr crs s1 l2 rs show thesis
        by (intro both [OF v1 _ v3]) (simp_all add: syncBindings_def)
    next
      case False
      with run l1 Inr crs s1 l2 v3 show thesis
        by (intro first [OF v1 s1]) (auto simp: syncBindings_def split: option.splits sum.splits)
    qed
  qed
qed

lemma syncBindings_frame:
  assumes run: "syncBindings K bind sa w = (r, w')"
  shows "sync_frame bind (subject_of sa) (view w) (view w')"
  using run
proof (cases rule: syncBindings_stages)
  case unread
  then show ?thesis by simp
next
  case (first w1 r1 w2)
  note f = crb.syncKind_frame [OF first(2) [unfolded syncClusterRoleBindings_def]]
  from view_rest_crb [OF f(1)] first have v: "view w' = (view w)\<lparr>cl_crbs := cl_crbs (view w')\<rparr>" by simp
  have rb: "cl_rbs (view w') = cl_rbs (view w)" by (subst v) simp
  have "view w' = (view w)\<lparr>cl_crbs := cl_crbs (view w'), cl_rbs := cl_rbs (view w')\<rparr>"
    unfolding rb by (subst v) simp
  then show ?thesis unfolding sync_frame_def using f(2,3) first rb by simp
next
  case (both w1 w2 w3)
  note f = crb.syncKind_frame [OF both(2) [unfolded syncClusterRoleBindings_def]]
  note g = rb.syncKind_frame [OF both(4) [unfolded syncRoleBindings_def]]
  have v2: "view w2 = (view w)\<lparr>cl_crbs := cl_crbs (view w2)\<rparr>" using view_rest_crb [OF f(1)] both(1) by simp
  have v': "view w' = (view w2)\<lparr>cl_rbs := cl_rbs (view w')\<rparr>" using view_rest_rb [OF g(1)] both(3) by simp
  have e: "cl_crbs (view w') = cl_crbs (view w2)" "cl_rbs (view w2) = cl_rbs (view w)"
    "cl_roles (view w2) = cl_roles (view w)"
    by (subst v', simp) (subst v2, simp)+
  have "view w' = (view w)\<lparr>cl_crbs := cl_crbs (view w'), cl_rbs := cl_rbs (view w')\<rparr>"
    unfolding e(1) by (subst v', subst v2, simp)
  then show ?thesis
    unfolding sync_frame_def using f(2,3) g(2,3) both(1,3) e by simp
qed

lemma syncBindings_grants:
  assumes run: "syncBindings K bind sa w = (None, w')"
    and c: "canonical (om_UID bind) (subject_of sa) (view w)"
  shows "granted_cluster_roles (om_UID bind) (subject_of sa) (view w') =
           om_Name ` entitled bind (cl_clusterroles (view w))"
    and "granted_roles (om_UID bind) (subject_of sa) (view w') =
           nsname_of ` entitled bind (cl_roles (view w))"
proof -
  note frame = syncBindings_frame [OF run]
  note c' = sync_frame_canonical [OF frame c]
  obtain w1 w2 w3 where v1: "view w1 = view w"
    and s1: "syncClusterRoleBindings K (om_UID bind)
             (desiredCRBs bind (subject_of sa) (cl_clusterroles (view w))) w1 = (None, w2)"
    and v3: "view w3 = view w2"
    and s2: "syncRoleBindings K (om_UID bind)
             (desiredRBs bind (subject_of sa) (cl_roles (view w2))) w3 = (None, w')"
    using run by (rule syncBindings_stages) auto
  note f = crb.syncKind_frame [OF s1 [unfolded syncClusterRoleBindings_def]]
  note g = rb.syncKind_frame [OF s2 [unfolded syncRoleBindings_def]]
  have v': "view w' = (view w2)\<lparr>cl_rbs := cl_rbs (view w')\<rparr>" using view_rest_rb [OF g(1)] v3 by simp
  have v2: "view w2 = (view w)\<lparr>cl_crbs := cl_crbs (view w2)\<rparr>" using view_rest_crb [OF f(1)] v1 by simp
  have crbs: "cl_crbs (view w') = cl_crbs (view w2)" by (subst v') simp
  have roles: "cl_roles (view w2) = cl_roles (view w)" by (subst v2) simp
  note k1 = crb.syncKind_ok [OF s1 [unfolded syncClusterRoleBindings_def], where good = "\<lambda>_. True", simplified]
  show "granted_cluster_roles (om_UID bind) (subject_of sa) (view w') =
      om_Name ` entitled bind (cl_clusterroles (view w))"
    using k1 by (intro granted_cluster_roles_eq [OF c']) (auto simp: crbs dest: crb.objs_key)
  have good: "CHR ''/'' \<notin> set (om_Namespace d)"
    if "d \<in> set (desiredRBs bind (subject_of sa) (cl_roles (view w2)))" for d
    using that role_ns by (auto simp: desiredRBs_set entitled_def)
  note k2 = rb.syncKind_ok [OF s2 [unfolded syncRoleBindings_def],
      where good = "\<lambda>b. CHR ''/'' \<notin> set (om_Namespace b)", OF rb_ns good _ rbKey_inj]
  show "granted_roles (om_UID bind) (subject_of sa) (view w') =
      nsname_of ` entitled bind (cl_roles (view w))"
    unfolding roles [symmetric]
    using k2 by (intro granted_roles_eq [OF c'])
      (auto simp: same_binding_def dest: rb.objs_key)
qed

lemma deleteOwned_frame:
  assumes run: "deleteOwned K uid w = (r, w')"
  shows "view w' = (view w)\<lparr>cl_crbs := cl_crbs (view w'), cl_rbs := cl_rbs (view w')\<rparr>"
    and "shrunk (cl_crbs (view w)) (cl_crbs (view w')) (owned_by uid)"
    and "shrunk (cl_rbs (view w)) (cl_rbs (view w')) (owned_by uid)"
    and "r = None \<Longrightarrow> cl_crbs (view w') n = Some b \<Longrightarrow> \<not> owned_by uid b"
    and "r = None \<Longrightarrow> cl_rbs (view w') k = Some b \<Longrightarrow> \<not> owned_by uid b"
proof -
  obtain r1 w1 where d1: "deleteKind (k_listCRBs K) (k_deleteCRB K) ''listing owned ClusterRoleBindings''
      ''deleting ClusterRoleBinding'' uid w = (r1, w1)" by fastforce
  note f1 = crb.deleteKind_frame [OF d1]
  have v1: "view w1 = (view w)\<lparr>cl_crbs := cl_crbs (view w1)\<rparr>" using view_rest_crb f1 by blast
  have rb1: "cl_rbs (view w1) = cl_rbs (view w)" by (subst v1) simp
  have "view w' = (view w)\<lparr>cl_crbs := cl_crbs (view w'), cl_rbs := cl_rbs (view w')\<rparr> \<and>
    shrunk (cl_crbs (view w)) (cl_crbs (view w')) (owned_by uid) \<and>
    shrunk (cl_rbs (view w)) (cl_rbs (view w')) (owned_by uid) \<and>
    (r = None \<longrightarrow> (\<forall>n b. cl_crbs (view w') n = Some b \<longrightarrow> \<not> owned_by uid b) \<and>
      (\<forall>n b. cl_rbs (view w') n = Some b \<longrightarrow> \<not> owned_by uid b))"
  proof (cases r1)
    case (Some e)
    with run d1 have "w' = w1" "r \<noteq> None" by (auto simp: deleteOwned_def)
    with f1 rb1 v1 show ?thesis by auto
  next
    case None
    with run d1 have d2: "deleteKind (k_listRBs K) (k_deleteRB K) ''listing owned RoleBindings''
        ''deleting RoleBinding'' uid w1 = (r, w')" by (simp add: deleteOwned_def)
    note f2 = rb.deleteKind_frame [OF d2]
    have v': "view w' = (view w1)\<lparr>cl_rbs := cl_rbs (view w')\<rparr>" using view_rest_rb f2 by blast
    have crb': "cl_crbs (view w') = cl_crbs (view w1)" by (subst v') simp
    have "view w' = (view w)\<lparr>cl_crbs := cl_crbs (view w'), cl_rbs := cl_rbs (view w')\<rparr>"
      unfolding crb' by (subst v', subst v1) simp
    moreover have "\<not> owned_by uid b" if "cl_crbs (view w') n = Some b" for n b
      using crb.deleteKind_ok [OF d1 [unfolded None]] that crb' by simp
    moreover have "\<not> owned_by uid b" if "r = None" "cl_rbs (view w') k = Some b" for k b
      using rb.deleteKind_ok [of _ _ uid w1 w'] d2 that by blast
    ultimately show ?thesis using f1 f2 rb1 crb' by auto
  qed
  then show "view w' = (view w)\<lparr>cl_crbs := cl_crbs (view w'), cl_rbs := cl_rbs (view w')\<rparr>"
    and "shrunk (cl_crbs (view w)) (cl_crbs (view w')) (owned_by uid)"
    and "shrunk (cl_rbs (view w)) (cl_rbs (view w')) (owned_by uid)"
    and "r = None \<Longrightarrow> cl_crbs (view w') n = Some b \<Longrightarrow> \<not> owned_by uid b"
    and "r = None \<Longrightarrow> cl_rbs (view w') k = Some b \<Longrightarrow> \<not> owned_by uid b"
    by blast+
qed

end

end
