(* ===== verification/Controller.thy ===== *)
theory Controller
  imports Sync_Correct
begin

text \<open>
  The reconciler of \<open>operator/internal/controller/userauthenticationbind_controller.go\<close>:
  \<open>Reconcile\<close> with its phases (finalizer, pending, expiry, binding, binded), the deletion
  path, the ServiceAccount and the status patch. \<open>DeepCopy\<close> of the resource is the value
  itself. Logging is left out.
\<close>

record Result =
  RequeueAfter :: duration

definition result_ok :: "Result res" where
  "result_ok = Inr \<lparr>RequeueAfter = 0\<rparr>"

definition done_or :: "goerror option \<Rightarrow> Result res" where
  "done_or r = (case r of None \<Rightarrow> result_ok | Some e \<Rightarrow> Inl e)"

section \<open>Status\<close>

text \<open>
  \<open>updatePhase\<close> sets the phase and the Ready condition on the object and sends the merge
  patch against \<open>orig\<close>. The client reads the server's answer back into the object.
\<close>

definition set_phase ::
  "('w, 'a) kube_scheme \<Rightarrow> UserAuthenticationBind \<Rightarrow> BindPhase \<Rightarrow> ConditionStatus \<Rightarrow> string \<Rightarrow> string \<Rightarrow>
   time \<Rightarrow> UserAuthenticationBind" where
  "set_phase K bind phase condStatus reason msg now =
     bind\<lparr>uab_Status :=
       \<lparr>st_Conditions =
          k_setStatusCondition K
            \<lparr>cond_Type = conditionReady, cond_Status = condStatus, cond_Reason = reason,
             cond_Message = msg, cond_LastTransitionTime = 0\<rparr> now (st_Conditions (uab_Status bind)),
        st_Sv = (st_Sv (uab_Status bind))\<lparr>sv_Status := phase\<rparr>\<rparr>\<rparr>"

definition updatePhase ::
  "('w, 'a) kube_scheme \<Rightarrow> UserAuthenticationBind \<Rightarrow> UserAuthenticationBind \<Rightarrow> BindPhase \<Rightarrow>
   ConditionStatus \<Rightarrow> string \<Rightarrow> string \<Rightarrow> 'w \<Rightarrow> (goerror option \<times> UserAuthenticationBind) \<times> 'w" where
  "updatePhase K orig bind phase condStatus reason msg w =
     (let bind' = set_phase K bind phase condStatus reason msg (k_now K w)
      in case k_patchStatus K orig bind' w of
           (Inl e, w') \<Rightarrow> ((Some (Wrap ''updating status'' e), bind'), w')
         | (Inr b, w') \<Rightarrow> ((None, b), w'))"

text \<open>\<open>return ctrl.Result{}, r.updatePhase(\<dots>)\<close>\<close>

definition finish_with ::
  "('w, 'a) kube_scheme \<Rightarrow> UserAuthenticationBind \<Rightarrow> UserAuthenticationBind \<Rightarrow> BindPhase \<Rightarrow>
   ConditionStatus \<Rightarrow> string \<Rightarrow> string \<Rightarrow> 'w \<Rightarrow> Result res \<times> 'w" where
  "finish_with K orig bind phase condStatus reason msg w =
     (case updatePhase K orig bind phase condStatus reason msg w of ((r, _), w') \<Rightarrow> (done_or r, w'))"

section \<open>The ServiceAccount\<close>

definition ensureServiceAccount ::
  "('w, 'a) kube_scheme \<Rightarrow> UserAuthenticationBind \<Rightarrow> 'w \<Rightarrow> ServiceAccount res \<times> 'w" where
  "ensureServiceAccount K bind w =
     k_createOrUpdateSA K (om_Namespace bind, spec_User (uab_Spec bind))
       (\<lambda>sa. k_setControllerReference K bind sa) w"

section \<open>Deletion\<close>

definition reconcileDelete ::
  "('w, 'a) kube_scheme \<Rightarrow> UserAuthenticationBind \<Rightarrow> 'w \<Rightarrow> Result res \<times> 'w" where
  "reconcileDelete K bind w =
     (if \<not> k_containsFinalizer K finalizer (om_Finalizers bind) then (result_ok, w)
      else (case deleteOwned K (om_UID bind) w of
        (Some e, w1) \<Rightarrow> (Inl e, w1)
      | (None, w1) \<Rightarrow>
        (case k_updateBind K
                (bind\<lparr>om_Finalizers := k_removeFinalizer K finalizer (om_Finalizers bind)\<rparr>) w1 of
           (Inl e, w2) \<Rightarrow> (Inl (Wrap ''removing finalizer'' e), w2)
         | (Inr _, w2) \<Rightarrow> (result_ok, w2))))"

section \<open>Expiry\<close>

text \<open>
  The end of the bind: the TTL counted from the broker's last renewal stamp, or from the
  creation of the resource when there is none or it does not parse, cut to whole seconds.
\<close>

definition bindAnchor :: "'l golib_scheme \<Rightarrow> UserAuthenticationBind \<Rightarrow> time" where
  "bindAnchor L bind =
     (case om_Annotations bind renewedAtAnnotation of
        None \<Rightarrow> om_CreationTimestamp bind
      | Some v \<Rightarrow>
        if v = [] then om_CreationTimestamp bind
        else (case time_Parse L v of None \<Rightarrow> om_CreationTimestamp bind | Some t \<Rightarrow> t))"

definition bindExpiry :: "'l golib_scheme \<Rightarrow> UserAuthenticationBind \<Rightarrow> time res" where
  "bindExpiry L bind =
     (case ParseDuration L (spec_TTL (uab_Spec bind)) of
        Inl e \<Rightarrow> Inl e
      | Inr ttl \<Rightarrow> Inr (TruncateSecond (bindAnchor L bind + ttl)))"

definition reconcileExpired ::
  "('w, 'a) kube_scheme \<Rightarrow> UserAuthenticationBind \<Rightarrow> 'w \<Rightarrow> Result res \<times> 'w" where
  "reconcileExpired K bind w =
     (if sv_Status (st_Sv (uab_Status bind)) \<noteq> BindUnbound then
        (case deleteOwned K (om_UID bind) w of
           (Some e, w1) \<Rightarrow> (Inl e, w1)
         | (None, w1) \<Rightarrow> finish_with K bind bind BindUnbound ConditionFalse ''Expired'' ''TTL elapsed'' w1)
      else (result_ok, w))"

section \<open>Binding\<close>

definition bound_message :: "UserAuthenticationBind \<Rightarrow> string" where
  "bound_message bind =
     ''User '' @ spec_User (uab_Spec bind) @ '' bound for '' @
     dec (length (spec_Memberships (uab_Spec bind))) @ '' membership(s)''"

definition set_ref :: "string \<Rightarrow> UserAuthenticationBind \<Rightarrow> UserAuthenticationBind" where
  "set_ref ref bind =
     bind\<lparr>uab_Status := (uab_Status bind)\<lparr>st_Sv := (st_Sv (uab_Status bind))\<lparr>sv_Ref := ref\<rparr>\<rparr>\<rparr>"

definition set_ref_expiry :: "string \<Rightarrow> time \<Rightarrow> UserAuthenticationBind \<Rightarrow> UserAuthenticationBind" where
  "set_ref_expiry ref expiry bind =
     bind\<lparr>uab_Status := (uab_Status bind)\<lparr>st_Sv :=
       (st_Sv (uab_Status bind))\<lparr>sv_Ref := ref, sv_ExpiresAt := Some expiry\<rparr>\<rparr>\<rparr>"

text \<open>The part after the ServiceAccount and the transient phase: synchronise, converge to binded.\<close>

definition reconcileSync ::
  "('w, 'a) kube_scheme \<Rightarrow> UserAuthenticationBind \<Rightarrow> UserAuthenticationBind \<Rightarrow> ServiceAccount \<Rightarrow> time \<Rightarrow>
   'w \<Rightarrow> Result res \<times> 'w" where
  "reconcileSync K orig bind sa expiry w =
     (case syncBindings K bind sa w of
        (Some e, w1) \<Rightarrow> finish_with K orig bind BindFailed ConditionFalse ''BindFailed'' (errText e) w1
      | (None, w1) \<Rightarrow>
        let sv = st_Sv (uab_Status bind);
            established = sv_Status (st_Sv (uab_Status orig)) = BindBinded \<and>
              sv_Ref sv = om_UID sa \<and> sv_ExpiresAt sv = Some expiry
        in if established then (Inr \<lparr>RequeueAfter = Sub expiry (k_now K w1)\<rparr>, w1)
           else (case updatePhase K orig (set_ref_expiry (om_UID sa) expiry bind) BindBinded
                        ConditionTrue ''Bound'' (bound_message bind) w1 of
             ((Some e, _), w2) \<Rightarrow> (Inl e, w2)
           | ((None, _), w2) \<Rightarrow> (Inr \<lparr>RequeueAfter = Sub expiry (k_now K w2)\<rparr>, w2)))"

definition reconcileActive ::
  "('w, 'a) kube_scheme \<Rightarrow> UserAuthenticationBind \<Rightarrow> time \<Rightarrow> 'w \<Rightarrow> Result res \<times> 'w" where
  "reconcileActive K bind expiry w =
     (case ensureServiceAccount K bind w of
        (Inl e, w1) \<Rightarrow> finish_with K bind bind BindFailed ConditionFalse ''ServiceAccountFailed'' (errText e) w1
      | (Inr sa, w1) \<Rightarrow>
        if sv_Status (st_Sv (uab_Status bind)) \<noteq> BindBinded then
          (case updatePhase K bind (set_ref (om_UID sa) bind) BindBinding ConditionUnknown
                  ''Syncing'' ''Syncing RBAC bindings'' w1 of
             ((Some e, _), w2) \<Rightarrow> (Inl e, w2)
           | ((None, bind'), w2) \<Rightarrow> reconcileSync K bind bind' sa expiry w2)
        else reconcileSync K bind bind sa expiry w1)"

section \<open>Reconcile\<close>

definition reconcileBind ::
  "('w, 'a) kube_scheme \<Rightarrow> 'l golib_scheme \<Rightarrow> UserAuthenticationBind \<Rightarrow> 'w \<Rightarrow> Result res \<times> 'w" where
  "reconcileBind K L bind w =
     (if sv_Status (st_Sv (uab_Status bind)) = BindUnset then
        (case updatePhase K bind bind BindPending ConditionUnknown ''Accepted'' ''Bind accepted, pending sync'' w of
           ((Some e, _), w') \<Rightarrow> (Inl e, w')
         | ((None, _), w') \<Rightarrow> (Inr \<lparr>RequeueAfter = Second\<rparr>, w'))
      else (case bindExpiry L bind of
        Inl e \<Rightarrow> finish_with K bind bind BindFailed ConditionFalse ''InvalidTTL'' (errText e) w
      | Inr expiry \<Rightarrow>
        if \<not> k_now K w < expiry then reconcileExpired K bind w
        else reconcileActive K bind expiry w))"

definition Reconcile ::
  "('w, 'a) kube_scheme \<Rightarrow> 'l golib_scheme \<Rightarrow> nsname \<Rightarrow> 'w \<Rightarrow> Result res \<times> 'w" where
  "Reconcile K L req w =
     (case k_getBind K req w of
        (Inl e, w1) \<Rightarrow> (if errors_Is e ApiNotFound then result_ok else Inl e, w1)
      | (Inr bind, w1) \<Rightarrow>
        if om_DeletionTimestamp bind \<noteq> None then reconcileDelete K bind w1
        else (case k_addFinalizer K finalizer (om_Finalizers bind) of
          (True, fs) \<Rightarrow>
            (case k_updateBind K (bind\<lparr>om_Finalizers := fs\<rparr>) w1 of
               (Inl e, w2) \<Rightarrow> (Inl (Wrap ''adding finalizer'' e), w2)
             | (Inr _, w2) \<Rightarrow> (result_ok, w2))
        | (False, _) \<Rightarrow> reconcileBind K L bind w1))"

end
