(* ===== verification/Controller_Steps.thy ===== *)
theory Controller_Steps
  imports Controller
begin

text \<open>
  The life of a bind as a state machine. \<open>bind_step\<close> says which changes to the cluster the
  operator may make on behalf of one resource, in which phase and in which order; it knows
  nothing of clocks, errors and retries. \<open>Reconcile\<close> refines it: every run, whatever calls
  fail in it, is a sequence of such steps. The invariant of the machine, that a binding
  exists only for a resource that still holds the finalizer and is in a phase with access,
  then holds of the operator interleaved with everything else that happens in the cluster.
\<close>

section \<open>The machine\<close>

abbreviation phase :: "UserAuthenticationBind \<Rightarrow> BindPhase" where
  "phase b \<equiv> sv_Status (st_Sv (uab_Status b))"

definition live :: "UserAuthenticationBind \<Rightarrow> bool" where
  "live b \<longleftrightarrow> om_DeletionTimestamp b = None \<and> finalizer \<in> set (om_Finalizers b)"

definition bind_subject :: "UserAuthenticationBind \<Rightarrow> Subject" where
  "bind_subject b =
     \<lparr>sub_Kind = ''ServiceAccount'', sub_Name = spec_User (uab_Spec b), sub_Namespace = om_Namespace b\<rparr>"

definition owned_free :: "string \<Rightarrow> cluster \<Rightarrow> bool" where
  "owned_free uid cl \<longleftrightarrow>
     (\<forall>n b. cl_crbs cl n = Some b \<longrightarrow> \<not> owned_by uid b) \<and>
     (\<forall>n b. cl_rbs cl n = Some b \<longrightarrow> \<not> owned_by uid b)"

definition access_phases :: "BindPhase set" where
  "access_phases = {BindBinding, BindBinded, BindFailed}"

inductive bind_step :: "nsname \<Rightarrow> cluster \<Rightarrow> cluster \<Rightarrow> bool" for k where
  add_finalizer: "cl_binds cl k = Some b \<Longrightarrow> om_DeletionTimestamp b = None \<Longrightarrow>
    finalizer \<notin> set (om_Finalizers b) \<Longrightarrow>
    bind_step k cl (put_bind k (Some (b\<lparr>om_Finalizers := om_Finalizers b @ [finalizer]\<rparr>)) cl)"
| accept: "cl_binds cl k = Some b \<Longrightarrow> live b \<Longrightarrow> phase b = BindUnset \<Longrightarrow>
    sv_Status (st_Sv s) = BindPending \<Longrightarrow>
    bind_step k cl (put_bind k (Some (b\<lparr>uab_Status := s\<rparr>)) cl)"
| progress: "cl_binds cl k = Some b \<Longrightarrow> live b \<Longrightarrow> phase b \<noteq> BindUnset \<Longrightarrow>
    sv_Status (st_Sv s) \<in> access_phases \<Longrightarrow>
    bind_step k cl (put_bind k (Some (b\<lparr>uab_Status := s\<rparr>)) cl)"
| service_account: "cl_binds cl k = Some b \<Longrightarrow> live b \<Longrightarrow> phase b \<noteq> BindUnset \<Longrightarrow>
    nsname_of sa = (om_Namespace b, spec_User (uab_Spec b)) \<Longrightarrow>
    bind_step k cl (put_sa (om_Namespace b, spec_User (uab_Spec b)) (Some sa) cl)"
| synchronise: "cl_binds cl k = Some b \<Longrightarrow> live b \<Longrightarrow> phase b = BindBinding \<or> phase b = BindBinded \<Longrightarrow>
    sync_frame b (bind_subject b) cl cl' \<Longrightarrow>
    bind_step k cl cl'"
| revoke: "cl_binds cl k = Some b \<Longrightarrow> finalizer \<in> set (om_Finalizers b) \<Longrightarrow>
    cl' = cl\<lparr>cl_crbs := cl_crbs cl', cl_rbs := cl_rbs cl'\<rparr> \<Longrightarrow>
    shrunk (cl_crbs cl) (cl_crbs cl') (owned_by (om_UID b)) \<Longrightarrow>
    shrunk (cl_rbs cl) (cl_rbs cl') (owned_by (om_UID b)) \<Longrightarrow>
    bind_step k cl cl'"
| unbind: "cl_binds cl k = Some b \<Longrightarrow> live b \<Longrightarrow> owned_free (om_UID b) cl \<Longrightarrow>
    sv_Status (st_Sv s) = BindUnbound \<Longrightarrow>
    bind_step k cl (put_bind k (Some (b\<lparr>uab_Status := s\<rparr>)) cl)"
| release: "cl_binds cl k = Some b \<Longrightarrow> om_DeletionTimestamp b \<noteq> None \<Longrightarrow> owned_free (om_UID b) cl \<Longrightarrow>
    bind_step k cl
      (put_bind k (stored (b\<lparr>om_Finalizers := filter (\<lambda>x. x \<noteq> finalizer) (om_Finalizers b)\<rparr>)) cl)"

lemmas bind_step_rtrancl = r_into_rtranclp [of "bind_step k" for k]

section \<open>Reconcile refines the machine\<close>

lemma set_phase_sel [simp]:
  "om_Name (set_phase K b ph c r m t) = om_Name b" "om_Namespace (set_phase K b ph c r m t) = om_Namespace b"
  "om_UID (set_phase K b ph c r m t) = om_UID b"
  "uab_Spec (set_phase K b ph c r m t) = uab_Spec b"
  "om_Finalizers (set_phase K b ph c r m t) = om_Finalizers b"
  "phase (set_phase K b ph c r m t) = ph"
  "sv_Ref (st_Sv (uab_Status (set_phase K b ph c r m t))) = sv_Ref (st_Sv (uab_Status b))"
  "sv_ExpiresAt (st_Sv (uab_Status (set_phase K b ph c r m t))) = sv_ExpiresAt (st_Sv (uab_Status b))"
  by (simp_all add: set_phase_def)

lemma set_ref_sel [simp]:
  "om_Name (set_ref x b) = om_Name b" "om_Namespace (set_ref x b) = om_Namespace b"
  "om_UID (set_ref x b) = om_UID b" "uab_Spec (set_ref x b) = uab_Spec b"
  "phase (set_ref x b) = phase b" "sv_Ref (st_Sv (uab_Status (set_ref x b))) = x"
  by (simp_all add: set_ref_def)

lemma set_ref_expiry_sel [simp]:
  "om_Name (set_ref_expiry x e b) = om_Name b" "om_Namespace (set_ref_expiry x e b) = om_Namespace b"
  "om_UID (set_ref_expiry x e b) = om_UID b" "uab_Spec (set_ref_expiry x e b) = uab_Spec b"
  "phase (set_ref_expiry x e b) = phase b"
  "sv_Ref (st_Sv (uab_Status (set_ref_expiry x e b))) = x"
  "sv_ExpiresAt (st_Sv (uab_Status (set_ref_expiry x e b))) = Some e"
  by (simp_all add: set_ref_expiry_def)

lemma nsname_of_set [simp]:
  "nsname_of (set_phase K b ph c r m t) = nsname_of b" "nsname_of (set_ref x b) = nsname_of b"
  "nsname_of (set_ref_expiry x e b) = nsname_of b"
  "nsname_of (b\<lparr>om_Finalizers := fs\<rparr>) = nsname_of b"
  by (simp_all add: nsname_of_def)

lemma merge_status_phase [simp]:
  "sv_Status (st_Sv (merge_status orig new cur)) =
     merged (sv_Status (st_Sv orig)) (sv_Status (st_Sv new)) (sv_Status (st_Sv cur))"
  by (simp add: merge_status_def)

lemma live_patched [simp]: "live (patched orig new cur) = live cur"
  by (simp add: live_def)

context operator_api
begin

text \<open>A status patch either has no effect and fails, or its effect is the merge patch.\<close>

lemma updatePhase_cases:
  assumes run: "updatePhase K orig b ph c rs m w = ((r, b'), w')"
    and cur: "cl_binds (view w) (nsname_of b) = Some cur"
  obtains (lost) "view w' = view w" and "r \<noteq> None"
  | (patched) new where "new = set_phase K b ph c rs m (k_now K w)"
      and "view w' = put_bind (nsname_of b) (Some (patched orig new cur)) (view w)"
      and "r = None \<Longrightarrow> b' = patched orig new cur"
proof -
  let ?new = "set_phase K b ph c rs m (k_now K w)"
  obtain p w1 where p: "k_patchStatus K orig ?new w = (p, w1)" by fastforce
  show thesis
  proof (cases p)
    case (Inl e)
    with run p have "r \<noteq> None" "w' = w1" by (auto simp: updatePhase_def Let_def)
    with patchStatus_err [of orig ?new w e w1] p Inl cur show thesis by (auto intro: lost patched)
  next
    case (Inr x)
    with run p have "r = None" "w' = w1" "b' = x" by (auto simp: updatePhase_def Let_def)
    with patchStatus_ok [of orig ?new w x w1] p Inr cur show thesis by (auto intro: patched)
  qed
qed

lemma updatePhase_step:
  assumes run: "updatePhase K orig b ph c rs m w = ((r, b'), w')"
    and cur: "cl_binds (view w) (nsname_of b) = Some cur"
    and step: "\<And>s. sv_Status (st_Sv s) = merged (phase orig) ph (phase cur) \<Longrightarrow>
      bind_step (nsname_of b) (view w) (put_bind (nsname_of b) (Some (cur\<lparr>uab_Status := s\<rparr>)) (view w))"
  shows "(bind_step (nsname_of b))\<^sup>*\<^sup>* (view w) (view w')"
  using run cur
proof (cases rule: updatePhase_cases)
  case (patched new)
  then have "sv_Status (st_Sv (uab_Status (patched orig new cur))) = merged (phase orig) ph (phase cur)"
    by simp
  from step [of "uab_Status (patched orig new cur)"] this patched(2) show ?thesis
    by (auto simp: patched_def)
qed simp

lemma finish_with_step:
  assumes run: "finish_with K orig b ph c rs m w = (r, w')"
    and cur: "cl_binds (view w) (nsname_of b) = Some cur"
    and step: "\<And>s. sv_Status (st_Sv s) = merged (phase orig) ph (phase cur) \<Longrightarrow>
      bind_step (nsname_of b) (view w) (put_bind (nsname_of b) (Some (cur\<lparr>uab_Status := s\<rparr>)) (view w))"
  shows "(bind_step (nsname_of b))\<^sup>*\<^sup>* (view w) (view w')"
proof -
  obtain x y where "updatePhase K orig b ph c rs m w = ((x, y), w')"
    using run by (auto simp: finish_with_def split: prod.splits)
  from updatePhase_step [OF this cur step] show ?thesis .
qed

lemma deleteOwned_step:
  assumes run: "deleteOwned K (om_UID b) w = (r, w')"
    and b: "cl_binds (view w) k = Some b" and fin: "finalizer \<in> set (om_Finalizers b)"
  shows "bind_step k (view w) (view w')"
    and "cl_binds (view w') = cl_binds (view w)"
    and "r = None \<Longrightarrow> owned_free (om_UID b) (view w')"
proof -
  note d = deleteOwned_frame [OF run]
  show "bind_step k (view w) (view w')" using b fin d(1-3) by (rule revoke)
  show "cl_binds (view w') = cl_binds (view w)" by (subst d(1)) simp
  show "owned_free (om_UID b) (view w')" if "r = None"
    using d(4,5) that by (auto simp: owned_free_def)
qed

lemma syncBindings_step:
  assumes run: "syncBindings K b sa w = (r, w')"
    and b: "cl_binds (view w) k = Some b" "live b" "phase b = BindBinding \<or> phase b = BindBinded"
    and sa: "nsname_of sa = (om_Namespace b, spec_User (uab_Spec b))"
  shows "bind_step k (view w) (view w')" and "cl_binds (view w') = cl_binds (view w)"
proof -
  have "subject_of sa = bind_subject b"
    using sa by (simp add: subject_of_def bind_subject_def nsname_of_def)
  with syncBindings_frame [OF run] have f: "sync_frame b (bind_subject b) (view w) (view w')" by simp
  with b show "bind_step k (view w) (view w')" by (rule synchronise)
  from f have v: "view w' = (view w)\<lparr>cl_crbs := cl_crbs (view w'), cl_rbs := cl_rbs (view w')\<rparr>"
    by (simp add: sync_frame_def)
  show "cl_binds (view w') = cl_binds (view w)" by (subst v) simp
qed

lemma reconcileSync_steps:
  assumes run: "reconcileSync K orig b sa e w = (r, w')"
    and b: "cl_binds (view w) k = Some b" "live b" "phase b = BindBinding \<or> phase b = BindBinded"
    and sa: "nsname_of sa = (om_Namespace b, spec_User (uab_Spec b))"
  shows "(bind_step k)\<^sup>*\<^sup>* (view w) (view w')"
proof -
  have k: "nsname_of b = k" using b(1) by (rule bind_key)
  obtain r1 w1 where s: "syncBindings K b sa w = (r1, w1)" by fastforce
  note sync = syncBindings_step [OF s b sa]
  have b1: "cl_binds (view w1) k = Some b" using sync(2) b(1) by simp
  have step: "bind_step k (view w1) (put_bind k (Some (b\<lparr>uab_Status := s\<rparr>)) (view w1))"
    if "sv_Status (st_Sv s) = merged x ph (phase b)" and "ph \<in> access_phases" for s x ph
    using that b(2,3) by (intro progress [OF b1]) (auto simp: access_phases_def merged_def)
  have "(bind_step k)\<^sup>*\<^sup>* (view w1) (view w')"
  proof (cases r1)
    case (Some x)
    with run s have "finish_with K orig b BindFailed ConditionFalse ''BindFailed'' (errText x) w1 = (r, w')"
      by (simp add: reconcileSync_def)
    from finish_with_step [OF this] b1 step show ?thesis by (simp add: k access_phases_def)
  next
    case None
    let ?b = "set_ref_expiry (om_UID sa) e b"
    obtain x y w2 where u: "updatePhase K orig ?b BindBinded ConditionTrue ''Bound'' (bound_message b) w1
        = ((x, y), w2)" by (metis surj_pair)
    have "(bind_step k)\<^sup>*\<^sup>* (view w1) (view w2)"
      using updatePhase_step [OF u] b1 step by (simp add: k access_phases_def)
    moreover have "w' = w1 \<or> w' = w2"
      using run s None u by (auto simp: reconcileSync_def Let_def split: if_splits option.splits)
    ultimately show ?thesis by auto
  qed
  with sync(1) show ?thesis by (rule converse_rtranclp_into_rtranclp)
qed

lemma ensureServiceAccount_cases:
  assumes "ensureServiceAccount K b w = (r, w')"
  obtains "view w' = view w" "\<forall>sa. r \<noteq> Inr sa"
  | sa where "nsname_of sa = (om_Namespace b, spec_User (uab_Spec b))"
      "view w' = put_sa (om_Namespace b, spec_User (uab_Spec b)) (Some sa) (view w)" "\<forall>sa'. r = Inr sa' \<longrightarrow> sa' = sa"
proof (cases r)
  case (Inl e)
  with createOrUpdateSA_err [of "(om_Namespace b, spec_User (uab_Spec b))"] assms show thesis
    unfolding ensureServiceAccount_def by (metis Inl_Inr_False that)
next
  case (Inr sa)
  with assms have "k_createOrUpdateSA K (om_Namespace b, spec_User (uab_Spec b))
      (\<lambda>sa. k_setControllerReference K b sa) w = (Inr sa, w')" by (simp add: ensureServiceAccount_def)
  from createOrUpdateSA_ok [OF this] Inr show thesis by (intro that(2) [of sa]) auto
qed

lemma reconcileActive_steps:
  assumes run: "reconcileActive K b e w = (r, w')"
    and b: "cl_binds (view w) k = Some b" "live b" "phase b \<noteq> BindUnset"
  shows "(bind_step k)\<^sup>*\<^sup>* (view w) (view w')"
proof -
  have k: "nsname_of b = k" using b(1) by (rule bind_key)
  obtain r1 w1 where s: "ensureServiceAccount K b w = (r1, w1)" by fastforce
  have first: "(bind_step k)\<^sup>*\<^sup>* (view w) (view w1) \<and> cl_binds (view w1) k = Some b \<and>
    (\<forall>sa. r1 = Inr sa \<longrightarrow> nsname_of sa = (om_Namespace b, spec_User (uab_Spec b)))"
    using s by (rule ensureServiceAccount_cases)
      (use b in \<open>auto intro!: r_into_rtranclp service_account\<close>)
  then have b1: "cl_binds (view w1) k = Some b" by simp
  have step: "bind_step k (view w1) (put_bind k (Some (b\<lparr>uab_Status := s\<rparr>)) (view w1))"
    if "sv_Status (st_Sv s) \<in> access_phases" for s
    using b1 b(2,3) that by (rule progress)
  have "(bind_step k)\<^sup>*\<^sup>* (view w1) (view w')"
  proof (cases r1)
    case (Inl x)
    with run s have "finish_with K b b BindFailed ConditionFalse ''ServiceAccountFailed'' (errText x) w1 = (r, w')"
      by (simp add: reconcileActive_def)
    from finish_with_step [OF this] b1 step show ?thesis by (simp add: k access_phases_def merged_def)
  next
    case (Inr sa)
    show ?thesis
    proof (cases "phase b = BindBinded")
      case True
      with run s Inr have "reconcileSync K b b sa e w1 = (r, w')" by (simp add: reconcileActive_def)
      from reconcileSync_steps [OF this b1 b(2)] True first Inr show ?thesis by simp
    next
      case False
      let ?b = "set_ref (om_UID sa) b"
      obtain x y w2 where u: "updatePhase K b ?b BindBinding ConditionUnknown ''Syncing''
          ''Syncing RBAC bindings'' w1 = ((x, y), w2)" by (metis surj_pair)
      have steps: "(bind_step k)\<^sup>*\<^sup>* (view w1) (view w2)"
        using updatePhase_step [OF u] b1 step by (simp add: k access_phases_def merged_def)
      show ?thesis
      proof (cases x)
        case (Some z)
        with run s Inr False u steps show ?thesis by (simp add: reconcileActive_def)
      next
        case None
        with run s Inr False u have rs: "reconcileSync K b y sa e w2 = (r, w')"
          by (simp add: reconcileActive_def)
        have "cl_binds (view w1) (nsname_of ?b) = Some b" using b1 k by simp
        with u have "cl_binds (view w2) k = Some y \<and> live y \<and> phase y = BindBinding \<and>
            uab_Spec y = uab_Spec b \<and> om_Namespace y = om_Namespace b"
          by (rule updatePhase_cases) (use None k b(2) in \<open>auto simp: merged_def\<close>)
        with reconcileSync_steps [OF rs, of k] first Inr steps show ?thesis by simp
      qed
    qed
  qed
  with first show ?thesis by auto
qed

lemma reconcileDelete_steps:
  assumes run: "reconcileDelete K b w = (r, w')"
    and b: "cl_binds (view w) k = Some b" "om_DeletionTimestamp b \<noteq> None"
  shows "(bind_step k)\<^sup>*\<^sup>* (view w) (view w')"
proof (cases "finalizer \<in> set (om_Finalizers b)")
  case False
  with run show ?thesis by (simp add: reconcileDelete_def containsFinalizer)
next
  case True
  have k: "nsname_of b = k" using b(1) by (rule bind_key)
  obtain r1 w1 where d: "deleteOwned K (om_UID b) w = (r1, w1)" by fastforce
  note del = deleteOwned_step [OF d b(1) True]
  have "(bind_step k)\<^sup>*\<^sup>* (view w1) (view w')"
  proof (cases r1)
    case (Some e)
    with run d True show ?thesis by (simp add: reconcileDelete_def containsFinalizer)
  next
    case None
    let ?b = "b\<lparr>om_Finalizers := filter (\<lambda>x. x \<noteq> finalizer) (om_Finalizers b)\<rparr>"
    have b1: "cl_binds (view w1) (nsname_of ?b) = Some b" using del(2) b(1) k by simp
    obtain r2 w2 where u: "k_updateBind K ?b w1 = (r2, w2)" by fastforce
    with run d None True have "w' = w2"
      by (auto simp: reconcileDelete_def containsFinalizer removeFinalizer split: sum.splits)
    moreover have "view w2 = view w1 \<or> view w2 = put_bind k (stored ?b) (view w1)"
    proof (cases r2)
      case (Inl e)
      with updateBind_err [of ?b w1 e w2] u b1 k show ?thesis by auto
    next
      case (Inr y)
      with updateBind_ok [of ?b w1 y w2] u b1 k show ?thesis by auto
    qed
    moreover have "bind_step k (view w1) (put_bind k (stored ?b) (view w1))"
      using b1 b(2) del(3) [OF None] k by (intro release) simp_all
    ultimately show ?thesis by auto
  qed
  with del(1) show ?thesis by (rule converse_rtranclp_into_rtranclp)
qed

lemma reconcileBind_steps:
  assumes run: "reconcileBind K L b w = (r, w')"
    and b: "cl_binds (view w) k = Some b" "live b"
  shows "(bind_step k)\<^sup>*\<^sup>* (view w) (view w')"
proof -
  have k: "nsname_of b = k" using b(1) by (rule bind_key)
  consider (unset) "phase b = BindUnset"
    | (invalid) e where "phase b \<noteq> BindUnset" "bindExpiry L b = Inl e"
    | (expired) e where "phase b \<noteq> BindUnset" "bindExpiry L b = Inr e" "e \<le> k_now K w"
    | (active) e where "phase b \<noteq> BindUnset" "bindExpiry L b = Inr e" "k_now K w < e"
    by (cases "bindExpiry L b") (auto simp: not_le [symmetric])
  then show ?thesis
  proof cases
    case unset
    obtain x y w2 where u: "updatePhase K b b BindPending ConditionUnknown ''Accepted''
        ''Bind accepted, pending sync'' w = ((x, y), w2)" by (metis surj_pair)
    with run unset have "w' = w2" by (auto simp: reconcileBind_def split: option.splits)
    with updatePhase_step [OF u] b accept [OF b unset] unset show ?thesis by (simp add: k merged_def)
  next
    case (invalid e)
    with run have "finish_with K b b BindFailed ConditionFalse ''InvalidTTL'' (errText e) w = (r, w')"
      by (simp add: reconcileBind_def)
    from finish_with_step [OF this] progress [OF b invalid(1)] b(1) show ?thesis
      by (simp add: k access_phases_def merged_def)
  next
    case (expired e)
    with run have x: "reconcileExpired K b w = (r, w')" by (simp add: reconcileBind_def)
    obtain r1 w1 where d: "deleteOwned K (om_UID b) w = (r1, w1)" by fastforce
    have "finalizer \<in> set (om_Finalizers b)" using b(2) by (simp add: live_def)
    note del = deleteOwned_step [OF d b(1) this]
    show ?thesis
    proof (cases "phase b \<noteq> BindUnbound \<and> r1 = None")
      case True
      with x d have f: "finish_with K b b BindUnbound ConditionFalse ''Expired'' ''TTL elapsed'' w1 = (r, w')"
        by (simp add: reconcileExpired_def)
      have b1: "cl_binds (view w1) k = Some b" using del(2) b(1) by simp
      from finish_with_step [OF f] unbind [OF b1 b(2) del(3)] True b1
      have "(bind_step k)\<^sup>*\<^sup>* (view w1) (view w')" by (simp add: k merged_def)
      with del(1) show ?thesis by (rule converse_rtranclp_into_rtranclp)
    next
      case False
      with x d have "w' = w \<or> w' = w1" by (auto simp: reconcileExpired_def split: if_splits)
      with del(1) show ?thesis by auto
    qed
  next
    case (active e)
    with run have "reconcileActive K b e w = (r, w')" by (simp add: reconcileBind_def)
    from reconcileActive_steps [OF this b active(1)] show ?thesis .
  qed
qed

lemma Reconcile_steps:
  assumes run: "Reconcile K L k w = (r, w')"
  shows "(bind_step k)\<^sup>*\<^sup>* (view w) (view w')"
proof -
  obtain g w1 where g: "k_getBind K k w = (g, w1)" by fastforce
  note v = getBind_view [OF g]
  show ?thesis
  proof (cases g)
    case (Inl e)
    with run g v show ?thesis by (simp add: Reconcile_def)
  next
    case (Inr b)
    have b: "cl_binds (view w1) k = Some b" using getBind_ok g Inr v by simp
    then have k: "nsname_of b = k" by (rule bind_key)
    consider (del) "om_DeletionTimestamp b \<noteq> None"
      | (fin) "om_DeletionTimestamp b = None" "finalizer \<notin> set (om_Finalizers b)" | (live) "live b"
      unfolding live_def by metis
    then show ?thesis
    proof cases
      case del
      with run g Inr have "reconcileDelete K b w1 = (r, w')" by (simp add: Reconcile_def)
      from reconcileDelete_steps [OF this b del] v show ?thesis by simp
    next
      case fin
      let ?b = "b\<lparr>om_Finalizers := om_Finalizers b @ [finalizer]\<rparr>"
      obtain r2 w2 where u: "k_updateBind K ?b w1 = (r2, w2)" by fastforce
      with run g Inr fin have "w' = w2" by (auto simp: Reconcile_def addFinalizer split: sum.splits)
      moreover have "view w2 = view w1 \<or> view w2 = put_bind k (stored ?b) (view w1)"
      proof (cases r2)
        case (Inl e)
        with updateBind_err [of ?b w1 e w2] u b k show ?thesis by auto
      next
        case (Inr y)
        with updateBind_ok [of ?b w1 y w2] u b k show ?thesis by auto
      qed
      moreover have "stored ?b = Some ?b" using fin by (simp add: stored_def)
      ultimately show ?thesis using add_finalizer [OF b fin] v by auto
    next
      case live
      with run g Inr have "reconcileBind K L b w1 = (r, w')"
        by (simp add: Reconcile_def live_def addFinalizer)
      from reconcileBind_steps [OF this b live] v show ?thesis by simp
    qed
  qed
qed

end

section \<open>The invariant\<close>

text \<open>
  \<open>covers uid cl\<close>: a resource with this UID holds the finalizer and is in a phase in which
  it may have access. \<open>access_inv\<close>: every binding that carries an owner label is covered.
\<close>

definition covers :: "string \<Rightarrow> cluster \<Rightarrow> bool" where
  "covers uid cl \<longleftrightarrow>
     (\<exists>k b. cl_binds cl k = Some b \<and> om_UID b = uid \<and> finalizer \<in> set (om_Finalizers b) \<and>
        phase b \<in> access_phases)"

definition access_inv :: "cluster \<Rightarrow> bool" where
  "access_inv cl \<longleftrightarrow>
     (\<forall>n b u. cl_crbs cl n = Some b \<longrightarrow> owned_by u b \<longrightarrow> covers u cl) \<and>
     (\<forall>n b u. cl_rbs cl n = Some b \<longrightarrow> owned_by u b \<longrightarrow> covers u cl)"

lemma coversI:
  "cl_binds cl k = Some b \<Longrightarrow> om_UID b = uid \<Longrightarrow> finalizer \<in> set (om_Finalizers b) \<Longrightarrow>
   phase b \<in> access_phases \<Longrightarrow> covers uid cl"
  unfolding covers_def by blast

lemma access_invD:
  "access_inv cl \<Longrightarrow> cl_crbs cl n = Some b \<Longrightarrow> owned_by u b \<Longrightarrow> covers u cl"
  "access_inv cl \<Longrightarrow> cl_rbs cl k = Some b \<Longrightarrow> owned_by u b \<Longrightarrow> covers u cl"
  unfolding access_inv_def by blast+

text \<open>
  Replacing one resource keeps the invariant when its UID owns nothing, or when the new
  value still covers what the old one covered.
\<close>

lemma access_inv_put_bind:
  assumes inv: "access_inv cl" and b: "cl_binds cl k = Some b"
    and keep: "owned_free (om_UID b) cl \<or> phase b \<notin> access_phases \<or>
      (\<exists>b'. v = Some b' \<and> om_UID b' = om_UID b \<and>
        (finalizer \<in> set (om_Finalizers b) \<longrightarrow> finalizer \<in> set (om_Finalizers b')) \<and>
        phase b' \<in> access_phases)"
  shows "access_inv (put_bind k v cl)"
proof -
  have cov: "covers u (put_bind k v cl)" if u: "covers u cl" and own: "\<not> owned_free u cl" for u
  proof -
    obtain k' c where c: "cl_binds cl k' = Some c" "om_UID c = u" "finalizer \<in> set (om_Finalizers c)"
      "phase c \<in> access_phases" using u unfolding covers_def by blast
    show ?thesis
    proof (cases "k' = k")
      case False
      with c show ?thesis by (intro coversI [of _ k' c]) simp_all
    next
      case True
      with b c(1) have "c = b" by simp
      with keep c own obtain b' where "v = Some b'" "om_UID b' = u"
        "finalizer \<in> set (om_Finalizers b')" "phase b' \<in> access_phases" by auto
      then show ?thesis by (intro coversI [of _ k b']) simp_all
    qed
  qed
  show ?thesis
    unfolding access_inv_def put_bind_sel
  proof (intro conjI allI impI)
    fix n x u
    show "covers u (put_bind k v cl)" if "cl_crbs cl n = Some x" "owned_by u x"
      using cov access_invD(1) [OF inv that] that unfolding owned_free_def by blast
    show "covers u (put_bind k v cl)" if "cl_rbs cl n = Some x" "owned_by u x" for n
      using cov access_invD(2) [OF inv that] that unfolding owned_free_def by blast
  qed
qed

lemma covers_cong: "cl_binds cl' = cl_binds cl \<Longrightarrow> covers u cl' = covers u cl"
  by (simp add: covers_def)

lemma sync_frame_binds: "sync_frame b subj cl cl' \<Longrightarrow> cl_binds cl' = cl_binds cl"
proof -
  assume "sync_frame b subj cl cl'"
  then have v: "cl' = cl\<lparr>cl_crbs := cl_crbs cl', cl_rbs := cl_rbs cl'\<rparr>" by (simp add: sync_frame_def)
  show ?thesis by (subst v) simp
qed

lemma access_inv_sync:
  assumes inv: "access_inv cl" and f: "sync_frame b subj cl cl'" and c: "covers (om_UID b) cl"
  shows "access_inv cl'"
  unfolding access_inv_def
proof (intro conjI allI impI)
  note cov = covers_cong [OF sync_frame_binds [OF f]]
  fix u
  show "covers u cl'" if x: "cl_crbs cl' n = Some x" "owned_by u x" for n x
    using sync_frame_new(1) [OF f x(1)]
  proof
    assume "cl_crbs cl n = Some x"
    from access_invD(1) [OF inv this x(2)] show ?thesis by (simp add: cov)
  next
    assume "\<exists>d \<in> set (desiredCRBs b subj (cl_clusterroles cl)). om_Name d = n \<and> same_binding d x"
    then have "owned_by (om_UID b) x" by (auto dest: desired_canonical(1) simp: canonical_binding_def)
    with x(2) c show ?thesis by (simp add: cov owned_by_def)
  qed
  show "covers u cl'" if x: "cl_rbs cl' n = Some x" "owned_by u x" for n x
    using sync_frame_new(2) [OF f x(1)]
  proof
    assume "cl_rbs cl n = Some x"
    from access_invD(2) [OF inv this x(2)] show ?thesis by (simp add: cov)
  next
    assume "\<exists>d \<in> set (desiredRBs b subj (cl_roles cl)). nsname_of d = n \<and> same_binding d x"
    then have "owned_by (om_UID b) x" by (auto dest: desired_canonical(2) simp: canonical_binding_def)
    with x(2) c show ?thesis by (simp add: cov owned_by_def)
  qed
qed

lemma access_inv_bind_step: "bind_step k cl cl' \<Longrightarrow> access_inv cl \<Longrightarrow> access_inv cl'"
proof (induction rule: bind_step.induct)
  case (add_finalizer cl b)
  show ?case
  proof (cases "phase b \<in> access_phases")
    case True
    with add_finalizer show ?thesis by (intro access_inv_put_bind [OF add_finalizer(4,1)]) simp
  next
    case False
    with add_finalizer show ?thesis by (intro access_inv_put_bind [OF add_finalizer(4,1)]) simp
  qed
next
  case (accept cl b s)
  then show ?case by (intro access_inv_put_bind [OF accept(5,1)]) (simp add: access_phases_def)
next
  case (progress cl b s)
  then show ?case by (intro access_inv_put_bind [OF progress(5,1)]) simp
next
  case (service_account cl b sa)
  then show ?case by (simp add: access_inv_def covers_def)
next
  case (synchronise cl b cl')
  have "covers (om_UID b) cl"
    using synchronise(1-3) by (intro coversI [of _ k b]) (auto simp: live_def access_phases_def)
  with access_inv_sync [OF synchronise(5,4)] show ?case .
next
  case (revoke cl b cl')
  have e: "cl_binds cl' = cl_binds cl" by (subst revoke(3)) simp
  show ?case
    unfolding access_inv_def covers_cong [OF e]
    using revoke(4,5) access_invD [OF revoke(6)] by (meson shrunk_sub)
next
  case (unbind cl b s)
  then show ?case by (intro access_inv_put_bind [OF unbind(5,1)]) simp
next
  case (release cl b)
  then show ?case by (intro access_inv_put_bind [OF release(4,1)]) simp
qed

lemma access_inv_bind_steps: "(bind_step k)\<^sup>*\<^sup>* cl cl' \<Longrightarrow> access_inv cl \<Longrightarrow> access_inv cl'"
  by (induction rule: rtranclp_induct) (auto intro: access_inv_bind_step)

section \<open>What a run leaves alone\<close>

text \<open>
  \<open>run_frame k b cl cl'\<close>: starting from the resource \<open>b\<close>, other resources, the roles and
  the bindings of others stay as they are, the resource keeps its identity and its spec, and
  every binding that is new grants a role the bind is entitled to, to its ServiceAccount.
\<close>

definition grants_entitled ::
  "UserAuthenticationBind \<Rightarrow> string \<Rightarrow> ObjectMeta list \<Rightarrow> Binding \<Rightarrow> bool" where
  "grants_entitled b kind roles x \<longleftrightarrow>
     canonical_binding (om_UID b) (bind_subject b) kind x \<and>
     (\<exists>r \<in> entitled b roles. rr_Name (b_RoleRef x) = om_Name r)"

definition run_frame :: "nsname \<Rightarrow> UserAuthenticationBind \<Rightarrow> cluster \<Rightarrow> cluster \<Rightarrow> bool" where
  "run_frame k b cl cl' \<longleftrightarrow>
     (\<forall>k'. k' \<noteq> k \<longrightarrow> cl_binds cl' k' = cl_binds cl k') \<and>
     (\<forall>b'. cl_binds cl' k = Some b' \<longrightarrow>
        om_UID b' = om_UID b \<and> om_Namespace b' = om_Namespace b \<and> uab_Spec b' = uab_Spec b) \<and>
     cl_clusterroles cl' = cl_clusterroles cl \<and> cl_roles cl' = cl_roles cl \<and>
     (\<forall>n x. cl_crbs cl n = Some x \<longrightarrow> \<not> owned_by (om_UID b) x \<longrightarrow> cl_crbs cl' n = Some x) \<and>
     (\<forall>n x. cl_rbs cl n = Some x \<longrightarrow> \<not> owned_by (om_UID b) x \<longrightarrow> cl_rbs cl' n = Some x) \<and>
     (\<forall>n x. cl_crbs cl' n = Some x \<longrightarrow>
        cl_crbs cl n = Some x \<or> grants_entitled b clusterRoleKind (cl_clusterroles cl) x) \<and>
     (\<forall>n x. cl_rbs cl' n = Some x \<longrightarrow>
        cl_rbs cl n = Some x \<or> grants_entitled b ''Role'' (cl_roles cl) x)"

lemma run_frame_refl: "cl_binds cl k = Some b \<Longrightarrow> run_frame k b cl cl"
  by (simp add: run_frame_def)

lemma run_frame_bind:
  "run_frame k b cl cl' \<Longrightarrow> cl_binds cl' k = Some b' \<Longrightarrow>
   om_UID b' = om_UID b \<and> om_Namespace b' = om_Namespace b \<and> uab_Spec b' = uab_Spec b"
  by (simp add: run_frame_def)

lemma run_frame_put_bind:
  assumes "run_frame k b cl cl'"
    and "\<And>b'. v = Some b' \<Longrightarrow>
      om_UID b' = om_UID b \<and> om_Namespace b' = om_Namespace b \<and> uab_Spec b' = uab_Spec b"
  shows "run_frame k b cl (put_bind k v cl')"
  using assms(1) assms(2) [OF sym] unfolding run_frame_def by simp

lemma run_frame_bindings:
  assumes f: "run_frame k b cl c1"
    and same: "cl' = c1\<lparr>cl_crbs := cl_crbs cl', cl_rbs := cl_rbs cl'\<rparr>"
    and keep: "\<And>n x. cl_crbs c1 n = Some x \<Longrightarrow> \<not> owned_by (om_UID b) x \<Longrightarrow> cl_crbs cl' n = Some x"
      "\<And>n x. cl_rbs c1 n = Some x \<Longrightarrow> \<not> owned_by (om_UID b) x \<Longrightarrow> cl_rbs cl' n = Some x"
    and new: "\<And>n x. cl_crbs cl' n = Some x \<Longrightarrow>
        cl_crbs c1 n = Some x \<or> grants_entitled b clusterRoleKind (cl_clusterroles cl) x"
      "\<And>n x. cl_rbs cl' n = Some x \<Longrightarrow> cl_rbs c1 n = Some x \<or> grants_entitled b ''Role'' (cl_roles cl) x"
  shows "run_frame k b cl cl'"
proof -
  have e: "cl_binds cl' = cl_binds c1" "cl_clusterroles cl' = cl_clusterroles c1" "cl_roles cl' = cl_roles c1"
    by (subst same, simp)+
  show ?thesis
    using f unfolding run_frame_def e by (meson keep new)
qed

lemma sync_frame_entitled:
  assumes f: "sync_frame y s cl cl'" and s: "s = bind_subject b"
    and y: "om_UID y = om_UID b" "uab_Spec y = uab_Spec b"
  shows "cl_crbs cl' n = Some x \<Longrightarrow>
      cl_crbs cl n = Some x \<or> grants_entitled b clusterRoleKind (cl_clusterroles cl) x"
    and "cl_rbs cl' k = Some x \<Longrightarrow> cl_rbs cl k = Some x \<or> grants_entitled b ''Role'' (cl_roles cl) x"
proof -
  have ent: "entitled y rs = entitled b rs" for rs by (simp add: entitled_def member_of_def y)
  show "cl_crbs cl n = Some x \<or> grants_entitled b clusterRoleKind (cl_clusterroles cl) x"
    if "cl_crbs cl' n = Some x"
    using sync_frame_new(1) [OF f that]
  proof
    assume "\<exists>d \<in> set (desiredCRBs y s (cl_clusterroles cl)). om_Name d = n \<and> same_binding d x"
    then obtain d where d: "d \<in> set (desiredCRBs y s (cl_clusterroles cl))" "same_binding d x" by blast
    then show ?thesis using desired_canonical(1) [OF d]
      by (auto simp: grants_entitled_def s y ent desiredCRBs_set same_binding_def)
  qed simp
  show "cl_rbs cl k = Some x \<or> grants_entitled b ''Role'' (cl_roles cl) x" if "cl_rbs cl' k = Some x"
    using sync_frame_new(2) [OF f that]
  proof
    assume "\<exists>d \<in> set (desiredRBs y s (cl_roles cl)). nsname_of d = k \<and> same_binding d x"
    then obtain d where d: "d \<in> set (desiredRBs y s (cl_roles cl))" "same_binding d x" by blast
    then show ?thesis using desired_canonical(2) [OF d]
      by (auto simp: grants_entitled_def s y ent desiredRBs_set same_binding_def)
  qed simp
qed

lemma run_frame_step:
  assumes "bind_step k c1 c2" and "run_frame k b cl c1"
  shows "run_frame k b cl c2"
  using assms
proof (induction rule: bind_step.induct)
  case (add_finalizer c1 y)
  with run_frame_bind [of k b cl c1 y] show ?case by (intro run_frame_put_bind) auto
next
  case (accept c1 y s)
  with run_frame_bind [of k b cl c1 y] show ?case by (intro run_frame_put_bind) auto
next
  case (progress c1 y s)
  with run_frame_bind [of k b cl c1 y] show ?case by (intro run_frame_put_bind) auto
next
  case (service_account c1 y sa)
  then show ?case unfolding run_frame_def by simp
next
  case (synchronise c1 y c2)
  note y = run_frame_bind [OF synchronise(5,1)]
  have s: "bind_subject y = bind_subject b" using y by (simp add: bind_subject_def)
  have roles: "cl_clusterroles c1 = cl_clusterroles cl" "cl_roles c1 = cl_roles cl"
    using synchronise(5) unfolding run_frame_def by simp_all
  note new = sync_frame_entitled [OF synchronise(4) s, unfolded roles]
  from synchronise(4) y have f: "c2 = c1\<lparr>cl_crbs := cl_crbs c2, cl_rbs := cl_rbs c2\<rparr>"
    "\<forall>n x. cl_crbs c1 n = Some x \<longrightarrow> \<not> owned_by (om_UID b) x \<longrightarrow> cl_crbs c2 n = Some x"
    "\<forall>n x. cl_rbs c1 n = Some x \<longrightarrow> \<not> owned_by (om_UID b) x \<longrightarrow> cl_rbs c2 n = Some x"
    unfolding sync_frame_def by simp_all
  show ?case using synchronise(5) f(1) by (rule run_frame_bindings) (use f(2,3) new y in blast)+
next
  case (revoke c1 y c2)
  note y = run_frame_bind [OF revoke(6,1)]
  show ?case using revoke(6,3)
    by (rule run_frame_bindings) (use revoke(4,5) y in \<open>auto dest: shrunkD shrunk_sub\<close>)
next
  case (unbind c1 y s)
  with run_frame_bind [of k b cl c1 y] show ?case by (intro run_frame_put_bind) auto
next
  case (release c1 y)
  with run_frame_bind [of k b cl c1 y] show ?case
    by (intro run_frame_put_bind) (auto simp: stored_def split: if_splits)
qed

lemma run_frame_steps:
  assumes "(bind_step k)\<^sup>*\<^sup>* cl cl'" and "cl_binds cl k = Some b"
  shows "run_frame k b cl cl'"
  using assms(1) by (induction rule: rtranclp_induct) (auto intro: run_frame_step run_frame_refl assms(2))

section \<open>The operator in its cluster\<close>

text \<open>
  What everybody else may do between two reconciles: create, edit and ask to delete
  resources, edit roles, ServiceAccounts and bindings. They leave the operator's owner
  label, finalizer and status alone; an object with a finalizer does not disappear.
\<close>

definition env_step :: "cluster \<Rightarrow> cluster \<Rightarrow> bool" where
  "env_step cl cl' \<longleftrightarrow>
     (\<forall>n b u. cl_crbs cl' n = Some b \<longrightarrow> owned_by u b \<longrightarrow> (\<exists>n' b'. cl_crbs cl n' = Some b' \<and> owned_by u b')) \<and>
     (\<forall>n b u. cl_rbs cl' n = Some b \<longrightarrow> owned_by u b \<longrightarrow> (\<exists>n' b'. cl_rbs cl n' = Some b' \<and> owned_by u b')) \<and>
     (\<forall>k b. cl_binds cl k = Some b \<longrightarrow> finalizer \<in> set (om_Finalizers b) \<longrightarrow>
        (\<exists>b'. cl_binds cl' k = Some b' \<and> om_UID b' = om_UID b \<and> phase b' = phase b \<and>
           finalizer \<in> set (om_Finalizers b')))"

lemma access_inv_env_step:
  assumes e: "env_step cl cl'" and inv: "access_inv cl"
  shows "access_inv cl'"
proof -
  have cov: "covers u cl'" if "covers u cl" for u
    using that e unfolding covers_def env_step_def by metis
  show ?thesis
    unfolding access_inv_def
  proof (intro conjI allI impI)
    fix n b u
    show "covers u cl'" if x: "cl_crbs cl' n = Some b" "owned_by u b"
    proof -
      obtain n' b' where "cl_crbs cl n' = Some b'" "owned_by u b'"
        using e x unfolding env_step_def by blast
      then show ?thesis using cov access_invD(1) [OF inv] by blast
    qed
    show "covers u cl'" if x: "cl_rbs cl' n = Some b" "owned_by u b" for n
    proof -
      obtain n' b' where "cl_rbs cl n' = Some b'" "owned_by u b'"
        using e x unfolding env_step_def by blast
      then show ?thesis using cov access_invD(2) [OF inv] by blast
    qed
  qed
qed

inductive system_step ::
  "('w, 'a) kube_scheme \<Rightarrow> ('w \<Rightarrow> cluster) \<Rightarrow> 'l golib_scheme \<Rightarrow> 'w \<Rightarrow> 'w \<Rightarrow> bool"
  for K view L where
  reconciled: "Reconcile K L k w = (r, w') \<Longrightarrow> system_step K view L w w'"
| environment: "env_step (view w) (view w') \<Longrightarrow> system_step K view L w w'"

inductive_cases system_stepE: "system_step K view L w w'"

context operator_api
begin

lemma access_inv_system_steps:
  "(system_step K view L)\<^sup>*\<^sup>* w w' \<Longrightarrow> access_inv (view w) \<Longrightarrow> access_inv (view w')"
proof (induction rule: rtranclp_induct)
  case (step w1 w2)
  from step(2) step(3) [OF step(4)] show ?case
    by (elim system_stepE)
      (blast intro: access_inv_bind_steps [OF Reconcile_steps] access_inv_env_step)+
qed

end

end
