(* ===== verification/Controller_Correct.thy ===== *)
theory Controller_Correct
  imports Controller_Steps
begin

text \<open>
  What a single \<open>Reconcile\<close> establishes: a resource it leaves in phase \<open>binded\<close> has exactly
  the access it is entitled to, an expired one has none, a deleted one keeps its finalizer
  until its bindings are gone, and one that is in order is left alone.
\<close>

section \<open>Runs that end well\<close>

lemma finish_with_ok:
  "finish_with K orig b ph c rs m w = (Inr res, w') \<Longrightarrow>
   \<exists>y. updatePhase K orig b ph c rs m w = ((None, y), w') \<and> res = \<lparr>RequeueAfter = 0\<rparr>"
  by (auto simp: finish_with_def done_or_def result_ok_def split: prod.splits option.splits)

text \<open>How the resource stands when synchronisation starts, against the one that was read.\<close>

definition began :: "UserAuthenticationBind \<Rightarrow> UserAuthenticationBind \<Rightarrow> ServiceAccount \<Rightarrow> bool" where
  "began b y sa \<longleftrightarrow>
     y = b \<and> phase b = BindBinded \<or>
     phase b \<noteq> BindBinded \<and> phase y = BindBinding \<and> sv_Ref (st_Sv (uab_Status y)) = om_UID sa \<and>
     sv_ExpiresAt (st_Sv (uab_Status y)) = sv_ExpiresAt (st_Sv (uab_Status b)) \<and>
     uab_Spec y = uab_Spec b \<and> om_UID y = om_UID b \<and> nsname_of y = nsname_of b \<and> live y = live b"

definition same_rbac :: "cluster \<Rightarrow> cluster \<Rightarrow> bool" where
  "same_rbac cl cl' \<longleftrightarrow>
     cl_crbs cl' = cl_crbs cl \<and> cl_rbs cl' = cl_rbs cl \<and>
     cl_clusterroles cl' = cl_clusterroles cl \<and> cl_roles cl' = cl_roles cl"

lemma same_rbac_refl [simp]: "same_rbac cl cl"
  by (simp add: same_rbac_def)

lemma same_rbac_put [simp]: "same_rbac cl (put_bind k v cl)" "same_rbac cl (put_sa s t cl)"
  by (simp_all add: same_rbac_def)

lemma same_rbac_trans: "same_rbac a b \<Longrightarrow> same_rbac b c \<Longrightarrow> same_rbac a c"
  by (simp add: same_rbac_def)

lemma granted_cong:
  assumes "same_rbac cl cl'"
  shows "granted_cluster_roles uid s cl' = granted_cluster_roles uid s cl"
    and "granted_roles uid s cl' = granted_roles uid s cl"
    and "canonical uid s cl' = canonical uid s cl"
    and "owned_free uid cl' = owned_free uid cl"
  using assms
  by (simp_all add: same_rbac_def granted_cluster_roles_def granted_roles_def canonical_def owned_free_def)

lemma entitled_cong: "uab_Spec b' = uab_Spec b \<Longrightarrow> entitled b' rs = entitled b rs"
  by (simp add: entitled_def member_of_def)

lemma sv_merge:
  "sv_Ref (st_Sv (merge_status orig new cur)) =
     merged (sv_Ref (st_Sv orig)) (sv_Ref (st_Sv new)) (sv_Ref (st_Sv cur))"
  "sv_ExpiresAt (st_Sv (merge_status orig new cur)) =
     merged (sv_ExpiresAt (st_Sv orig)) (sv_ExpiresAt (st_Sv new)) (sv_ExpiresAt (st_Sv cur))"
  by (simp_all add: merge_status_def)

context operator_api
begin

lemma updatePhase_ok:
  assumes run: "updatePhase K orig b ph c rs m w = ((None, b'), w')"
    and cur: "cl_binds (view w) (nsname_of b) = Some cur"
  obtains new where "new = set_phase K b ph c rs m (k_now K w)" and "b' = patched orig new cur"
    and "view w' = put_bind (nsname_of b) (Some b') (view w)"
  using run cur by (rule updatePhase_cases) (auto intro: that)

text \<open>Synchronisation that ends in \<open>binded\<close> went through, and recorded its outcome.\<close>

lemma reconcileSync_binded:
  assumes run: "reconcileSync K b y sa e w = (Inr res, w')"
    and y: "cl_binds (view w) k = Some y" and beg: "began b y sa"
    and fin: "cl_binds (view w') k = Some b'" "phase b' = BindBinded"
  obtains w1 where "syncBindings K y sa w = (None, w1)"
    and "view w' = put_bind k (Some b') (view w1)"
    and "sv_Ref (st_Sv (uab_Status b')) = om_UID sa"
    and "sv_ExpiresAt (st_Sv (uab_Status b')) = Some e"
    and "RequeueAfter res = Sub e (k_now K w')"
    and "phase b = BindBinded \<Longrightarrow> sv_Ref (st_Sv (uab_Status y)) = om_UID sa \<Longrightarrow>
      sv_ExpiresAt (st_Sv (uab_Status y)) = Some e \<Longrightarrow> b' = y"
proof -
  have k: "nsname_of y = k" using y by (rule bind_key)
  obtain r1 w1 where s: "syncBindings K y sa w = (r1, w1)" by fastforce
  have y1: "cl_binds (view w1) k = Some y"
    using sync_frame_binds [OF syncBindings_frame [OF s]] y by simp
  show thesis
  proof (cases r1)
    case (Some x)
    with run s have "finish_with K b y BindFailed ConditionFalse ''BindFailed'' (errText x) w1 = (Inr res, w')"
      by (simp add: reconcileSync_def)
    from finish_with_ok [OF this]
    obtain z where "updatePhase K b y BindFailed ConditionFalse ''BindFailed'' (errText x) w1 = ((None, z), w')"
      by auto
    then have "phase b' \<noteq> BindBinded"
      using y1 k beg fin by (elim updatePhase_ok) (auto simp: merged_def began_def split: if_splits)
    with fin show thesis by simp
  next
    case None
    define est where "est \<longleftrightarrow> phase b = BindBinded \<and> sv_Ref (st_Sv (uab_Status y)) = om_UID sa \<and>
      sv_ExpiresAt (st_Sv (uab_Status y)) = Some e"
    show thesis
    proof (cases est)
      case True
      with run s None have w': "w' = w1" and q: "RequeueAfter res = Sub e (k_now K w1)"
        by (auto simp: reconcileSync_def Let_def est_def)
      then have "b' = y" using fin y1 by simp
      moreover have "view w1 = put_bind k (Some y) (view w1)"
        unfolding put_bind_def using y1 by (cases "view w1") (simp add: fun_upd_idem)
      ultimately show thesis using that [of w1] s None w' q True by (simp add: est_def)
    next
      case False
      obtain z where u: "updatePhase K b (set_ref_expiry (om_UID sa) e y) BindBinded ConditionTrue ''Bound''
          (bound_message y) w1 = ((None, z), w')" and q: "RequeueAfter res = Sub e (k_now K w')"
        using run s None False
        by (auto simp: reconcileSync_def Let_def est_def split: prod.splits option.splits)
      then obtain new where new: "new = set_phase K (set_ref_expiry (om_UID sa) e y) BindBinded ConditionTrue
            ''Bound'' (bound_message y) (k_now K w1)"
        and z: "z = patched b new y" and v: "view w' = put_bind k (Some z) (view w1)"
        using y1 k by (elim updatePhase_ok) auto
      with fin have "b' = z" by simp
      moreover have "sv_Ref (st_Sv (uab_Status z)) = om_UID sa" "sv_ExpiresAt (st_Sv (uab_Status z)) = Some e"
        using z new beg by (auto simp: sv_merge merged_def began_def)
      ultimately show thesis using that [of w1] s None v q False by (simp add: est_def)
    qed
  qed
qed

text \<open>The stages of a run on an unexpired resource up to synchronisation.\<close>

lemma reconcileActive_ok:
  assumes run: "reconcileActive K b e w = (Inr res, w')"
    and b: "cl_binds (view w) k = Some b"
  obtains (sa_failed) s where "cl_binds (view w') k = Some (b\<lparr>uab_Status := s\<rparr>)"
      and "sv_Status (st_Sv s) = BindFailed"
  | (sync) sa y w1 where "nsname_of sa = (om_Namespace b, spec_User (uab_Spec b))"
      and "began b y sa" and "cl_binds (view w1) k = Some y" and "same_rbac (view w) (view w1)"
      and "cl_sas (view w1) = (cl_sas (view w))(nsname_of sa \<mapsto> sa)"
      and "reconcileSync K b y sa e w1 = (Inr res, w')"
      and "\<And>cur. cl_sas (view w) (nsname_of sa) = Some cur \<Longrightarrow> om_UID sa = om_UID cur"
proof -
  have k: "nsname_of b = k" using b by (rule bind_key)
  obtain r1 w1 where s: "ensureServiceAccount K b w = (r1, w1)" by fastforce
  have "cl_binds (view w1) k = Some b \<and> same_rbac (view w) (view w1)"
    by (rule ensureServiceAccount_cases [OF s]) (use b in simp_all)
  then have b1: "cl_binds (view w1) k = Some b" and rb: "same_rbac (view w) (view w1)" by simp_all
  show thesis
  proof (cases r1)
    case (Inl x)
    with run s have "finish_with K b b BindFailed ConditionFalse ''ServiceAccountFailed'' (errText x) w1 = (Inr res, w')"
      by (simp add: reconcileActive_def)
    from finish_with_ok [OF this] obtain z where
      "updatePhase K b b BindFailed ConditionFalse ''ServiceAccountFailed'' (errText x) w1 = ((None, z), w')"
      by auto
    then show thesis using b1 k by (elim updatePhase_ok) (auto simp: patched_def merged_def intro: sa_failed)
  next
    case (Inr sa)
    have "nsname_of sa = (om_Namespace b, spec_User (uab_Spec b)) \<and>
        cl_sas (view w1) = (cl_sas (view w))(nsname_of sa \<mapsto> sa)"
      by (rule ensureServiceAccount_cases [OF s]) (use Inr in auto)
    then have sa: "nsname_of sa = (om_Namespace b, spec_User (uab_Spec b))"
      and sas: "cl_sas (view w1) = (cl_sas (view w))(nsname_of sa \<mapsto> sa)" by simp_all
    from s Inr have "k_createOrUpdateSA K (nsname_of sa) (\<lambda>x. k_setControllerReference K b x) w = (Inr sa, w1)"
      by (simp add: ensureServiceAccount_def sa)
    from createOrUpdateSA_ok [OF this]
    have uid: "om_UID sa = om_UID cur" if "cl_sas (view w) (nsname_of sa) = Some cur" for cur using that by blast
    show thesis
    proof (cases "phase b = BindBinded")
      case True
      with run s Inr have "reconcileSync K b b sa e w1 = (Inr res, w')" by (simp add: reconcileActive_def)
      with sync [OF sa _ b1 rb sas _ uid] True show thesis by (simp add: began_def)
    next
      case False
      let ?b = "set_ref (om_UID sa) b"
      obtain y w2 where u: "updatePhase K b ?b BindBinding ConditionUnknown ''Syncing''
          ''Syncing RBAC bindings'' w1 = ((None, y), w2)" and r: "reconcileSync K b y sa e w2 = (Inr res, w')"
        using run s Inr False by (auto simp: reconcileActive_def split: prod.splits option.splits)
      from u obtain new where new: "new = set_phase K ?b BindBinding ConditionUnknown ''Syncing''
            ''Syncing RBAC bindings'' (k_now K w1)"
        and y: "y = patched b new b" and v: "view w2 = put_bind k (Some y) (view w1)"
        using b1 k by (elim updatePhase_ok) auto
      have "began b y sa"
        using False y new by (simp add: began_def sv_merge merged_def set_ref_def)
      moreover have "same_rbac (view w) (view w2)" using same_rbac_trans [OF rb, of "view w2"] v by simp
      ultimately show thesis using sync [OF sa _ _ _ _ r uid] v sas by simp
    qed
  qed
qed

lemma Reconcile_live:
  "k_getBind K k w = (Inr b, w1) \<Longrightarrow> live b \<Longrightarrow> Reconcile K L k w = reconcileBind K L b w1"
  by (simp add: Reconcile_def live_def addFinalizer)

lemma Reconcile_ok_read:
  assumes "Reconcile K L k w = (Inr res, w')" and "cl_binds (view w) k = Some b"
  obtains w0 where "k_getBind K k w = (Inr b, w0)" and "view w0 = view w" and "k_now K w \<le> k_now K w0"
proof -
  obtain g w0 where g: "k_getBind K k w = (g, w0)" by fastforce
  have "g = Inr b"
  proof (cases g)
    case (Inl x)
    with assms(1) g have "errors_Is x ApiNotFound" by (auto simp: Reconcile_def split: if_splits)
    with getBind_missing g Inl assms(2) show ?thesis by simp
  next
    case (Inr x)
    with getBind_ok g assms(2) show ?thesis by simp
  qed
  with that g getBind_view [OF g] getBind_now [OF g] show thesis by simp
qed

text \<open>A resource that is left \<open>binded\<close> was synchronised in this very run.\<close>

lemma Reconcile_binded:
  assumes run: "Reconcile K L k w = (Inr res, w')"
    and b: "cl_binds (view w) k = Some b" "live b"
    and fin: "cl_binds (view w') k = Some b'" "phase b' = BindBinded"
  obtains sa y e w1 w2 where "bindExpiry L b = Inr e"
    and "nsname_of sa = (om_Namespace b, spec_User (uab_Spec b))"
    and "began b y sa" and "same_rbac (view w) (view w1)" and "syncBindings K y sa w1 = (None, w2)"
    and "view w' = put_bind k (Some b') (view w2)"
    and "cl_sas (view w') (nsname_of sa) = Some sa"
    and "sv_Ref (st_Sv (uab_Status b')) = om_UID sa"
    and "sv_ExpiresAt (st_Sv (uab_Status b')) = Some e"
    and "RequeueAfter res = Sub e (k_now K w')"
    and "\<And>cur. phase b = BindBinded \<Longrightarrow> cl_sas (view w) (nsname_of sa) = Some cur \<Longrightarrow>
      sv_Ref (st_Sv (uab_Status b)) = om_UID cur \<Longrightarrow> sv_ExpiresAt (st_Sv (uab_Status b)) = Some e \<Longrightarrow> b' = b"
proof -
  have k: "nsname_of b = k" using b(1) by (rule bind_key)
  from run b(1) obtain w0 where g: "k_getBind K k w = (Inr b, w0)" and v0: "view w0 = view w"
    by (rule Reconcile_ok_read)
  with run b have rb: "reconcileBind K L b w0 = (Inr res, w')" by (simp add: Reconcile_live)
  have b0: "cl_binds (view w0) k = Some b" using b v0 by simp
  have bad: False if u: "updatePhase K b b ph c rs m w1 = ((None, z), w')" and "ph \<noteq> BindBinded"
    and "cl_binds (view w1) k = Some b" for ph c rs m w1 z
  proof -
    from u have "phase b' = ph"
      by (rule updatePhase_ok) (use that fin k in \<open>auto simp: merged_def\<close>)
    with that fin show False by simp
  qed
  consider (unset) "phase b = BindUnset"
    | (invalid) e where "phase b \<noteq> BindUnset" "bindExpiry L b = Inl e"
    | (expired) e where "phase b \<noteq> BindUnset" "bindExpiry L b = Inr e" "e \<le> k_now K w0"
    | (active) e where "phase b \<noteq> BindUnset" "bindExpiry L b = Inr e" "k_now K w0 < e"
    by (cases "bindExpiry L b") (auto simp: not_le [symmetric])
  then show thesis
  proof cases
    case unset
    obtain z where "updatePhase K b b BindPending ConditionUnknown ''Accepted''
        ''Bind accepted, pending sync'' w0 = ((None, z), w')"
      using rb unset by (auto simp: reconcileBind_def split: prod.splits option.splits)
    from bad [OF this _ b0] show thesis by simp
  next
    case (invalid e)
    with rb have "finish_with K b b BindFailed ConditionFalse ''InvalidTTL'' (errText e) w0 = (Inr res, w')"
      by (simp add: reconcileBind_def)
    from finish_with_ok [OF this] obtain z where
      "updatePhase K b b BindFailed ConditionFalse ''InvalidTTL'' (errText e) w0 = ((None, z), w')" by auto
    from bad [OF this _ b0] show thesis by simp
  next
    case (expired e)
    with rb have x: "reconcileExpired K b w0 = (Inr res, w')" by (simp add: reconcileBind_def)
    obtain r1 w1 where d: "deleteOwned K (om_UID b) w0 = (r1, w1)" by fastforce
    have "cl_binds (view w1) k = Some b"
      using deleteOwned_step(2) [OF d b0] b b0 by (simp add: live_def)
    note bad' = bad [OF _ _ this]
    show thesis
    proof (cases "phase b = BindUnbound")
      case True
      with x b0 fin show thesis by (simp add: reconcileExpired_def)
    next
      case False
      with x d have "finish_with K b b BindUnbound ConditionFalse ''Expired'' ''TTL elapsed'' w1 = (Inr res, w')"
        by (cases r1) (simp_all add: reconcileExpired_def)
      from finish_with_ok [OF this] obtain z where
        "updatePhase K b b BindUnbound ConditionFalse ''Expired'' ''TTL elapsed'' w1 = ((None, z), w')" by auto
      from bad' [OF this] show thesis by simp
    qed
  next
    case (active e)
    with rb have "reconcileActive K b e w0 = (Inr res, w')" by (simp add: reconcileBind_def)
    then show thesis using b0
    proof (cases rule: reconcileActive_ok)
      case (sa_failed s)
      with fin show thesis by auto
    next
      case (sync sa y w1)
      from reconcileSync_binded [OF sync(6,3,2) fin]
      obtain w2 where w2: "syncBindings K y sa w1 = (None, w2)" "view w' = put_bind k (Some b') (view w2)"
        "sv_Ref (st_Sv (uab_Status b')) = om_UID sa" "sv_ExpiresAt (st_Sv (uab_Status b')) = Some e"
        "RequeueAfter res = Sub e (k_now K w')"
        "phase b = BindBinded \<Longrightarrow> sv_Ref (st_Sv (uab_Status y)) = om_UID sa \<Longrightarrow>
          sv_ExpiresAt (st_Sv (uab_Status y)) = Some e \<Longrightarrow> b' = y"
        by blast
      have f: "view w2 = (view w1)\<lparr>cl_crbs := cl_crbs (view w2), cl_rbs := cl_rbs (view w2)\<rparr>"
        using syncBindings_frame [OF w2(1)] by (simp add: sync_frame_def)
      have "cl_sas (view w2) = cl_sas (view w1)" by (subst f) simp
      with w2(2) sync(5) have "cl_sas (view w') (nsname_of sa) = Some sa" by simp
      moreover have "b' = b" if "phase b = BindBinded" "cl_sas (view w) (nsname_of sa) = Some cur"
        "sv_Ref (st_Sv (uab_Status b)) = om_UID cur" "sv_ExpiresAt (st_Sv (uab_Status b)) = Some e" for cur
        using w2(6) sync(2) sync(7) [of cur] that v0 by (simp add: began_def)
      ultimately show thesis using that [OF active(2) sync(1,2) _ w2(1,2)] sync(4) w2(3-5) v0 by simp
    qed
  qed
qed

lemma Reconcile_binded_grants:
  assumes run: "Reconcile K L k w = (Inr res, w')"
    and b: "cl_binds (view w) k = Some b" "live b"
    and c: "canonical (om_UID b) (bind_subject b) (view w)"
    and fin: "cl_binds (view w') k = Some b'" "phase b' = BindBinded"
  shows "granted_cluster_roles (om_UID b) (bind_subject b) (view w') =
           om_Name ` entitled b (cl_clusterroles (view w))"
    and "granted_roles (om_UID b) (bind_subject b) (view w') =
           nsname_of ` entitled b (cl_roles (view w))"
    and "\<exists>sa. cl_sas (view w') (om_Namespace b, spec_User (uab_Spec b)) = Some sa \<and>
           sv_Ref (st_Sv (uab_Status b')) = om_UID sa"
    and "\<exists>e. bindExpiry L b = Inr e \<and> sv_ExpiresAt (st_Sv (uab_Status b')) = Some e"
proof -
  from run b fin obtain sa y e w1 w2 where e: "bindExpiry L b = Inr e"
    and sa: "nsname_of sa = (om_Namespace b, spec_User (uab_Spec b))"
    and y: "began b y sa" and rb: "same_rbac (view w) (view w1)" and s: "syncBindings K y sa w1 = (None, w2)"
    and v: "view w' = put_bind k (Some b') (view w2)"
    and sas: "cl_sas (view w') (nsname_of sa) = Some sa"
    and st: "sv_Ref (st_Sv (uab_Status b')) = om_UID sa" "sv_ExpiresAt (st_Sv (uab_Status b')) = Some e"
    by (rule Reconcile_binded) blast
  have subj: "subject_of sa = bind_subject b"
    using sa by (simp add: subject_of_def bind_subject_def nsname_of_def)
  have uid: "om_UID y = om_UID b" and "uab_Spec y = uab_Spec b" using y unfolding began_def by auto
  then have ent: "entitled y = entitled b" by (intro ext entitled_cong)
  have c1: "canonical (om_UID y) (subject_of sa) (view w1)" using c granted_cong(3) [OF rb] by (simp add: uid subj)
  have "same_rbac (view w2) (view w')" by (simp add: v)
  note g = granted_cong [OF this] and r = rb [unfolded same_rbac_def]
  show "granted_cluster_roles (om_UID b) (bind_subject b) (view w') =
      om_Name ` entitled b (cl_clusterroles (view w))"
    using syncBindings_grants(1) [OF s c1] r by (simp add: g uid subj ent)
  show "granted_roles (om_UID b) (bind_subject b) (view w') = nsname_of ` entitled b (cl_roles (view w))"
    using syncBindings_grants(2) [OF s c1] r by (simp add: g uid subj ent)
  show "\<exists>sa. cl_sas (view w') (om_Namespace b, spec_User (uab_Spec b)) = Some sa \<and>
      sv_Ref (st_Sv (uab_Status b')) = om_UID sa"
    using sas sa st by auto
  show "\<exists>e. bindExpiry L b = Inr e \<and> sv_ExpiresAt (st_Sv (uab_Status b')) = Some e"
    using e st by auto
qed

text \<open>Expiry.\<close>

lemma Reconcile_expired:
  assumes run: "Reconcile K L k w = (Inr res, w')"
    and b: "cl_binds (view w) k = Some b" "live b" "phase b \<noteq> BindUnset"
    and e: "bindExpiry L b = Inr e" "e \<le> k_now K w"
    and inv: "phase b = BindUnbound \<Longrightarrow> owned_free (om_UID b) (view w)"
  shows "owned_free (om_UID b) (view w')"
    and "\<exists>b'. cl_binds (view w') k = Some b' \<and> phase b' = BindUnbound"
proof -
  have k: "nsname_of b = k" using b(1) by (rule bind_key)
  from run b(1) obtain w0 where g: "k_getBind K k w = (Inr b, w0)" and v0: "view w0 = view w"
    and "k_now K w \<le> k_now K w0" by (rule Reconcile_ok_read)
  with run b e have x: "reconcileExpired K b w0 = (Inr res, w')"
    by (simp add: Reconcile_live reconcileBind_def)
  have "owned_free (om_UID b) (view w') \<and>
    (\<exists>b'. cl_binds (view w') k = Some b' \<and> phase b' = BindUnbound)"
  proof (cases "phase b = BindUnbound")
    case True
    with x inv b v0 show ?thesis by (simp add: reconcileExpired_def)
  next
    case False
    obtain r1 w1 where d: "deleteOwned K (om_UID b) w0 = (r1, w1)" by fastforce
    with x False have r1: "r1 = None" and f: "finish_with K b b BindUnbound ConditionFalse ''Expired''
        ''TTL elapsed'' w1 = (Inr res, w')" by (cases r1; simp add: reconcileExpired_def)+
    have b0: "cl_binds (view w0) k = Some b" using b v0 by simp
    have fin: "finalizer \<in> set (om_Finalizers b)" using b(2) by (simp add: live_def)
    note del = deleteOwned_step [OF d b0 fin]
    have b1: "cl_binds (view w1) (nsname_of b) = Some b" using del(2) b0 k by simp
    from finish_with_ok [OF f] obtain z where
      "updatePhase K b b BindUnbound ConditionFalse ''Expired'' ''TTL elapsed'' w1 = ((None, z), w')" by auto
    then show ?thesis using b1
      by (rule updatePhase_ok) (use del(3) [OF r1] k False in \<open>auto simp: merged_def owned_free_def\<close>)
  qed
  then show "owned_free (om_UID b) (view w')"
    and "\<exists>b'. cl_binds (view w') k = Some b' \<and> phase b' = BindUnbound" by simp_all
qed

text \<open>Deletion.\<close>

lemma Reconcile_deleted:
  assumes run: "Reconcile K L k w = (Inr res, w')"
    and b: "cl_binds (view w) k = Some b" "om_DeletionTimestamp b \<noteq> None"
      "finalizer \<in> set (om_Finalizers b)"
  shows "owned_free (om_UID b) (view w')"
    and "cl_binds (view w') k =
      stored (b\<lparr>om_Finalizers := filter (\<lambda>x. x \<noteq> finalizer) (om_Finalizers b)\<rparr>)"
proof -
  have k: "nsname_of b = k" using b(1) by (rule bind_key)
  from run b(1) obtain w0 where g: "k_getBind K k w = (Inr b, w0)" and v0: "view w0 = view w"
    by (rule Reconcile_ok_read)
  with run b have x: "reconcileDelete K b w0 = (Inr res, w')" by (simp add: Reconcile_def)
  have b0: "cl_binds (view w0) k = Some b" using b v0 by simp
  obtain r1 w1 where d: "deleteOwned K (om_UID b) w0 = (r1, w1)" by fastforce
  note del = deleteOwned_step [OF d b0 b(3)]
  let ?b = "b\<lparr>om_Finalizers := filter (\<lambda>x. x \<noteq> finalizer) (om_Finalizers b)\<rparr>"
  from x d b(3) obtain y where r1: "r1 = None" and u: "k_updateBind K ?b w1 = (Inr y, w')"
    by (auto simp: reconcileDelete_def containsFinalizer removeFinalizer
        split: option.splits sum.splits prod.splits)
  from updateBind_ok [OF u] del(2) b0 k have v: "view w' = put_bind k (stored ?b) (view w1)" by auto
  then show "cl_binds (view w') k = stored ?b" by simp
  from v del(3) [OF r1] show "owned_free (om_UID b) (view w')" by (simp add: owned_free_def)
qed

end

section \<open>Progress\<close>

lemma ensureBindings_total:
  "(\<And>b w e w'. b \<in> set ds \<Longrightarrow> create b w = (Some e, w') \<Longrightarrow> errors_Is e ApiAlreadyExists) \<Longrightarrow>
   \<exists>w'. ensureBindings create msg ds w = (None, w')"
proof (induction ds arbitrary: w)
  case (Cons d ds)
  obtain r w1 where c: "create d w = (r, w1)" by fastforce
  have "\<exists>w'. ensureBindings create msg ds w1 = (None, w')"
    by (rule Cons.IH) (use Cons.prems in \<open>meson list.set_intros(2)\<close>)
  with c Cons.prems [of d w _ w1] show ?case by (cases r) simp_all
qed simp

lemma pruneBindings_total:
  assumes "\<And>b w e w'. delete b w = (Some e, w') \<Longrightarrow> errors_Is e ApiNotFound"
  shows "\<exists>w'. pruneBindings delete keep msg bs w = (None, w')"
proof (induction bs arbitrary: w)
  case (Cons b bs)
  obtain r w1 where "delete b w = (r, w1)" by fastforce
  with assms Cons.IH [of w1] Cons.IH [of w] show ?case by (cases r) auto
qed simp

lemma syncKind_total:
  assumes "\<And>b w e w'. b \<in> set ds \<Longrightarrow> create b w = (Some e, w') \<Longrightarrow> errors_Is e ApiAlreadyExists"
    and list: "\<And>lab v w. \<exists>bs w'. list lab v w = (Inr bs, w')"
    and "\<And>b w e w'. delete b w = (Some e, w') \<Longrightarrow> errors_Is e ApiNotFound"
  shows "\<exists>w'. syncKind create list delete cm lm pm ks uid ds w = (None, w')"
proof -
  have "\<exists>w1. ensureBindings create cm ds w = (None, w1)" using assms(1) by (rule ensureBindings_total)
  then obtain w1 where e: "ensureBindings create cm ds w = (None, w1)" ..
  obtain bs w2 where l: "list ownerLabel uid w1 = (Inr bs, w2)" using list by meson
  obtain w3 where "pruneBindings delete (\<lambda>b. ks b \<in> set (map ks ds)) pm bs w2 = (None, w3)"
    using pruneBindings_total assms(3) by meson
  with e l show ?thesis by (simp add: syncKind_def)
qed

text \<open>The resource can become the controller of its ServiceAccount.\<close>

definition claimable :: "('w, 'a) kube_scheme \<Rightarrow> UserAuthenticationBind \<Rightarrow> cluster \<Rightarrow> bool" where
  "claimable K b cl \<longleftrightarrow>
     (let k = (om_Namespace b, spec_User (uab_Spec b))
      in case k_setControllerReference K b (current_sa k cl) of
           Inl _ \<Rightarrow> False | Inr sa \<Rightarrow> nsname_of sa = k)"

context reliable_api
begin

lemma ensureServiceAccount_total:
  "claimable K b (view w) \<Longrightarrow> \<exists>sa w'. ensureServiceAccount K b w = (Inr sa, w')"
  unfolding claimable_def ensureServiceAccount_def Let_def
  using createOrUpdateSA_total [of "k_setControllerReference K b" _ w] by (auto split: sum.splits)

lemma syncBindings_total: "\<exists>w'. syncBindings K b sa w = (None, w')"
proof -
  obtain crs w1 where l1: "k_listClusterRoles K w = (Inr crs, w1)" using listClusterRoles_total by meson
  have "\<exists>w2. syncClusterRoleBindings K (om_UID b) (desiredCRBs b (subject_of sa) crs) w1 = (None, w2)"
    unfolding syncClusterRoleBindings_def
    by (rule syncKind_total [OF createCRB_total listCRBs_total deleteCRB_total])
  then obtain w2 where s1: "syncClusterRoleBindings K (om_UID b) (desiredCRBs b (subject_of sa) crs) w1 = (None, w2)" ..
  obtain rs w3 where l2: "k_listRoles K w2 = (Inr rs, w3)" using listRoles_total by meson
  have ns: "CHR ''/'' \<notin> set (om_Namespace x)" if "x \<in> set (desiredRBs b (subject_of sa) rs)" for x
    using that listRoles_ok [OF l2] role_ns by (auto simp: desiredRBs_set entitled_def)
  have "\<exists>w4. syncRoleBindings K (om_UID b) (desiredRBs b (subject_of sa) rs) w3 = (None, w4)"
    unfolding syncRoleBindings_def
    by (rule syncKind_total [OF createRB_total [OF ns] listRBs_total deleteRB_total])
  then obtain w4 where "syncRoleBindings K (om_UID b) (desiredRBs b (subject_of sa) rs) w3 = (None, w4)" ..
  with l1 s1 l2 show ?thesis by (simp add: syncBindings_def)
qed

lemma updatePhase_total:
  assumes "cl_binds (view w) (nsname_of b) = Some cur"
  obtains new b' w' where "updatePhase K orig b ph c rs m w = ((None, b'), w')"
    and "new = set_phase K b ph c rs m (k_now K w)" and "b' = patched orig new cur"
    and "view w' = put_bind (nsname_of b) (Some b') (view w)" and "k_now K w' = k_now K w"
proof -
  let ?new = "set_phase K b ph c rs m (k_now K w)"
  have "cl_binds (view w) (nsname_of ?new) = Some cur" using assms by simp
  from patchStatus_total [OF this] obtain b' w'
    where p: "k_patchStatus K orig ?new w = (Inr b', w')" "k_now K w' = k_now K w" by blast
  from patchStatus_ok [OF p(1)] assms p that [of b' w' ?new] show thesis
    by (auto simp: updatePhase_def Let_def)
qed

text \<open>The three kinds of run that lead from a new resource to \<open>binded\<close>.\<close>

lemma Reconcile_adds_finalizer:
  assumes b: "cl_binds (view w) k = Some b" "om_DeletionTimestamp b = None"
    "finalizer \<notin> set (om_Finalizers b)"
  shows "\<exists>w'. Reconcile K L k w = (result_ok, w') \<and> k_now K w' = k_now K w \<and>
    cl_sas (view w') = cl_sas (view w) \<and>
    cl_binds (view w') k = Some (b\<lparr>om_Finalizers := om_Finalizers b @ [finalizer]\<rparr>)"
proof -
  let ?b = "b\<lparr>om_Finalizers := om_Finalizers b @ [finalizer]\<rparr>"
  obtain w0 where g: "k_getBind K k w = (Inr b, w0)" "k_now K w0 = k_now K w" using getBind_total b by blast
  have k: "nsname_of b = k" using b(1) by (rule bind_key)
  have b0: "cl_binds (view w0) (nsname_of ?b) = Some b" using getBind_view [OF g(1)] b k by simp
  obtain b' w1 where u: "k_updateBind K ?b w0 = (Inr b', w1)" "k_now K w1 = k_now K w0"
    using updateBind_total [OF b0] by blast
  have "stored ?b = Some ?b" using b by (simp add: stored_def)
  with updateBind_ok [OF u(1)] b0 k getBind_view [OF g(1)]
  have "cl_binds (view w1) k = Some ?b \<and> cl_sas (view w1) = cl_sas (view w)" by auto
  with g u b show ?thesis by (simp add: Reconcile_def addFinalizer)
qed

lemma Reconcile_accepts:
  assumes b: "cl_binds (view w) k = Some b" "live b" "phase b = BindUnset"
  shows "\<exists>w' s. Reconcile K L k w = (Inr \<lparr>RequeueAfter = Second\<rparr>, w') \<and> k_now K w' = k_now K w \<and>
    cl_sas (view w') = cl_sas (view w) \<and>
    cl_binds (view w') k = Some (b\<lparr>uab_Status := s\<rparr>) \<and> sv_Status (st_Sv s) = BindPending"
proof -
  obtain w0 where g: "k_getBind K k w = (Inr b, w0)" "k_now K w0 = k_now K w" using getBind_total b by blast
  have k: "nsname_of b = k" using b(1) by (rule bind_key)
  have "cl_binds (view w0) (nsname_of b) = Some b" using getBind_view [OF g(1)] b k by simp
  then obtain new b' w' where u: "updatePhase K b b BindPending ConditionUnknown ''Accepted''
      ''Bind accepted, pending sync'' w0 = ((None, b'), w')"
    and new: "new = set_phase K b BindPending ConditionUnknown ''Accepted'' ''Bind accepted, pending sync'' (k_now K w0)"
    and b': "b' = patched b new b" "view w' = put_bind (nsname_of b) (Some b') (view w0)" "k_now K w' = k_now K w0"
    by (rule updatePhase_total)
  have "Reconcile K L k w = (Inr \<lparr>RequeueAfter = Second\<rparr>, w')"
    using g b u by (simp add: Reconcile_live reconcileBind_def)
  moreover have "cl_binds (view w') k = Some (b\<lparr>uab_Status := uab_Status new\<rparr>)"
    using b' k by (simp add: patched_def)
  moreover have "phase new = BindPending" by (simp add: new)
  moreover have "cl_sas (view w') = cl_sas (view w)" using b'(2) getBind_view [OF g(1)] by simp
  ultimately show ?thesis using b' g by auto
qed

lemma reconcileSync_total:
  assumes y: "cl_binds (view w) k = Some y"
  shows "\<exists>res w' b'. reconcileSync K b y sa e w = (Inr res, w') \<and> cl_binds (view w') k = Some b' \<and>
    (phase b = BindBinded \<longrightarrow> phase y = BindBinded \<longrightarrow> phase b' = BindBinded) \<and>
    (phase b \<noteq> BindBinded \<longrightarrow> phase b' = BindBinded)"
proof -
  have k: "nsname_of y = k" using y by (rule bind_key)
  obtain w1 where s: "syncBindings K y sa w = (None, w1)" using syncBindings_total by meson
  have y1: "cl_binds (view w1) k = Some y"
    using sync_frame_binds [OF syncBindings_frame [OF s]] y by simp
  then have "cl_binds (view w1) (nsname_of (set_ref_expiry (om_UID sa) e y)) = Some y" using k by simp
  then obtain new z w2 where u: "updatePhase K b (set_ref_expiry (om_UID sa) e y) BindBinded ConditionTrue
      ''Bound'' (bound_message y) w1 = ((None, z), w2)"
    and new: "new = set_phase K (set_ref_expiry (om_UID sa) e y) BindBinded ConditionTrue ''Bound''
      (bound_message y) (k_now K w1)" and z: "z = patched b new y"
    and v: "view w2 = put_bind (nsname_of (set_ref_expiry (om_UID sa) e y)) (Some z) (view w1)"
    by (rule updatePhase_total)
  have z2: "cl_binds (view w2) k = Some z" using v k by simp
  have pz: "phase z = merged (phase b) BindBinded (phase y)" by (simp add: z new)
  define est where "est \<longleftrightarrow> phase b = BindBinded \<and> sv_Ref (st_Sv (uab_Status y)) = om_UID sa \<and>
    sv_ExpiresAt (st_Sv (uab_Status y)) = Some e"
  show ?thesis
  proof (cases est)
    case True
    then have "reconcileSync K b y sa e w = (Inr \<lparr>RequeueAfter = Sub e (k_now K w1)\<rparr>, w1)"
      using s by (simp add: reconcileSync_def Let_def est_def)
    with y1 True show ?thesis by (auto simp: est_def)
  next
    case False
    then have "reconcileSync K b y sa e w = (Inr \<lparr>RequeueAfter = Sub e (k_now K w2)\<rparr>, w2)"
      using s u by (auto simp add: reconcileSync_def Let_def est_def)
    with z2 pz show ?thesis by (auto simp: merged_def)
  qed
qed

lemma Reconcile_binds:
  assumes b: "cl_binds (view w) k = Some b" "live b" "phase b \<noteq> BindUnset"
    and e: "bindExpiry L b = Inr e" "k_now K w < e"
    and scr: "claimable K b (view w)"
  shows "\<exists>res w' b'. Reconcile K L k w = (Inr res, w') \<and> cl_binds (view w') k = Some b' \<and> phase b' = BindBinded"
proof -
  obtain w0 where g: "k_getBind K k w = (Inr b, w0)" "k_now K w0 = k_now K w" using getBind_total b by blast
  have k: "nsname_of b = k" using b(1) by (rule bind_key)
  have b0: "cl_binds (view w0) k = Some b" using getBind_view [OF g(1)] b by simp
  have R: "Reconcile K L k w = reconcileActive K b e w0"
    using g b e by (simp add: Reconcile_live reconcileBind_def)
  obtain sa w1 where s: "ensureServiceAccount K b w0 = (Inr sa, w1)"
    using ensureServiceAccount_total [of b w0] scr getBind_view [OF g(1)] by auto
  have b1: "cl_binds (view w1) k = Some b"
    by (rule ensureServiceAccount_cases [OF s]) (use b0 in simp_all)
  show ?thesis
  proof (cases "phase b = BindBinded")
    case True
    with R s reconcileSync_total [OF b1, of b sa e] show ?thesis by (auto simp: reconcileActive_def)
  next
    case False
    let ?b = "set_ref (om_UID sa) b"
    have "cl_binds (view w1) (nsname_of ?b) = Some b" using b1 k by simp
    then obtain y w2 where u: "updatePhase K b ?b BindBinding ConditionUnknown ''Syncing''
        ''Syncing RBAC bindings'' w1 = ((None, y), w2)" and v: "view w2 = put_bind (nsname_of ?b) (Some y) (view w1)"
      by (rule updatePhase_total)
    have "cl_binds (view w2) k = Some y" using v k by simp
    from reconcileSync_total [OF this, of b sa e] R s u False show ?thesis
      by (auto simp: reconcileActive_def)
  qed
qed

end

lemma bindExpiry_simps [simp]:
  "bindExpiry L (b\<lparr>om_Finalizers := fs\<rparr>) = bindExpiry L b"
  "bindExpiry L (b\<lparr>uab_Status := s\<rparr>) = bindExpiry L b"
  by (simp_all add: bindExpiry_def bindAnchor_def split: sum.split option.split)

text \<open>Repeated runs on one resource.\<close>

definition reconciles ::
  "('w, 'a) kube_scheme \<Rightarrow> 'l golib_scheme \<Rightarrow> nsname \<Rightarrow> nat \<Rightarrow> 'w \<Rightarrow> 'w" where
  "reconciles K L k n = (\<lambda>w. snd (Reconcile K L k w)) ^^ n"

context reliable_api
begin

lemma claimable_cong:
  assumes "om_UID b' = om_UID b" and "nsname_of b' = nsname_of b" and "uab_Spec b' = uab_Spec b"
    and "cl_sas cl' = cl_sas cl"
  shows "claimable K b' cl' = claimable K b cl"
proof -
  have "om_Namespace b' = om_Namespace b" using assms(2) by (simp add: nsname_of_def)
  with setControllerReference_owner [OF assms(1,2)] assms(3,4) show ?thesis
    by (simp add: claimable_def current_sa_def)
qed

lemma Reconcile_converges:
  assumes b: "cl_binds (view w) k = Some b" "om_DeletionTimestamp b = None"
      "finalizer \<notin> set (om_Finalizers b)" "phase b = BindUnset"
    and e: "bindExpiry L b = Inr e" "k_now K w < e" and c: "claimable K b (view w)"
  shows "\<exists>b' sa. cl_binds (view (reconciles K L k 3 w)) k = Some b' \<and> phase b' = BindBinded \<and>
    cl_sas (view (reconciles K L k 3 w)) (om_Namespace b, spec_User (uab_Spec b)) = Some sa"
proof -
  let ?b1 = "b\<lparr>om_Finalizers := om_Finalizers b @ [finalizer]\<rparr>"
  obtain w1 where w1: "Reconcile K L k w = (result_ok, w1)" "k_now K w1 = k_now K w"
    "cl_sas (view w1) = cl_sas (view w)" "cl_binds (view w1) k = Some ?b1"
    using Reconcile_adds_finalizer [OF b(1-3), of L] by meson
  have "live ?b1" "phase ?b1 = BindUnset" using b by (simp_all add: live_def)
  from Reconcile_accepts [OF w1(4) this, of L] obtain w2 s where
    w2: "Reconcile K L k w1 = (Inr \<lparr>RequeueAfter = Second\<rparr>, w2)" "k_now K w2 = k_now K w1"
      "cl_sas (view w2) = cl_sas (view w1)" "cl_binds (view w2) k = Some (?b1\<lparr>uab_Status := s\<rparr>)"
      "sv_Status (st_Sv s) = BindPending" by meson
  let ?b2 = "?b1\<lparr>uab_Status := s\<rparr>"
  have "live ?b2" "phase ?b2 \<noteq> BindUnset" "bindExpiry L ?b2 = Inr e" "k_now K w2 < e"
    using \<open>live ?b1\<close> w1 w2 e by (simp_all add: live_def)
  moreover have "claimable K ?b2 (view w2)"
    using c claimable_cong [of ?b2 b "view w2" "view w"] w1 w2 by (simp add: nsname_of_def)
  ultimately have "\<exists>res w3 b'. Reconcile K L k w2 = (Inr res, w3) \<and> cl_binds (view w3) k = Some b' \<and>
      phase b' = BindBinded" by (rule Reconcile_binds [OF w2(4)])
  then obtain res w3 b' where r: "Reconcile K L k w2 = (Inr res, w3)" "cl_binds (view w3) k = Some b'"
    "phase b' = BindBinded" by auto
  moreover have "\<exists>sa. cl_sas (view w3) (om_Namespace b, spec_User (uab_Spec b)) = Some sa"
    by (rule Reconcile_binded [OF r(1) w2(4) \<open>live ?b2\<close> r(2,3)]) (simp; metis)
  moreover have "reconciles K L k 3 w = snd (Reconcile K L k w2)"
    using w1 w2 by (simp add: reconciles_def numeral_3_eq_3)
  ultimately show ?thesis by simp
qed

end

section \<open>Settling\<close>

text \<open>The owned bindings sit exactly where the entitled roles put them.\<close>

definition in_place :: "UserAuthenticationBind \<Rightarrow> cluster \<Rightarrow> bool" where
  "in_place b cl \<longleftrightarrow>
     (\<forall>r \<in> entitled b (cl_clusterroles cl). cl_crbs cl (bindingName (om_UID b) (om_Name r)) \<noteq> None) \<and>
     (\<forall>n x. cl_crbs cl n = Some x \<longrightarrow> owned_by (om_UID b) x \<longrightarrow>
        n \<in> (\<lambda>r. bindingName (om_UID b) (om_Name r)) ` entitled b (cl_clusterroles cl)) \<and>
     (\<forall>r \<in> entitled b (cl_roles cl). cl_rbs cl (om_Namespace r, bindingName (om_UID b) (om_Name r)) \<noteq> None) \<and>
     (\<forall>k x. cl_rbs cl k = Some x \<longrightarrow> owned_by (om_UID b) x \<longrightarrow>
        k \<in> (\<lambda>r. (om_Namespace r, bindingName (om_UID b) (om_Name r))) ` entitled b (cl_roles cl))"

lemma in_place_desired:
  assumes "in_place b cl"
  shows "d \<in> set (desiredCRBs b s (cl_clusterroles cl)) \<Longrightarrow> cl_crbs cl (om_Name d) \<noteq> None"
    and "cl_crbs cl n = Some x \<Longrightarrow> owned_by (om_UID b) x \<Longrightarrow>
      n \<in> om_Name ` set (desiredCRBs b s (cl_clusterroles cl))"
    and "d \<in> set (desiredRBs b s (cl_roles cl)) \<Longrightarrow> cl_rbs cl (nsname_of d) \<noteq> None"
    and "cl_rbs cl k = Some x \<Longrightarrow> owned_by (om_UID b) x \<Longrightarrow>
      k \<in> nsname_of ` set (desiredRBs b s (cl_roles cl))"
proof -
  show "cl_crbs cl (om_Name d) \<noteq> None" if "d \<in> set (desiredCRBs b s (cl_clusterroles cl))"
    using assms imageI [OF that, of om_Name] unfolding in_place_def desired_keys(1) by auto
  show "n \<in> om_Name ` set (desiredCRBs b s (cl_clusterroles cl))"
    if "cl_crbs cl n = Some x" "owned_by (om_UID b) x"
    using assms that unfolding in_place_def desired_keys(1) by blast
  show "cl_rbs cl (nsname_of d) \<noteq> None" if "d \<in> set (desiredRBs b s (cl_roles cl))"
    using assms imageI [OF that, of nsname_of] unfolding in_place_def desired_keys(2) by auto
  show "k \<in> nsname_of ` set (desiredRBs b s (cl_roles cl))"
    if "cl_rbs cl k = Some x" "owned_by (om_UID b) x"
    using assms that unfolding in_place_def desired_keys(2) by blast
qed

lemma rbKey_cong: "nsname_of x = nsname_of y \<Longrightarrow> rbKey x = rbKey y"
  by (simp add: nsname_of_def rbKey_def)

context rbac_api
begin

lemma syncClusterRoleBindings_settled:
  assumes run: "syncClusterRoleBindings K (om_UID b) (desiredCRBs b s (cl_clusterroles (view w))) w = (r, w')"
    and p: "in_place b (view w)"
  shows "view w' = view w"
proof -
  have only: "om_Name x \<in> set (map om_Name (desiredCRBs b s (cl_clusterroles (view w))))"
    if "cl_crbs (view w) n = Some x" and "owned_by (om_UID b) x" for n x
    using in_place_desired(2) [OF p that] crb.objs_key [OF that(1)] by simp
  have present: "\<forall>d \<in> set (desiredCRBs b s (cl_clusterroles (view w))). cl_crbs (view w) (om_Name d) \<noteq> None"
    using in_place_desired(1) [OF p] by (rule ballI)
  have "(view w')\<lparr>cl_crbs := Map.empty\<rparr> = (view w)\<lparr>cl_crbs := Map.empty\<rparr> \<and> cl_crbs (view w') = cl_crbs (view w)"
    by (rule crb.syncKind_settled [OF run [unfolded syncClusterRoleBindings_def] present only])
  then show ?thesis using view_rest_crb [of w' w] by simp
qed

lemma syncRoleBindings_settled:
  assumes run: "syncRoleBindings K (om_UID b) (desiredRBs b s (cl_roles (view w))) w = (r, w')"
    and p: "in_place b (view w)"
  shows "view w' = view w"
proof -
  have only: "rbKey x \<in> set (map rbKey (desiredRBs b s (cl_roles (view w))))"
    if "cl_rbs (view w) k = Some x" and "owned_by (om_UID b) x" for k x
  proof -
    from in_place_desired(4) [OF p that] obtain d where d: "d \<in> set (desiredRBs b s (cl_roles (view w)))"
      "k = nsname_of d" by blast
    with rb.objs_key [OF that(1)] have "rbKey x = rbKey d" by (intro rbKey_cong) simp
    with d show ?thesis by simp
  qed
  have present: "\<forall>d \<in> set (desiredRBs b s (cl_roles (view w))). cl_rbs (view w) (nsname_of d) \<noteq> None"
    using in_place_desired(3) [OF p] by (rule ballI)
  have "(view w')\<lparr>cl_rbs := Map.empty\<rparr> = (view w)\<lparr>cl_rbs := Map.empty\<rparr> \<and> cl_rbs (view w') = cl_rbs (view w)"
    by (rule rb.syncKind_settled [OF run [unfolded syncRoleBindings_def] present only])
  then show ?thesis using view_rest_rb [of w' w] by simp
qed

lemma syncBindings_settled:
  assumes run: "syncBindings K b sa w = (r, w')" and p: "in_place b (view w)"
  shows "view w' = view w"
  using run
proof (cases rule: syncBindings_stages)
  case (first w1 r1 w2)
  have "view w2 = view w1"
    by (rule syncClusterRoleBindings_settled [of b "subject_of sa" w1 r1 w2]) (use first p in simp_all)
  with first show ?thesis by simp
next
  case (both w1 w2 w3)
  have v: "view w2 = view w1"
    by (rule syncClusterRoleBindings_settled [of b "subject_of sa" w1 None w2]) (use both p in simp_all)
  have "view w' = view w3"
    by (rule syncRoleBindings_settled [of b "subject_of sa" w3 r w']) (use both p v in simp_all)
  with both v show ?thesis by simp
qed simp

end

context reliable_api
begin

lemma Reconcile_settled:
  assumes b: "cl_binds (view w) k = Some b" "live b" "phase b = BindBinded"
    and e: "bindExpiry L b = Inr e" "k_now K w < e" "sv_ExpiresAt (st_Sv (uab_Status b)) = Some e"
    and sa: "cl_sas (view w) (om_Namespace b, spec_User (uab_Spec b)) = Some sa"
      "k_setControllerReference K b sa = Inr sa" and sa_key: "nsname_of sa = (om_Namespace b, spec_User (uab_Spec b))"
    and ref: "sv_Ref (st_Sv (uab_Status b)) = om_UID sa"
    and p: "in_place b (view w)"
  shows "\<exists>w'. Reconcile K L k w = (Inr \<lparr>RequeueAfter = Sub e (k_now K w')\<rparr>, w') \<and> view w' = view w"
proof -
  let ?k = "(om_Namespace b, spec_User (uab_Spec b))"
  obtain w0 where g: "k_getBind K k w = (Inr b, w0)" "k_now K w0 = k_now K w" using getBind_total b by blast
  note v0 = getBind_view [OF g(1)]
  have R: "Reconcile K L k w = reconcileActive K b e w0"
    using g b e by (simp add: Reconcile_live reconcileBind_def)
  obtain sa' w1 where c: "k_createOrUpdateSA K ?k (k_setControllerReference K b) w0 = (Inr sa', w1)"
    using createOrUpdateSA_total [of "k_setControllerReference K b" ?k w0 sa] sa v0 sa_key
    by (auto simp: current_sa_def)
  from createOrUpdateSA_ok [OF c] sa v0 have sa': "sa' = sa" and "view w1 = put_sa ?k (Some sa) (view w)"
    by auto
  moreover have "put_sa ?k (Some sa) (view w) = view w"
    unfolding put_sa_def using sa(1) by (cases "view w") (simp add: fun_upd_idem)
  ultimately have v1: "view w1 = view w" by simp
  obtain w2 where s: "syncBindings K b sa w1 = (None, w2)" using syncBindings_total by meson
  with syncBindings_settled p v1 have v2: "view w2 = view w" by metis
  have "reconcileActive K b e w0 = (Inr \<lparr>RequeueAfter = Sub e (k_now K w2)\<rparr>, w2)"
    using c sa' s b e ref by (simp add: reconcileActive_def ensureServiceAccount_def reconcileSync_def Let_def)
  with R v2 show ?thesis by auto
qed

end

section \<open>A failure after a failure\<close>

text \<open>
  The status patch is a difference against the resource as it was read. When that one was
  already \<open>failed\<close>, the phase of a second failure is no difference, and the \<open>binding\<close> of the
  first patch stays.
\<close>

context operator_api
begin

lemma reconcileSync_failed_again:
  assumes y: "cl_binds (view w) k = Some y" and beg: "began b y sa" and f: "phase b = BindFailed"
    and s: "syncBindings K y sa w = (Some err, w1)"
    and run: "reconcileSync K b y sa e w = (Inr res, w')"
  shows "RequeueAfter res = 0 \<and> (\<exists>b'. cl_binds (view w') k = Some b' \<and> phase b' = BindBinding)"
proof -
  have k: "nsname_of y = k" using y by (rule bind_key)
  have y1: "cl_binds (view w1) (nsname_of y) = Some y"
    using sync_frame_binds [OF syncBindings_frame [OF s]] y k by simp
  from run s have "finish_with K b y BindFailed ConditionFalse ''BindFailed'' (errText err) w1 = (Inr res, w')"
    by (simp add: reconcileSync_def)
  from finish_with_ok [OF this] obtain z where res: "RequeueAfter res = 0"
    and u: "updatePhase K b y BindFailed ConditionFalse ''BindFailed'' (errText err) w1 = ((None, z), w')"
    by auto
  from u y1 have "\<exists>b'. cl_binds (view w') k = Some b' \<and> phase b' = BindBinding"
    by (rule updatePhase_ok) (use beg f k in \<open>auto simp: merged_def began_def\<close>)
  with res show ?thesis by simp
qed

end

end
