(* ===== verification/Mem_Api.thy ===== *)
theory Mem_Api
  imports Controller_Correct
begin

text \<open>
  An API server in memory, on which the contracts of \<open>Kube_Api\<close> are discharged and the
  examples run: lists of objects found by key, a counter for UIDs, a clock, and a script of
  faults that makes chosen calls fail. It follows the documented behaviour of the calls the
  program makes; \<open>mem_api False\<close> ignores the script and answers every call.
\<close>

section \<open>Objects found by key\<close>

definition lookup :: "('b \<Rightarrow> 'k) \<Rightarrow> 'b list \<Rightarrow> 'k \<Rightarrow> 'b option" where
  "lookup key xs k = find (\<lambda>x. key x = k) xs"

definition remove_key :: "('b \<Rightarrow> 'k) \<Rightarrow> 'k \<Rightarrow> 'b list \<Rightarrow> 'b list" where
  "remove_key key k xs = filter (\<lambda>x. key x \<noteq> k) xs"

text \<open>The objects that lookup finds: of several with one key, the first.\<close>

definition heads :: "('b \<Rightarrow> 'k) \<Rightarrow> 'b list \<Rightarrow> 'b list" where
  "heads key xs = List.map_filter (\<lambda>x. lookup key xs (key x)) xs"

lemma lookup_Nil [simp]: "lookup key [] = Map.empty"
  by (simp add: lookup_def fun_eq_iff)

lemma lookup_Cons [simp]: "lookup key (x # xs) = (lookup key xs)(key x \<mapsto> x)"
  by (simp add: lookup_def fun_eq_iff)

lemma lookup_key: "lookup key xs k = Some x \<Longrightarrow> key x = k"
  by (simp add: lookup_def find_Some_iff) blast

lemma lookup_remove [simp]: "lookup key (remove_key key k xs) = (lookup key xs)(k := None)"
  by (induction xs) (auto simp: remove_key_def fun_eq_iff lookup_def)

lemma lookup_mem: "lookup key xs k = Some x \<Longrightarrow> x \<in> set xs"
  by (auto simp: lookup_def find_Some_iff)

lemma lookup_None_iff: "lookup key xs k = None \<longleftrightarrow> (\<forall>x \<in> set xs. key x \<noteq> k)"
  by (simp add: lookup_def find_None_iff) blast

lemma set_heads: "set (heads key xs) = {x. \<exists>k. lookup key xs k = Some x}"
proof (intro equalityI subsetI)
  fix x
  assume "x \<in> set (heads key xs)"
  then show "x \<in> {x. \<exists>k. lookup key xs k = Some x}"
    by (auto simp: heads_def List.map_filter_def)
next
  fix x
  assume "x \<in> {x. \<exists>k. lookup key xs k = Some x}"
  then obtain k where k: "lookup key xs k = Some x" by blast
  with lookup_mem [OF k] lookup_key [OF k] show "x \<in> set (heads key xs)"
    by (force simp: heads_def List.map_filter_def)
qed

section \<open>The server\<close>

record mem =
  mw_now :: time
  mw_faults :: "bool list"
  mw_next :: nat
  mw_binds :: "UserAuthenticationBind list"
  mw_sas :: "ServiceAccount list"
  mw_crbs :: "Binding list"
  mw_rbs :: "Binding list"
  mw_clusterroles :: "ObjectMeta list"
  mw_roles :: "ObjectMeta list"

definition valid_ns :: "'a ObjectMeta_scheme \<Rightarrow> bool" where
  "valid_ns x \<longleftrightarrow> CHR ''/'' \<notin> set (om_Namespace x)"

definition mem_view :: "mem \<Rightarrow> cluster" where
  "mem_view w =
     \<lparr>cl_binds = lookup nsname_of (mw_binds w), cl_sas = lookup nsname_of (mw_sas w),
      cl_crbs = lookup om_Name (mw_crbs w), cl_rbs = lookup nsname_of (filter valid_ns (mw_rbs w)),
      cl_clusterroles = mw_clusterroles w, cl_roles = filter valid_ns (mw_roles w)\<rparr>"

lemma mem_view_sel [simp]:
  "cl_binds (mem_view w) = lookup nsname_of (mw_binds w)"
  "cl_sas (mem_view w) = lookup nsname_of (mw_sas w)"
  "cl_crbs (mem_view w) = lookup om_Name (mw_crbs w)"
  "cl_rbs (mem_view w) = lookup nsname_of (filter valid_ns (mw_rbs w))"
  "cl_clusterroles (mem_view w) = mw_clusterroles w"
  "cl_roles (mem_view w) = filter valid_ns (mw_roles w)"
  by (simp_all add: mem_view_def)

text \<open>A call: it may fail by the script, without effect.\<close>

definition tick :: "mem \<Rightarrow> mem" where "tick w = w\<lparr>mw_faults := tl (mw_faults w)\<rparr>"

definition faulty :: "bool \<Rightarrow> mem \<Rightarrow> bool" where
  "faulty f w \<longleftrightarrow> f \<and> mw_faults w \<noteq> [] \<and> hd (mw_faults w)"

definition call :: "bool \<Rightarrow> (mem \<Rightarrow> 'b res \<times> mem) \<Rightarrow> mem \<Rightarrow> 'b res \<times> mem" where
  "call f act w = (if faulty f w then (Inl (ApiError ''fault''), tick w) else act (tick w))"

definition call_err :: "bool \<Rightarrow> (mem \<Rightarrow> goerror option \<times> mem) \<Rightarrow> mem \<Rightarrow> goerror option \<times> mem" where
  "call_err f act w = (if faulty f w then (Some (ApiError ''fault''), tick w) else act (tick w))"

lemma tick_view [simp]: "mem_view (tick w) = mem_view w" "mw_now (tick w) = mw_now w"
  by (simp_all add: tick_def mem_view_def)

lemma tick_sel [simp]:
  "mw_binds (tick w) = mw_binds w" "mw_sas (tick w) = mw_sas w" "mw_crbs (tick w) = mw_crbs w"
  "mw_rbs (tick w) = mw_rbs w" "mw_clusterroles (tick w) = mw_clusterroles w"
  "mw_roles (tick w) = mw_roles w" "mw_next (tick w) = mw_next w"
  by (simp_all add: tick_def)

definition mem_uid :: "mem \<Rightarrow> string" where "mem_uid w = ''uid-'' @ dec (mw_next w)"

definition mem_getBind :: "nsname \<Rightarrow> mem \<Rightarrow> UserAuthenticationBind res \<times> mem" where
  "mem_getBind k w = (case lookup nsname_of (mw_binds w) k of None \<Rightarrow> Inl ApiNotFound | Some b \<Rightarrow> Inr b, w)"

definition put_mem_bind :: "nsname \<Rightarrow> UserAuthenticationBind option \<Rightarrow> mem \<Rightarrow> mem" where
  "put_mem_bind k v w =
     w\<lparr>mw_binds := (case v of None \<Rightarrow> [] | Some b \<Rightarrow> [b]) @ remove_key nsname_of k (mw_binds w)\<rparr>"

definition mem_updateBind :: "UserAuthenticationBind \<Rightarrow> mem \<Rightarrow> UserAuthenticationBind res \<times> mem" where
  "mem_updateBind b w =
     (case lookup nsname_of (mw_binds w) (nsname_of b) of
        None \<Rightarrow> (Inl ApiNotFound, w)
      | Some cur \<Rightarrow>
        (Inr (updated cur b), put_mem_bind (nsname_of b) (stored (updated cur b)) w))"

definition mem_patchStatus ::
  "UserAuthenticationBind \<Rightarrow> UserAuthenticationBind \<Rightarrow> mem \<Rightarrow> UserAuthenticationBind res \<times> mem" where
  "mem_patchStatus orig new w =
     (case lookup nsname_of (mw_binds w) (nsname_of new) of
        None \<Rightarrow> (Inl ApiNotFound, w)
      | Some cur \<Rightarrow>
        (Inr (patched orig new cur), put_mem_bind (nsname_of new) (Some (patched orig new cur)) w))"

definition mem_createOrUpdateBind ::
  "nsname \<Rightarrow> (UserAuthenticationBind \<Rightarrow> UserAuthenticationBind res) \<Rightarrow> mem \<Rightarrow>
   UserAuthenticationBind res \<times> mem" where
  "mem_createOrUpdateBind k f w =
     (case lookup nsname_of (mw_binds w) k of
        None \<Rightarrow>
          (case f (new_bind (fst k) (snd k)) of
             Inl e \<Rightarrow> (Inl e, w)
           | Inr b \<Rightarrow>
             if nsname_of b \<noteq> k then (Inl (ApiError ''name''), w)
             else let b' = b\<lparr>om_UID := mem_uid w, om_CreationTimestamp := mw_now w,
                    om_DeletionTimestamp := None, uab_Status := empty_status\<rparr>
                  in (Inr b', (put_mem_bind k (Some b') w)\<lparr>mw_next := Suc (mw_next w)\<rparr>))
      | Some cur \<Rightarrow>
          (case f cur of
             Inl e \<Rightarrow> (Inl e, w)
           | Inr b \<Rightarrow>
             if nsname_of b \<noteq> k then (Inl (ApiError ''name''), w)
             else (Inr (updated cur b), put_mem_bind k (stored (updated cur b)) w)))"

definition mem_createOrUpdateSA ::
  "nsname \<Rightarrow> (ServiceAccount \<Rightarrow> ServiceAccount res) \<Rightarrow> mem \<Rightarrow> ServiceAccount res \<times> mem" where
  "mem_createOrUpdateSA k f w =
     (let old = lookup nsname_of (mw_sas w) k
      in case f (case old of None \<Rightarrow> new_service_account (fst k) (snd k) | Some sa \<Rightarrow> sa) of
           Inl e \<Rightarrow> (Inl e, w)
         | Inr sa \<Rightarrow>
           if nsname_of sa \<noteq> k then (Inl (ApiError ''name''), w)
           else let sa' = sa\<lparr>om_UID := (case old of None \<Rightarrow> mem_uid w | Some sa \<Rightarrow> om_UID sa)\<rparr>
                in (Inr sa', w\<lparr>mw_sas := sa' # remove_key nsname_of k (mw_sas w),
                               mw_next := Suc (mw_next w)\<rparr>))"

definition mem_createCRB :: "Binding \<Rightarrow> mem \<Rightarrow> goerror option \<times> mem" where
  "mem_createCRB b w =
     (if lookup om_Name (mw_crbs w) (om_Name b) \<noteq> None then (Some ApiAlreadyExists, w)
      else (None, w\<lparr>mw_crbs := b # mw_crbs w\<rparr>))"

definition mem_deleteCRB :: "Binding \<Rightarrow> mem \<Rightarrow> goerror option \<times> mem" where
  "mem_deleteCRB b w =
     (if lookup om_Name (mw_crbs w) (om_Name b) = None then (Some ApiNotFound, w)
      else (None, w\<lparr>mw_crbs := remove_key om_Name (om_Name b) (mw_crbs w)\<rparr>))"

definition mem_listCRBs :: "string \<Rightarrow> string \<Rightarrow> mem \<Rightarrow> Binding list res \<times> mem" where
  "mem_listCRBs lab v w = (Inr (filter (\<lambda>b. om_Labels b lab = Some v) (heads om_Name (mw_crbs w))), w)"

definition mem_createRB :: "Binding \<Rightarrow> mem \<Rightarrow> goerror option \<times> mem" where
  "mem_createRB b w =
     (if lookup nsname_of (filter valid_ns (mw_rbs w)) (nsname_of b) \<noteq> None then (Some ApiAlreadyExists, w)
      else if \<not> valid_ns b then (Some (ApiError ''namespace''), w)
      else (None, w\<lparr>mw_rbs := b # mw_rbs w\<rparr>))"

definition mem_deleteRB :: "Binding \<Rightarrow> mem \<Rightarrow> goerror option \<times> mem" where
  "mem_deleteRB b w =
     (if lookup nsname_of (filter valid_ns (mw_rbs w)) (nsname_of b) = None then (Some ApiNotFound, w)
      else (None, w\<lparr>mw_rbs := remove_key nsname_of (nsname_of b) (mw_rbs w)\<rparr>))"

definition mem_listRBs :: "string \<Rightarrow> string \<Rightarrow> mem \<Rightarrow> Binding list res \<times> mem" where
  "mem_listRBs lab v w =
     (Inr (filter (\<lambda>b. om_Labels b lab = Some v) (heads nsname_of (filter valid_ns (mw_rbs w)))), w)"

definition mem_createToken :: "nsname \<Rightarrow> string list \<Rightarrow> int \<Rightarrow> mem \<Rightarrow> string res \<times> mem" where
  "mem_createToken k auds secs w =
     (case lookup nsname_of (mw_sas w) k of
        None \<Rightarrow> (Inl ApiNotFound, w)
      | Some sa \<Rightarrow> (Inr (''tok:'' @ snd k @ ''#'' @ dec (mw_next w)), w\<lparr>mw_next := Suc (mw_next w)\<rparr>))"

definition mem_setStatusCondition :: "Condition \<Rightarrow> time \<Rightarrow> Condition list \<Rightarrow> Condition list" where
  "mem_setStatusCondition c now cs =
     (if \<exists>x \<in> set cs. cond_Type x = cond_Type c then
        map (\<lambda>x. if cond_Type x \<noteq> cond_Type c then x
                 else c\<lparr>cond_LastTransitionTime :=
                   (if cond_Status x = cond_Status c then cond_LastTransitionTime x else now)\<rparr>) cs
      else cs @ [c\<lparr>cond_LastTransitionTime := now\<rparr>])"

definition mem_setControllerReference :: "UserAuthenticationBind \<Rightarrow> ServiceAccount \<Rightarrow> ServiceAccount res" where
  "mem_setControllerReference b sa =
     (if om_UID b \<in> set (sa_Owners sa) then Inr sa
      else if sa_Owners sa = [] then Inr (sa\<lparr>sa_Owners := [om_UID b]\<rparr>)
      else Inl (ApiError ''already owned''))"

definition mem_api :: "bool \<Rightarrow> mem kube" where
  "mem_api f =
     \<lparr>k_now = mw_now,
      k_getBind = \<lambda>k. call f (mem_getBind k),
      k_updateBind = \<lambda>b. call f (mem_updateBind b),
      k_patchStatus = \<lambda>orig new. call f (mem_patchStatus orig new),
      k_createOrUpdateBind = \<lambda>k g. call f (mem_createOrUpdateBind k g),
      k_createOrUpdateSA = \<lambda>k g. call f (mem_createOrUpdateSA k g),
      k_listClusterRoles = call f (\<lambda>w. (Inr (mw_clusterroles w), w)),
      k_listRoles = call f (\<lambda>w. (Inr (filter valid_ns (mw_roles w)), w)),
      k_createCRB = \<lambda>b. call_err f (mem_createCRB b),
      k_listCRBs = \<lambda>l v. call f (mem_listCRBs l v),
      k_deleteCRB = \<lambda>b. call_err f (mem_deleteCRB b),
      k_createRB = \<lambda>b. call_err f (mem_createRB b),
      k_listRBs = \<lambda>l v. call f (mem_listRBs l v),
      k_deleteRB = \<lambda>b. call_err f (mem_deleteRB b),
      k_createToken = \<lambda>k a s. call f (mem_createToken k a s),
      k_addFinalizer = \<lambda>x fs. if x \<in> set fs then (False, fs) else (True, fs @ [x]),
      k_removeFinalizer = \<lambda>x fs. filter (\<lambda>y. y \<noteq> x) fs,
      k_containsFinalizer = \<lambda>x fs. x \<in> set fs,
      k_setStatusCondition = mem_setStatusCondition,
      k_setControllerReference = mem_setControllerReference\<rparr>"

lemmas mem_call_defs = call_def call_err_def mem_getBind_def mem_updateBind_def mem_patchStatus_def
  mem_createOrUpdateBind_def mem_createOrUpdateSA_def mem_createCRB_def mem_deleteCRB_def
  mem_listCRBs_def mem_createRB_def mem_deleteRB_def mem_listRBs_def mem_createToken_def

section \<open>It keeps the contracts\<close>

lemma put_mem_bind_view [simp]:
  assumes "\<And>b. v = Some b \<Longrightarrow> nsname_of b = k"
  shows "mem_view (put_mem_bind k v w) = put_bind k v (mem_view w)"
  using assms by (cases v) (auto simp: put_mem_bind_def mem_view_def put_bind_def fun_eq_iff)

lemma put_mem_bind_Some [simp]:
  "nsname_of b = k \<Longrightarrow> mem_view (put_mem_bind k (Some b) w) = put_bind k (Some b) (mem_view w)"
  by (rule put_mem_bind_view) auto

lemma mem_upd_view [simp]:
  "mem_view (w\<lparr>mw_crbs := x\<rparr>) = (mem_view w)\<lparr>cl_crbs := lookup om_Name x\<rparr>"
  "mem_view (w\<lparr>mw_rbs := y\<rparr>) = (mem_view w)\<lparr>cl_rbs := lookup nsname_of (filter valid_ns y)\<rparr>"
  "mem_view (w\<lparr>mw_sas := z\<rparr>) = (mem_view w)\<lparr>cl_sas := lookup nsname_of z\<rparr>"
  "mem_view (w\<lparr>mw_next := n\<rparr>) = mem_view w"
  by (simp_all add: mem_view_def)

lemma filter_remove_key: "filter P (remove_key key k xs) = remove_key key k (filter P xs)"
  by (simp add: remove_key_def conj_commute)

lemma nsname_of_updated [simp]: "nsname_of (updated cur b) = nsname_of cur"
  by (simp add: updated_def nsname_of_def)

lemma stored_Some: "stored b = Some b' \<Longrightarrow> b' = b"
  by (simp add: stored_def split: if_splits)

lemma nsname_of_stored:
  "lookup nsname_of xs k = Some cur \<Longrightarrow> stored (updated cur b) = Some b' \<Longrightarrow> nsname_of b' = k"
  using lookup_key [of nsname_of xs k cur] stored_Some [of "updated cur b" b'] by simp

lemma put_mem_bind_now [simp]: "mw_now (put_mem_bind k v w) = mw_now w"
  by (simp add: put_mem_bind_def)

lemma same_binding_refl [simp]: "same_binding b b"
  by (simp add: same_binding_def)

lemma mem_crb_contract:
  "binding_kind (k_createCRB (mem_api f)) (k_listCRBs (mem_api f)) (k_deleteCRB (mem_api f)) om_Name
     (\<lambda>w. cl_crbs (mem_view w)) (\<lambda>w. (mem_view w)\<lparr>cl_crbs := Map.empty\<rparr>)"
  by unfold_locales
    (auto simp: mem_api_def call_def call_err_def mem_createCRB_def mem_listCRBs_def mem_deleteCRB_def
        set_heads same_binding_def dest: lookup_key split: if_splits intro: exI [of _ b for b])

lemma mem_rb_contract:
  "binding_kind (k_createRB (mem_api f)) (k_listRBs (mem_api f)) (k_deleteRB (mem_api f)) nsname_of
     (\<lambda>w. cl_rbs (mem_view w)) (\<lambda>w. (mem_view w)\<lparr>cl_rbs := Map.empty\<rparr>)"
  by (unfold_locales, auto simp: mem_api_def call_def call_err_def mem_createRB_def mem_listRBs_def
        mem_deleteRB_def set_heads same_binding_def filter_remove_key nsname_of_def [of "b :: Binding" for b]
        dest: lookup_key split: if_splits) blast

interpretation mem_crb: binding_kind "k_createCRB (mem_api f)" "k_listCRBs (mem_api f)"
    "k_deleteCRB (mem_api f)" om_Name "\<lambda>w. cl_crbs (mem_view w)" "\<lambda>w. (mem_view w)\<lparr>cl_crbs := Map.empty\<rparr>"
  for f
  by (rule mem_crb_contract)

interpretation mem_rbac: rbac_api "mem_api f" mem_view for f
  by (intro rbac_api.intro mem_crb_contract mem_rb_contract)
    (auto simp: mem_api_def call_def valid_ns_def dest: lookup_mem split: if_splits)

lemma mem_updateBind_law:
  assumes "mem_updateBind b w = (r, w')"
  shows "mem_view w' = (case cl_binds (mem_view w) (nsname_of b) of None \<Rightarrow> mem_view w
       | Some cur \<Rightarrow> put_bind (nsname_of b) (stored (updated cur b)) (mem_view w)) \<and>
     ((\<exists>x. r = Inr x) \<longleftrightarrow> cl_binds (mem_view w) (nsname_of b) \<noteq> None)"
proof (cases "lookup nsname_of (mw_binds w) (nsname_of b)")
  case (Some cur)
  with assms put_mem_bind_view [OF nsname_of_stored [OF Some]] show ?thesis
    by (auto simp: mem_updateBind_def)
qed (use assms in \<open>auto simp: mem_updateBind_def\<close>)

lemma mem_patchStatus_law:
  assumes "mem_patchStatus orig b w = (r, w')"
  shows "mem_view w' = (case cl_binds (mem_view w) (nsname_of b) of None \<Rightarrow> mem_view w
       | Some cur \<Rightarrow> put_bind (nsname_of b) (Some (patched orig b cur)) (mem_view w)) \<and>
     (case cl_binds (mem_view w) (nsname_of b) of None \<Rightarrow> r = Inl ApiNotFound
       | Some cur \<Rightarrow> r = Inr (patched orig b cur))"
proof (cases "lookup nsname_of (mw_binds w) (nsname_of b)")
  case (Some cur)
  have "nsname_of x = nsname_of b" if "Some (patched orig b cur) = Some x" for x
    using lookup_key [OF Some] that by auto
  from put_mem_bind_view [OF this] assms Some show ?thesis by (auto simp: mem_patchStatus_def)
qed (use assms in \<open>auto simp: mem_patchStatus_def\<close>)

lemma mem_sa_laws:
  "mem_createOrUpdateSA k g w = (Inr sa, w') \<Longrightarrow>
     nsname_of sa = k \<and> mem_view w' = put_sa k (Some sa) (mem_view w) \<and>
     (\<forall>cur. cl_sas (mem_view w) k = Some cur \<longrightarrow>
        om_UID sa = om_UID cur \<and> (g cur = Inr cur \<longrightarrow> sa = cur))"
  "mem_createOrUpdateSA k g w = (Inl e, w') \<Longrightarrow> mem_view w' = mem_view w"
  "g (current_sa k (mem_view w)) = Inr x \<Longrightarrow> nsname_of x = k \<Longrightarrow>
     \<exists>sa w'. mem_createOrUpdateSA k g w = (Inr sa, w')"
  by (auto simp: mem_createOrUpdateSA_def Let_def put_sa_def nsname_of_def current_sa_def
      split: sum.splits if_splits option.splits)

interpretation mem: operator_api "mem_api f" mem_view for f
proof
  fix b w w' e
  show "\<exists>cur. cl_binds (mem_view w) (nsname_of b) = Some cur \<and>
      mem_view w' = put_bind (nsname_of b) (stored (updated cur b)) (mem_view w)"
    if "k_updateBind (mem_api f) b w = (Inr b', w')" for b'
    using that mem_updateBind_law [of b "tick w" "Inr b'" w']
    by (auto simp: mem_api_def call_def split: if_splits option.splits)
  show "mem_view w' = mem_view w \<or> (\<exists>cur. cl_binds (mem_view w) (nsname_of b) = Some cur \<and>
      mem_view w' = put_bind (nsname_of b) (stored (updated cur b)) (mem_view w))"
    if "k_updateBind (mem_api f) b w = (Inl e, w')"
    using that mem_updateBind_law [of b "tick w" "Inl e" w']
    by (auto simp: mem_api_def call_def split: if_splits option.splits)
  fix orig
  show "\<exists>cur. cl_binds (mem_view w) (nsname_of b) = Some cur \<and> b' = patched orig b cur \<and>
      mem_view w' = put_bind (nsname_of b) (Some b') (mem_view w)"
    if "k_patchStatus (mem_api f) orig b w = (Inr b', w')" for b'
    using that mem_patchStatus_law [of orig b "tick w" "Inr b'" w']
    by (auto simp: mem_api_def call_def split: if_splits option.splits)
  show "mem_view w' = mem_view w \<or> (\<exists>cur. cl_binds (mem_view w) (nsname_of b) = Some cur \<and>
      mem_view w' = put_bind (nsname_of b) (Some (patched orig b cur)) (mem_view w))"
    if "k_patchStatus (mem_api f) orig b w = (Inl e, w')"
    using that mem_patchStatus_law [of orig b "tick w" "Inl e" w']
    by (auto simp: mem_api_def call_def split: if_splits option.splits)
  fix k g
  show "nsname_of sa = k \<and> mem_view w' = put_sa k (Some sa) (mem_view w) \<and>
      (\<forall>cur. cl_sas (mem_view w) k = Some cur \<longrightarrow>
        om_UID sa = om_UID cur \<and> (g cur = Inr cur \<longrightarrow> sa = cur))"
    if "k_createOrUpdateSA (mem_api f) k g w = (Inr sa, w')" for sa
    using that mem_sa_laws(1) [of k g "tick w" sa w'] by (simp add: mem_api_def call_def split: if_splits)
  show "mem_view w' = mem_view w \<or> (\<exists>sa. nsname_of sa = k \<and> mem_view w' = put_sa k (Some sa) (mem_view w))"
    if "k_createOrUpdateSA (mem_api f) k g w = (Inl e, w')"
    using that mem_sa_laws(2) [of k g "tick w" e w'] by (auto simp: mem_api_def call_def split: if_splits)
qed (auto simp: mem_api_def call_def mem_getBind_def mem_setControllerReference_def dest: lookup_key split: if_splits option.splits)

text \<open>Without faults it answers every call.\<close>

interpretation mem_ok: reliable_api "mem_api False" mem_view
proof
  fix b w cur
  show "\<exists>b' w'. k_updateBind (mem_api False) b w = (Inr b', w') \<and>
      k_now (mem_api False) w' = k_now (mem_api False) w"
    if "cl_binds (mem_view w) (nsname_of b) = Some cur"
    using that by (simp add: mem_api_def call_def faulty_def mem_updateBind_def)
  show "\<exists>b' w'. k_patchStatus (mem_api False) orig b w = (Inr b', w') \<and>
      k_now (mem_api False) w' = k_now (mem_api False) w"
    if "cl_binds (mem_view w) (nsname_of b) = Some cur" for orig
    using that by (simp add: mem_api_def call_def faulty_def mem_patchStatus_def)
  show "\<exists>sa w'. k_createOrUpdateSA (mem_api False) k g w = (Inr sa, w')"
    if "g (current_sa k (mem_view w)) = Inr sa" "nsname_of sa = k" for k g sa
    using mem_sa_laws(3) [of g k "tick w" sa] that by (simp add: mem_api_def call_def faulty_def)
qed (auto simp: mem_api_def call_def call_err_def faulty_def mem_getBind_def mem_createCRB_def
    mem_createRB_def mem_deleteCRB_def mem_deleteRB_def mem_listCRBs_def mem_listRBs_def valid_ns_def
    split: if_splits)

end
