(* ===== verification/Binder.thy ===== *)
theory Binder
  imports K8s_Name Mem_Api
begin

text \<open>
  The broker's side of the cluster, \<open>service/internal/k8s\<close>: \<open>Upsert\<close> writes the custom
  resource of an identity, \<open>WaitBinded\<close> polls it until the operator has bound it, \<open>Mint\<close>
  asks for a ServiceAccount token. The client under a context with a deadline and the wait
  on ticker or context are the record \<open>waiter\<close>: neither is code of the repository.
\<close>

section \<open>Writing the resource\<close>

record Binder =
  b_namespace :: string
  b_ttl :: string
  b_pollInterval :: duration
  b_timeout :: duration

definition NewBinder :: "string \<Rightarrow> string \<Rightarrow> duration \<Rightarrow> Binder" where
  "NewBinder namespace ttl timeout =
     \<lparr>b_namespace = namespace, b_ttl = ttl, b_pollInterval = 500000000, b_timeout = timeout\<rparr>"

definition toCRMemberships :: "Membership list \<Rightarrow> CRMembership list" where
  "toCRMemberships ms = map (\<lambda>m. \<lparr>crm_Gid = m_Gid m, crm_Name = m_Name m, crm_Domain = m_Domain m\<rparr>) ms"

text \<open>The mutation \<open>Upsert\<close> passes to \<open>CreateOrUpdate\<close>.\<close>

definition stamped :: "Binder \<Rightarrow> string \<Rightarrow> Identity \<Rightarrow> time \<Rightarrow> UserAuthenticationBind \<Rightarrow> UserAuthenticationBind" where
  "stamped B name ident now cr =
     cr\<lparr>om_Annotations := (om_Annotations cr)(renewedAtAnnotation \<mapsto> FormatRFC3339Nano now),
        uab_Spec := \<lparr>spec_TTL = b_ttl B, spec_Domain = id_Domain ident, spec_User = name,
          spec_Memberships = toCRMemberships (id_Groups ident)\<rparr>\<rparr>"

definition Upsert ::
  "('w, 'a) kube_scheme \<Rightarrow> 'u unicode_scheme \<Rightarrow> Binder \<Rightarrow> Identity \<Rightarrow> 'w \<Rightarrow> string res \<times> 'w" where
  "Upsert K U B ident w =
     (let name = SanitizeName U (id_Email ident)
      in case k_createOrUpdateBind K (b_namespace B, name)
             (\<lambda>cr. Inr (stamped B name ident (k_now K w) cr)) w of
           (Inl e, w') \<Rightarrow> (Inl (Wrap (''upsert UserAuthenticationBind '' @ name) e), w')
         | (Inr _, w') \<Rightarrow> (Inr name, w'))"

section \<open>Waiting\<close>

text \<open>
  \<open>wt_get deadline\<close> is \<open>Get\<close> under the context; \<open>wt_select start poll i deadline\<close> is the
  \<open>select\<close> that waits for the \<open>i\<close>-th tick of a ticker started at \<open>start\<close>, or for the end of
  the context.
\<close>

record 'w waiter =
  wt_get :: "time \<Rightarrow> nsname \<Rightarrow> 'w \<Rightarrow> UserAuthenticationBind res \<times> 'w"
  wt_select :: "time \<Rightarrow> duration \<Rightarrow> nat \<Rightarrow> time \<Rightarrow> 'w \<Rightarrow> goerror option \<times> 'w"

text \<open>The polling loop. \<open>None\<close> when the fuel is used up.\<close>

fun waitLoop ::
  "('w, 'a) waiter_scheme \<Rightarrow> nsname \<Rightarrow> time \<Rightarrow> duration \<Rightarrow> time \<Rightarrow> nat \<Rightarrow> nat \<Rightarrow> 'w \<Rightarrow>
   goerror option option \<times> 'w" where
  "waitLoop W k start poll deadline i 0 w = (None, w)"
| "waitLoop W k start poll deadline i (Suc fuel) w =
     (case wt_get W deadline k w of
        (Inl e, w1) \<Rightarrow> (Some (Some (Wrap (''get UserAuthenticationBind '' @ snd k) e)), w1)
      | (Inr cr, w1) \<Rightarrow>
        (case phase cr of
           BindBinded \<Rightarrow> (Some None, w1)
         | BindFailed \<Rightarrow>
             (Some (Some (Errorf (''UserAuthenticationBind '' @ snd k @ '' failed to bind''))), w1)
         | _ \<Rightarrow>
           (case wt_select W start poll (Suc i) deadline w1 of
              (Some e, w2) \<Rightarrow> (Some (Some (Wrap (''waiting for '' @ snd k @ '' to bind'') e)), w2)
            | (None, w2) \<Rightarrow> waitLoop W k start poll deadline (Suc i) fuel w2)))"

definition WaitBinded ::
  "('w, 'a) kube_scheme \<Rightarrow> ('w, 'c) waiter_scheme \<Rightarrow> Binder \<Rightarrow> nat \<Rightarrow> string \<Rightarrow> 'w \<Rightarrow>
   goerror option option \<times> 'w" where
  "WaitBinded K W B fuel name w =
     waitLoop W (b_namespace B, name) (k_now K w) (b_pollInterval B) (k_now K w + b_timeout B) 0 fuel w"

text \<open>One poll per interval of the timeout, the first one at once, and one to see the deadline.\<close>

definition waitFuel :: "Binder \<Rightarrow> nat" where
  "waitFuel B = nat (b_timeout B div b_pollInterval B) + 3"

section \<open>Minting\<close>

record Minter =
  mt_namespace :: string
  mt_audiences :: "string list"
  mt_expirationSecs :: int

definition NewMinter :: "string \<Rightarrow> string list \<Rightarrow> int \<Rightarrow> Minter" where
  "NewMinter namespace audiences expirationSecs =
     \<lparr>mt_namespace = namespace, mt_audiences = audiences, mt_expirationSecs = expirationSecs\<rparr>"

definition Mint :: "('w, 'a) kube_scheme \<Rightarrow> Minter \<Rightarrow> string \<Rightarrow> 'w \<Rightarrow> Token res \<times> 'w" where
  "Mint K M saName w =
     (case k_createToken K (mt_namespace M, saName) (mt_audiences M) (mt_expirationSecs M) w of
        (Inl e, w') \<Rightarrow> (Inl (Wrap (''tokenrequest for '' @ saName) e), w')
      | (Inr tok, w') \<Rightarrow> (Inr \<lparr>tok_AccessToken = tok, tok_ExpiresIn = mt_expirationSecs M\<rparr>, w'))"

section \<open>The contract of the client\<close>

text \<open>
  The write that \<open>CreateOrUpdate\<close> documents: the resource \<open>b'\<close> made from a fresh object, or from
  the current one, by the mutation.
\<close>

definition upserted ::
  "nsname \<Rightarrow> (UserAuthenticationBind \<Rightarrow> UserAuthenticationBind res) \<Rightarrow> cluster \<Rightarrow> UserAuthenticationBind \<Rightarrow>
   cluster \<Rightarrow> bool" where
  "upserted k f cl b' cl' \<longleftrightarrow>
     (case cl_binds cl k of
        None \<Rightarrow> \<exists>b. f (new_bind (fst k) (snd k)) = Inr b \<and> uab_Spec b' = uab_Spec b \<and>
          om_Annotations b' = om_Annotations b \<and> uab_Status b' = empty_status \<and> cl' = put_bind k (Some b') cl
      | Some cur \<Rightarrow> \<exists>b. f cur = Inr b \<and> b' = updated cur b \<and> cl' = put_bind k (stored b') cl)"

locale bind_client =
  fixes K :: "('w, 'a) kube_scheme" and W :: "('w, 'c) waiter_scheme" and view :: "'w \<Rightarrow> cluster"
  assumes upsert_ok: "k_createOrUpdateBind K k f w = (Inr b', w') \<Longrightarrow> upserted k f (view w) b' (view w')"
    and upsert_err: "k_createOrUpdateBind K k f w = (Inl e, w') \<Longrightarrow>
      view w' = view w \<or> (\<exists>b'. upserted k f (view w) b' (view w'))"
    and get_view: "wt_get W d k w = (r, w') \<Longrightarrow> view w' = view w"
    and get_ok: "wt_get W d k w = (Inr b, w') \<Longrightarrow> cl_binds (view w) k = Some b"
    and get_now: "wt_get W d k w = (r, w') \<Longrightarrow> k_now K w \<le> k_now K w'"
    and get_expired: "d \<le> k_now K w \<Longrightarrow> wt_get W d k w = (r, w') \<Longrightarrow> \<exists>e. r = Inl e"
    and select_tick: "wt_select W start poll i d w = (None, w') \<Longrightarrow> start + int i * poll \<le> k_now K w'"

lemma upserted_frame:
  assumes "upserted k f cl b' cl'"
  shows "\<exists>v. cl' = put_bind k v cl"
  using assms by (auto simp: upserted_def split: option.splits)

context bind_client
begin

lemma upsert_new: "k_createOrUpdateBind K k f w = (Inr b', w') \<Longrightarrow> cl_binds (view w) k = None \<Longrightarrow>
    \<exists>b. f (new_bind (fst k) (snd k)) = Inr b \<and> uab_Spec b' = uab_Spec b \<and>
       om_Annotations b' = om_Annotations b \<and> uab_Status b' = empty_status \<and>
       view w' = put_bind k (Some b') (view w)"
  using upsert_ok [of k f w b' w'] by (simp add: upserted_def)

lemma upsert_old: "k_createOrUpdateBind K k f w = (Inr b', w') \<Longrightarrow> cl_binds (view w) k = Some cur \<Longrightarrow>
    \<exists>b. f cur = Inr b \<and> b' = updated cur b \<and> view w' = put_bind k (stored b') (view w)"
  using upsert_ok [of k f w b' w'] by (simp add: upserted_def)

text \<open>The loop ends: after enough ticks the deadline has passed and \<open>Get\<close> fails.\<close>

lemma waitLoop_ends:
  assumes "0 < poll"
  shows "start + int i * poll \<le> k_now K w \<Longrightarrow> d - start \<le> int (i + fuel) * poll \<Longrightarrow>
    fst (waitLoop W k start poll d i (Suc fuel) w) \<noteq> None"
proof (induction fuel arbitrary: i w)
  case 0
  then have "d \<le> k_now K w" by simp
  obtain r w1 where g: "wt_get W d k w = (r, w1)" by fastforce
  from get_expired [OF \<open>d \<le> k_now K w\<close> g] g show ?case by auto
next
  case (Suc fuel)
  have "start + int (Suc i) * poll \<le> k_now K w2 \<Longrightarrow> fst (waitLoop W k start poll d (Suc i) (Suc fuel) w2) \<noteq> None" for w2
    using Suc.IH [of "Suc i" w2] Suc.prems(2) by simp
  moreover have "wt_select W start poll (Suc i) d w1 = (None, w2) \<Longrightarrow> start + int (Suc i) * poll \<le> k_now K w2" for w1 w2
    using select_tick [of start poll "Suc i" d w1 w2] by simp
  ultimately show ?case
    by (subst waitLoop.simps) (auto split: prod.splits sum.splits BindPhase.splits option.splits simp del: waitLoop.simps)
qed

lemma WaitBinded_ends:
  assumes p: "0 < b_pollInterval B"
  shows "fst (WaitBinded K W B (waitFuel B) name w) \<noteq> None"
proof -
  let ?p = "b_pollInterval B" and ?t = "b_timeout B"
  have "?t \<le> (?t div ?p + 1) * ?p"
    using p by (metis add.commute distrib_right mod_less_divisor mult.commute mult_div_mod_eq mult_1 less_imp_le add_le_cancel_left pos_mod_bound)
  also have "\<dots> \<le> int (nat (?t div ?p) + 2) * ?p" using p by (intro mult_right_mono) auto
  finally have "k_now K w + ?t - k_now K w \<le> int (0 + (nat (?t div ?p) + 2)) * ?p" by simp
  from waitLoop_ends [OF p _ this] show ?thesis
    by (simp add: WaitBinded_def waitFuel_def eval_nat_numeral del: waitLoop.simps)
qed

lemma waitLoop_binded:
  "waitLoop W k start poll d i fuel w = (Some None, w') \<Longrightarrow>
   \<exists>cr. cl_binds (view w') k = Some cr \<and> phase cr = BindBinded"
proof (induction fuel arbitrary: i w)
  case (Suc fuel)
  obtain r w1 where g: "wt_get W d k w = (r, w1)" by fastforce
  with Suc.prems obtain cr where cr: "r = Inr cr" by (cases r) auto
  have c: "cl_binds (view w1) k = Some cr" using get_ok get_view g cr by metis
  show ?case
  proof (cases "phase cr = BindBinded")
    case True
    with Suc.prems g cr c show ?thesis by auto
  next
    case False
    with Suc.prems g cr obtain w2 where "waitLoop W k start poll d (Suc i) fuel w2 = (Some None, w')"
      by (auto split: BindPhase.splits option.splits prod.splits)
    from Suc.IH [OF this] show ?thesis .
  qed
qed simp

lemma Upsert_ok:
  assumes "Upsert K U B ident w = (Inr name, w')"
  obtains b' where "name = SanitizeName U (id_Email ident)"
    and "k_createOrUpdateBind K (b_namespace B, name) (\<lambda>cr. Inr (stamped B name ident (k_now K w) cr)) w = (Inr b', w')"
  using assms by (auto simp: Upsert_def Let_def split: prod.splits sum.splits)

text \<open>The resource after a login: the identity's groups, the login time, the status as it was.\<close>

lemma Upsert_resource:
  assumes run: "Upsert K U B ident w = (Inr name, w')"
    and cr: "cl_binds (view w') (b_namespace B, name) = Some cr"
  shows "uab_Spec cr = \<lparr>spec_TTL = b_ttl B, spec_Domain = id_Domain ident, spec_User = name,
      spec_Memberships = toCRMemberships (id_Groups ident)\<rparr>"
    and "om_Annotations cr renewedAtAnnotation = Some (FormatRFC3339Nano (k_now K w))"
    and "uab_Status cr =
      (case cl_binds (view w) (b_namespace B, name) of None \<Rightarrow> empty_status | Some cur \<Rightarrow> uab_Status cur)"
proof -
  let ?k = "(b_namespace B, name)" and ?f = "\<lambda>cr. Inr (stamped B name ident (k_now K w) cr)"
  from run obtain b' where c: "k_createOrUpdateBind K ?k ?f w = (Inr b', w')" by (rule Upsert_ok)
  have "uab_Spec cr = \<lparr>spec_TTL = b_ttl B, spec_Domain = id_Domain ident, spec_User = name,
      spec_Memberships = toCRMemberships (id_Groups ident)\<rparr> \<and>
    om_Annotations cr renewedAtAnnotation = Some (FormatRFC3339Nano (k_now K w)) \<and>
    uab_Status cr = (case cl_binds (view w) ?k of None \<Rightarrow> empty_status | Some cur \<Rightarrow> uab_Status cur)"
  proof (cases "cl_binds (view w) ?k")
    case None
    from upsert_new [OF c None] cr None show ?thesis by (auto simp: stamped_def)
  next
    case (Some cur)
    from upsert_old [OF c Some] cr have "cr = updated cur (stamped B name ident (k_now K w) cur)"
      by (auto simp: stored_def split: if_splits)
    with Some show ?thesis by (simp add: updated_def stamped_def)
  qed
  then show "uab_Spec cr = \<lparr>spec_TTL = b_ttl B, spec_Domain = id_Domain ident, spec_User = name,
      spec_Memberships = toCRMemberships (id_Groups ident)\<rparr>"
    and "om_Annotations cr renewedAtAnnotation = Some (FormatRFC3339Nano (k_now K w))"
    and "uab_Status cr = (case cl_binds (view w) ?k of None \<Rightarrow> empty_status | Some cur \<Rightarrow> uab_Status cur)"
    by simp_all
qed

lemma Upsert_frame:
  assumes "Upsert K U B ident w = (r, w')"
  shows "cl_crbs (view w') = cl_crbs (view w) \<and> cl_rbs (view w') = cl_rbs (view w) \<and>
    cl_sas (view w') = cl_sas (view w) \<and> cl_clusterroles (view w') = cl_clusterroles (view w) \<and>
    cl_roles (view w') = cl_roles (view w)"
proof -
  let ?name = "SanitizeName U (id_Email ident)"
  obtain x where c: "k_createOrUpdateBind K (b_namespace B, ?name)
      (\<lambda>cr. Inr (stamped B ?name ident (k_now K w) cr)) w = (x, w')"
    using assms by (auto simp: Upsert_def Let_def split: prod.splits sum.splits)
  have "view w' = view w \<or> (\<exists>v. view w' = put_bind (b_namespace B, ?name) v (view w))"
  proof (cases x)
    case (Inl e)
    from upsert_err [OF c [unfolded Inl]] show ?thesis by (auto dest: upserted_frame)
  next
    case (Inr b')
    from upsert_ok [OF c [unfolded Inr]] show ?thesis by (auto dest: upserted_frame)
  qed
  then show ?thesis by auto
qed

text \<open>The operator reads back the very instant the broker stamped.\<close>

lemma Upsert_expiry:
  assumes run: "Upsert K U B ident w = (Inr name, w')"
    and cr: "cl_binds (view w') (b_namespace B, name) = Some cr"
    and t: "four_digit_year (k_now K w)" and ttl: "ParseDuration L (b_ttl B) = Inr d"
  shows "bindExpiry L cr = Inr (TruncateSecond (k_now K w + d))"
proof -
  have p: "time_Parse L (FormatRFC3339Nano (k_now K w)) = Some (k_now K w)"
    using parse_format_RFC3339 [OF t] by (simp add: time_Parse_def)
  then have "FormatRFC3339Nano (k_now K w) \<noteq> []"
    using parse_format_RFC3339 [OF t] by (auto simp: parseRFC3339_def)
  with Upsert_resource(1,2) [OF run cr] p ttl show ?thesis by (simp add: bindExpiry_def bindAnchor_def)
qed

text \<open>
  A resource that was \<open>binded\<close> before the login still says so right after it: the wait ends at
  the first poll, before the operator has looked at the new groups.
\<close>

lemma Upsert_then_wait_stale:
  assumes old: "cl_binds (view w) (b_namespace B, name) = Some cur" "phase cur = BindBinded"
    and up: "Upsert K U B ident w = (Inr name, w1)"
    and get: "wt_get W (k_now K w1 + b_timeout B) (b_namespace B, name) w1 = (Inr cr, w2)"
  shows "WaitBinded K W B (Suc fuel) name w1 = (Some None, w2) \<and>
    spec_Memberships (uab_Spec cr) = toCRMemberships (id_Groups ident) \<and>
    cl_crbs (view w2) = cl_crbs (view w) \<and> cl_rbs (view w2) = cl_rbs (view w)"
proof -
  have cr: "cl_binds (view w1) (b_namespace B, name) = Some cr" using get by (rule get_ok)
  have "phase cr = BindBinded" using Upsert_resource(3) [OF up cr] old by simp
  then have "WaitBinded K W B (Suc fuel) name w1 = (Some None, w2)" using get by (simp add: WaitBinded_def)
  with Upsert_resource(1) [OF up cr] Upsert_frame [OF up] get_view [OF get] show ?thesis by simp
qed

end

section \<open>In memory\<close>

definition mem_waiter :: "mem waiter" where
  "mem_waiter =
     \<lparr>wt_get = \<lambda>d k w. if d \<le> mw_now w then (Inl ContextDone, w) else k_getBind (mem_api False) k w,
      wt_select = \<lambda>start poll i d w.
        let t = max (mw_now w) (start + int i * poll)
        in if d < t then (Some ContextDone, w\<lparr>mw_now := max (mw_now w) d\<rparr>) else (None, w\<lparr>mw_now := t\<rparr>)\<rparr>"

interpretation mem_client: bind_client "mem_api False" mem_waiter mem_view
proof
  fix k f w w'
  show "upserted k f (mem_view w) b' (mem_view w')"
    if c: "k_createOrUpdateBind (mem_api False) k f w = (Inr b', w')" for b'
  proof (cases "lookup nsname_of (mw_binds w) k")
    case None
    with c show ?thesis by (auto simp: mem_api_def call_def faulty_def mem_createOrUpdateBind_def Let_def upserted_def
        nsname_of_def split: sum.splits if_splits)
  next
    case (Some cur)
    have "nsname_of x = k" if "stored (updated cur b) = Some x" for b x
      using nsname_of_stored [OF Some that] .
    then show ?thesis using c Some by (auto simp: mem_api_def call_def faulty_def mem_createOrUpdateBind_def
        upserted_def split: sum.splits if_splits)
  qed
  show "mem_view w' = mem_view w \<or> (\<exists>b'. upserted k f (mem_view w) b' (mem_view w'))"
    if "k_createOrUpdateBind (mem_api False) k f w = (Inl e, w')" for e
    using that by (auto simp: mem_api_def call_def faulty_def mem_createOrUpdateBind_def Let_def
        split: option.splits sum.splits if_splits)
qed (auto simp: mem_waiter_def mem_api_def call_def faulty_def mem_getBind_def Let_def mem_view_def
    split: if_splits option.splits)

end
