(* ===== verification/Kube_Lift.thy ===== *)
theory Kube_Lift
  imports Binder
begin

text \<open>
  An API on a part of the world is an API on the whole: \<open>lift_kube\<close> runs every call on the
  part that \<open>get\<close> reads and \<open>put\<close> writes. The contract \<open>bind_client\<close> carries over, so the
  cluster in memory can be put beside the stores and caches of the services that use it.
\<close>

definition through :: "('w \<Rightarrow> 'm) \<Rightarrow> ('m \<Rightarrow> 'w \<Rightarrow> 'w) \<Rightarrow> ('m \<Rightarrow> 'r \<times> 'm) \<Rightarrow> 'w \<Rightarrow> 'r \<times> 'w" where
  "through get put f w = (case f (get w) of (r, m) \<Rightarrow> (r, put m w))"

definition lift_kube :: "('w \<Rightarrow> 'm) \<Rightarrow> ('m \<Rightarrow> 'w \<Rightarrow> 'w) \<Rightarrow> 'm kube \<Rightarrow> 'w kube" where
  "lift_kube get put K =
     \<lparr>k_now = \<lambda>w. k_now K (get w),
      k_getBind = \<lambda>k. through get put (k_getBind K k),
      k_updateBind = \<lambda>b. through get put (k_updateBind K b),
      k_patchStatus = \<lambda>orig new. through get put (k_patchStatus K orig new),
      k_createOrUpdateBind = \<lambda>k f. through get put (k_createOrUpdateBind K k f),
      k_createOrUpdateSA = \<lambda>k f. through get put (k_createOrUpdateSA K k f),
      k_listClusterRoles = through get put (k_listClusterRoles K),
      k_listRoles = through get put (k_listRoles K),
      k_createCRB = \<lambda>b. through get put (k_createCRB K b),
      k_listCRBs = \<lambda>l v. through get put (k_listCRBs K l v),
      k_deleteCRB = \<lambda>b. through get put (k_deleteCRB K b),
      k_createRB = \<lambda>b. through get put (k_createRB K b),
      k_listRBs = \<lambda>l v. through get put (k_listRBs K l v),
      k_deleteRB = \<lambda>b. through get put (k_deleteRB K b),
      k_createToken = \<lambda>k a s. through get put (k_createToken K k a s),
      k_addFinalizer = k_addFinalizer K, k_removeFinalizer = k_removeFinalizer K,
      k_containsFinalizer = k_containsFinalizer K, k_setStatusCondition = k_setStatusCondition K,
      k_setControllerReference = k_setControllerReference K\<rparr>"

definition lift_waiter :: "('w \<Rightarrow> 'm) \<Rightarrow> ('m \<Rightarrow> 'w \<Rightarrow> 'w) \<Rightarrow> 'm waiter \<Rightarrow> 'w waiter" where
  "lift_waiter get put W =
     \<lparr>wt_get = \<lambda>d k. through get put (wt_get W d k),
      wt_select = \<lambda>start poll i d. through get put (wt_select W start poll i d)\<rparr>"

locale lens =
  fixes get :: "'w \<Rightarrow> 'm" and put :: "'m \<Rightarrow> 'w \<Rightarrow> 'w"
  assumes get_put: "get (put m w) = m"
begin

lemma throughD: "through get put f w = (r, w') \<Longrightarrow> f (get w) = (r, get w') \<and> w' = put (get w') w"
  by (auto simp: through_def get_put split: prod.splits)

lemma lifted_client:
  assumes "bind_client K W view"
  shows "bind_client (lift_kube get put K) (lift_waiter get put W) (\<lambda>w. view (get w))"
proof -
  note c = bind_client.upsert_ok [OF assms] bind_client.upsert_err [OF assms]
    bind_client.get_view [OF assms] bind_client.get_ok [OF assms] bind_client.get_now [OF assms]
    bind_client.get_expired [OF assms] bind_client.select_tick [OF assms]
  show ?thesis
    by unfold_locales (auto simp: lift_kube_def lift_waiter_def dest!: throughD intro: c dest: c)
qed

lemma lifted_kind:
  assumes "binding_kind create list delete key objs rest"
  shows "binding_kind (\<lambda>b. through get put (create b)) (\<lambda>l v. through get put (list l v))
     (\<lambda>b. through get put (delete b)) key (\<lambda>w. objs (get w)) (\<lambda>w. rest (get w))"
proof -
  note c = binding_kind.objs_key [OF assms] binding_kind.key_same [OF assms] binding_kind.create_ok [OF assms]
    binding_kind.create_exists [OF assms] binding_kind.create_present [OF assms] binding_kind.create_err [OF assms]
    binding_kind.list_ok [OF assms] binding_kind.list_err [OF assms] binding_kind.delete_ok [OF assms]
    binding_kind.delete_err [OF assms]
  show ?thesis by (unfold_locales; (drule throughD [THEN conjunct1])?; (erule (1) c | erule c | rule c))
qed

lemma lifted_operator:
  assumes "operator_api K view"
  shows "operator_api (lift_kube get put K) (\<lambda>w. view (get w))"
proof -
  have r: "rbac_api K view" using assms by (rule operator_api.axioms(1))
  note rl = rbac_api.listClusterRoles_view [OF r] rbac_api.listClusterRoles_ok [OF r] rbac_api.listRoles_view [OF r]
    rbac_api.listRoles_ok [OF r] rbac_api.role_ns [OF r] rbac_api.rb_ns [OF r]
  note ol = operator_api.bind_key [OF assms] operator_api.getBind_view [OF assms] operator_api.getBind_ok [OF assms]
    operator_api.getBind_now [OF assms] operator_api.getBind_missing [OF assms] operator_api.updateBind_ok [OF assms]
    operator_api.updateBind_err [OF assms] operator_api.patchStatus_ok [OF assms] operator_api.patchStatus_err [OF assms]
    operator_api.createOrUpdateSA_ok [OF assms] operator_api.createOrUpdateSA_err [OF assms]
    operator_api.setControllerReference_owner [OF assms] operator_api.addFinalizer [OF assms]
    operator_api.removeFinalizer [OF assms] operator_api.containsFinalizer [OF assms]
  show ?thesis
  proof (intro operator_api.intro rbac_api.intro operator_api_axioms.intro)
    show "binding_kind (k_createCRB (lift_kube get put K)) (k_listCRBs (lift_kube get put K)) (k_deleteCRB (lift_kube get put K))
        om_Name (\<lambda>w. cl_crbs (view (get w))) (\<lambda>w. (view (get w))\<lparr>cl_crbs := Map.empty\<rparr>)"
      using lifted_kind [OF rbac_api.crb_contract [OF r]] by (simp add: lift_kube_def)
    show "binding_kind (k_createRB (lift_kube get put K)) (k_listRBs (lift_kube get put K)) (k_deleteRB (lift_kube get put K))
        nsname_of (\<lambda>w. cl_rbs (view (get w))) (\<lambda>w. (view (get w))\<lparr>cl_rbs := Map.empty\<rparr>)"
      using lifted_kind [OF rbac_api.rb_contract [OF r]] by (simp add: lift_kube_def)
  qed (unfold lift_kube_def kube.select_convs,
      ((drule throughD [THEN conjunct1])?; (erule (1) rl ol | erule rl ol | rule rl ol | assumption)+)+)
qed

lemma throughI: "f (get w) = (r, m) \<Longrightarrow> through get put f w = (r, put m w)"
  by (simp add: through_def)

lemma lifted_reliable:
  assumes "reliable_api K view"
  shows "reliable_api (lift_kube get put K) (\<lambda>w. view (get w))"
proof -
  note op = lifted_operator [OF reliable_api.axioms(1) [OF assms]]
  note e = reliable_api.createCRB_total [OF assms] reliable_api.createRB_total [OF assms]
    reliable_api.deleteCRB_total [OF assms] reliable_api.deleteRB_total [OF assms]
  show ?thesis
  proof (intro reliable_api.intro op reliable_api_axioms.intro, unfold lift_kube_def kube.select_convs, goal_cases)
    case 1 then show ?case using reliable_api.getBind_total [OF assms] by (metis throughI get_put)
  next
    case 2 then show ?case using reliable_api.updateBind_total [OF assms] by (metis throughI get_put)
  next
    case 3 then show ?case using reliable_api.patchStatus_total [OF assms] by (metis throughI get_put)
  next
    case 4 then show ?case using reliable_api.createOrUpdateSA_total [OF assms] by (metis throughI)
  next
    case 5 then show ?case using reliable_api.listClusterRoles_total [OF assms] by (metis throughI)
  next
    case 6 then show ?case using reliable_api.listRoles_total [OF assms] by (metis throughI)
  next
    case 9 then show ?case using reliable_api.listCRBs_total [OF assms] by (metis throughI)
  next
    case 10 then show ?case using reliable_api.listRBs_total [OF assms] by (metis throughI)
  qed (auto dest!: throughD dest: e)
qed

end

end
