(* ===== verification/Http_Run.thy ===== *)
theory Http_Run
  imports Go_Time
begin

text \<open>
  How a command listens and what can end it, shared by the two commands of the service: the
  server returned, with an error or not, or the process was signalled.
\<close>

text \<open>
  The settings of an \<open>http.Server\<close>; zero stands for no timeout. \<open>hs_MinTLS12\<close>: whether
  \<open>TLSConfig\<close> asks for TLS 1.2 at least.
\<close>

record httpServer =
  hs_Addr :: string
  hs_ReadHeaderTimeout :: duration
  hs_ReadTimeout :: duration
  hs_WriteTimeout :: duration
  hs_IdleTimeout :: duration
  hs_MinTLS12 :: bool

datatype listener =
    ListenAndServeTLS string string
  | ListenAndServe

datatype run_event =
    Served "goerror option"
  | Signalled

text \<open>An error other than the one of a server that was closed.\<close>

definition fatal :: "goerror option \<Rightarrow> bool" where
  "fatal err \<longleftrightarrow> (case err of Some e \<Rightarrow> \<not> errors_Is e ErrServerClosed | None \<Rightarrow> False)"

lemma fatal_simps [simp]: "\<not> fatal None" "fatal (Some e) \<longleftrightarrow> \<not> errors_Is e ErrServerClosed"
  by (simp_all add: fatal_def)

text \<open>The first event that ends the command, and the command's result.\<close>

fun ends :: "run_event \<Rightarrow> bool" where
  "ends Signalled \<longleftrightarrow> True"
| "ends (Served err) \<longleftrightarrow> fatal err"

definition end_result :: "goerror option \<Rightarrow> run_event list \<Rightarrow> goerror option option" where
  "end_result shutdown es =
     map_option (\<lambda>e. case e of Signalled \<Rightarrow> shutdown | Served err \<Rightarrow> err) (find ends es)"

text \<open>\<open>main\<close>: the exit status, from what \<open>run\<close> returned.\<close>

definition exit_status :: "goerror option \<Rightarrow> nat" where
  "exit_status err = (case err of Some _ \<Rightarrow> 1 | None \<Rightarrow> 0)"

end
