(* ===== verification/Go_Float.thy ===== *)
theory Go_Float
  imports Go_Time
begin

text \<open>
  What the code uses of \<open>float64\<close>: mantissas of 53 bits, rounded to nearest, ties to even. A
  number is a natural one in units of a power of two that is small enough for it, and its sign
  is kept apart.
\<close>

fun bit_len :: "nat \<Rightarrow> nat" where
  "bit_len n = (if n = 0 then 0 else Suc (bit_len (n div 2)))"

declare bit_len.simps [simp del]

text \<open>A mantissa rounded to 53 significant bits, ties to even.\<close>

definition round53 :: "nat \<Rightarrow> nat" where
  "round53 m =
     (let k = bit_len m - 53; q = m div 2 ^ k; r = m mod 2 ^ k
      in (if 2 * r < 2 ^ k \<or> 2 * r = 2 ^ k \<and> even q then q else q + 1) * 2 ^ k)"

lemma bit_len_le: "n < 2 ^ b \<Longrightarrow> bit_len n \<le> b"
proof (induction b arbitrary: n)
  case (Suc b)
  then have "n div 2 < 2 ^ b" by simp
  from Suc.IH [OF this] show ?case by (subst bit_len.simps) simp
qed (simp add: bit_len.simps)

lemma round53_small: "n < 2 ^ 53 \<Longrightarrow> round53 n = n"
  using bit_len_le [of n 53] by (simp add: round53_def)

lemma round53_bounds:
  assumes "m < 2 ^ (53 + b)"
  obtains k where "k \<le> b" and "m div 2 ^ k * 2 ^ k \<le> round53 m" and "round53 m \<le> m + 2 ^ k"
proof -
  let ?k = "bit_len m - 53"
  obtain c where c: "c = 0 \<or> c = 1" "round53 m = (m div 2 ^ ?k + c) * 2 ^ ?k"
    by (rule that [of "round53 m div 2 ^ ?k - m div 2 ^ ?k"]) (auto simp: round53_def Let_def)
  have d: "m div 2 ^ ?k * 2 ^ ?k \<le> m" by simp
  show thesis
  proof (rule that [of ?k])
    show "?k \<le> b" using bit_len_le [OF assms] by simp
    show "m div 2 ^ ?k * 2 ^ ?k \<le> round53 m" unfolding c(2) by simp
    show "round53 m \<le> m + 2 ^ ?k" using c(1) d unfolding c(2) by (auto simp only: distrib_right mult_1 mult_0_right mult_zero_left)
  qed
qed

lemma bit_len_shift: "n \<noteq> 0 \<Longrightarrow> bit_len (n * 2 ^ b) = bit_len n + b"
proof (induction b)
  case (Suc b)
  then have "bit_len (n * 2 ^ Suc b) = Suc (bit_len (n * 2 ^ b))"
    by (subst bit_len.simps) (simp add: mult.left_commute [of n])
  with Suc show ?case by simp
qed simp

lemma round53_dvd: "2 ^ (bit_len m - 53) dvd m \<Longrightarrow> round53 m = m"
  by (simp add: round53_def Let_def)

text \<open>A shift keeps what fits.\<close>

lemma round53_shift:
  assumes "n < 2 ^ 53"
  shows "round53 (n * 2 ^ b) = n * 2 ^ b"
proof (cases "n = 0")
  case False
  have "bit_len n \<le> 53" using assms by (rule bit_len_le)
  with False have "bit_len (n * 2 ^ b) - 53 \<le> b" by (simp add: bit_len_shift)
  then have "(2::nat) ^ (bit_len (n * 2 ^ b) - 53) dvd n * 2 ^ b" by (simp add: le_imp_power_dvd)
  then show ?thesis by (rule round53_dvd)
qed (simp add: round53_small)

section \<open>Seconds of a duration\<close>

text \<open>
  \<open>float64(nsec)/1e9\<close> in units of \<open>2 ^ -91\<close>: the quotient is taken to more bits than a mantissa
  has, with one more that says whether it is exact, and rounded then.
\<close>

definition nanos53 :: "nat \<Rightarrow> nat" where
  "nanos53 nsec =
     (let p = nsec * 2 ^ 90
      in round53 (2 * (p div 1000000000) + (if p mod 1000000000 = 0 then 0 else 1)))"

text \<open>
  \<open>int64(d.Seconds())\<close>: the seconds and the nanoseconds are added as \<open>float64\<close>, and the sum is
  cut off.
\<close>

definition wholeSeconds :: "duration \<Rightarrow> int" where
  "wholeSeconds d =
     (let sec = nat (\<bar>d\<bar> div Second); nsec = nat (\<bar>d\<bar> mod Second)
      in sgn d * int (round53 (sec * 2 ^ 91 + nanos53 nsec) div 2 ^ 91))"

text \<open>Whole seconds come out as they are; for others the sum may round up to the next.\<close>

lemma wholeSeconds_whole:
  assumes "\<bar>n\<bar> < 2 ^ 53"
  shows "wholeSeconds (n * Second) = n"
proof -
  have "nat \<bar>n\<bar> < 2 ^ 53" using assms by (simp add: nat_less_iff)
  then have "round53 (nat \<bar>n\<bar> * 2 ^ 91) div 2 ^ 91 = nat \<bar>n\<bar>" by (simp only: round53_shift) simp
  moreover have "nanos53 0 = 0" by (simp add: nanos53_def round53_small)
  moreover have "\<bar>n * Second\<bar> div Second = \<bar>n\<bar>" "\<bar>n * Second\<bar> mod Second = 0" "sgn (n * Second) = sgn n"
    by (simp_all add: abs_mult sgn_mult Second_def)
  ultimately show ?thesis by (simp add: wholeSeconds_def sgn_mult_abs)
qed

lemma bit_len_eq: "2 ^ b \<le> n \<Longrightarrow> n < 2 ^ Suc b \<Longrightarrow> bit_len n = Suc b"
proof (induction b arbitrary: n)
  case 0
  then have "n = 1" by simp
  then show ?case by (simp add: bit_len.simps)
next
  case (Suc b)
  then have "2 ^ b \<le> n div 2" "n div 2 < 2 ^ Suc b" by (simp_all add: less_eq_div_iff_mult_less_eq)
  from Suc.IH [OF this] Suc.prems show ?case by (subst bit_len.simps) simp
qed

lemma round53_eq:
  assumes "2 ^ (52 + k) \<le> m" and "m < 2 ^ (53 + k)"
  shows "round53 m = (if 2 * (m mod 2 ^ k) < 2 ^ k \<or> 2 * (m mod 2 ^ k) = 2 ^ k \<and> even (m div 2 ^ k) then m div 2 ^ k
    else m div 2 ^ k + 1) * 2 ^ k"
  using bit_len_eq [OF assms(1)] assms(2) by (simp add: round53_def Let_def)

lemma wholeSeconds_carry: "wholeSeconds 9000000000999999999 = 9000000001"
proof -
  have "round53 2475880076094880471227487899 = 2475880076094880541250158592" by (subst round53_eq [of 38]) simp_all
  then have n: "nanos53 999999999 = 2475880076094880541250158592" by (simp add: nanos53_def)
  have "round53 22282920709612725024279116573250158592 = 22282920709612725026754996581798248448" by (subst round53_eq [of 72]) simp_all
  then show ?thesis by (simp add: wholeSeconds_def Second_def n)
qed

end
