(* ===== verification/Server_Main.thy ===== *)
theory Server_Main
  imports Server Idp Kube_Lift Http_Run Go_Float
begin

text \<open>
  The command that runs the broker (\<open>service/cmd/server/main.go\<close>): what it assembles from the
  environment, in its order, and how it ends. The Kubernetes clients, or the error of their
  construction, are given.
\<close>

definition waitBindedTimeout :: duration where
  "waitBindedTimeout = 15 * Second"

text \<open>
  The configured number of seconds is the number that the token requests ask for, unless the
  product has wrapped around in 64 bits.
\<close>

lemma tokenLifetime_seconds: "\<bar>n\<bar> \<le> 9223372036 \<Longrightarrow> wholeSeconds (seconds n) = n"
  using wholeSeconds_whole [of n] by (simp add: seconds_def wrap64_id)

text \<open>
  \<open>WaitBinded\<close> with the fuel that always suffices (\<open>WaitBinded_ends\<close>), so that the last case
  does not occur.
\<close>

definition waitBinded ::
  "('w, 'a) kube_scheme \<Rightarrow> ('w, 'c) waiter_scheme \<Rightarrow> Binder \<Rightarrow> string \<Rightarrow> 'w \<Rightarrow> goerror option \<times> 'w" where
  "waitBinded K W B name w =
     (case WaitBinded K W B (waitFuel B) name w of (Some r, w') \<Rightarrow> (r, w') | (None, w') \<Rightarrow> (Some ContextDone, w'))"

definition mainDeps ::
  "('w, 'a) kube_scheme \<Rightarrow> ('w, 'c) waiter_scheme \<Rightarrow> 'l golib_scheme \<Rightarrow> ('w, 'i) idplib_scheme \<Rightarrow>
   ('w \<Rightarrow> byte list \<times> 'w) \<Rightarrow> Config \<Rightarrow> 'w Store \<Rightarrow> Provider \<Rightarrow> 'w deps" where
  "mainDeps K W L I rand cfg st p =
     (let binder = NewBinder (cfg_BindNamespace cfg) (cfg_BindTTL cfg) waitBindedTimeout;
          minter = NewMinter (cfg_BindNamespace cfg) (cfg_TokenAudiences cfg) (wholeSeconds (cfg_TokenLifetime cfg))
      in \<lparr>d_store = st, d_AuthURL = AuthURL I p, d_Authenticate = Authenticate I p, d_Upsert = Upsert K L binder,
          d_WaitBinded = waitBinded K W binder, d_Mint = Mint K minter, d_Sign = \<lambda>_. Inl (Errorf []), d_Read = rand,
          d_now = k_now K\<rparr>)"

definition runServer ::
  "(('a memory_scheme, 'b) kube_scheme \<times> ('a memory_scheme, 'c) waiter_scheme) res \<Rightarrow> 'l golib_scheme \<Rightarrow>
   ('a memory_scheme, 'i) idplib_scheme \<Rightarrow> ('k, 'a memory_scheme, 'j) joselib_scheme \<Rightarrow>
   (redisOptions \<Rightarrow> ('a memory_scheme) redis) \<Rightarrow> ('a memory_scheme \<Rightarrow> byte list \<times> 'a memory_scheme) \<Rightarrow> environ \<Rightarrow>
   'a memory_scheme \<Rightarrow> (Config \<times> ('a memory_scheme) deps \<times> 'k signer) res \<times> 'a memory_scheme" where
  "runServer clients L I J NewClient rand E w =
     (case Load L E of
        Inl e \<Rightarrow> (Inl e, w)
      | Inr cfg \<Rightarrow>
        (case clients of
           Inl e \<Rightarrow> (Inl e, w)
         | Inr (K, W) \<Rightarrow>
           (case store_New NewClient (cfg_Store cfg) w of
              (Inl e, w1) \<Rightarrow> (Inl e, w1)
            | (Inr st, w1) \<Rightarrow>
              (case idp_New L I cfg w1 of
                 (Inl e, w2) \<Rightarrow> (Inl e, w2)
               | (Inr p, w2) \<Rightarrow>
                 (case broker_New J cfg (mainDeps K W L I rand cfg st p) w2 of
                    (Inl e, w3) \<Rightarrow> (Inl e, w3)
                  | (Inr (D, sg), w3) \<Rightarrow> (Inr (cfg, D, sg), w3))))))"

section \<open>Serving\<close>

text \<open>The settings \<open>server.New\<close> gives the HTTP server; its handler is \<open>serve\<close>.\<close>

definition server_New :: "string \<Rightarrow> httpServer" where
  "server_New addr =
     \<lparr>hs_Addr = addr, hs_ReadHeaderTimeout = 10 * Second, hs_ReadTimeout = 30 * Second, hs_WriteTimeout = 60 * Second,
      hs_IdleTimeout = 120 * Second, hs_MinTLS12 = True\<rparr>"

text \<open>
  The listener the server is started with; then the first thing that ends the command, in the
  order the \<open>select\<close> sees them: the error of the server, unless it was closed, or a signal,
  after which the result is that of \<open>Shutdown\<close>. \<open>None\<close> while it is still waiting.
\<close>

definition server_listener :: "Config \<Rightarrow> listener" where
  "server_listener cfg =
     (let tlsEnabled = cfg_TLSCertFile cfg \<noteq> [] \<and> cfg_TLSKeyFile cfg \<noteq> []
      in if tlsEnabled then ListenAndServeTLS (cfg_TLSCertFile cfg) (cfg_TLSKeyFile cfg) else ListenAndServe)"

fun server_await :: "goerror option \<Rightarrow> run_event list \<Rightarrow> goerror option option" where
  "server_await shutdown [] = None"
| "server_await shutdown (Served err # es) =
     (if fatal err then Some err else server_await shutdown es)"
| "server_await shutdown (Signalled # es) = Some shutdown"

lemma server_await_eq: "server_await shutdown es = end_result shutdown es"
  by (induction shutdown es rule: server_await.induct) (simp_all add: end_result_def)

text \<open>
  \<open>run\<close> as a whole, and \<open>main\<close>: a broker that could not be assembled has its error, one that was
  has what ended it; \<open>None\<close> while it is serving.
\<close>

definition server_main ::
  "(Config \<times> 'd \<times> 'k signer) res \<Rightarrow> goerror option \<Rightarrow> run_event list \<Rightarrow> nat option" where
  "server_main started shutdown es =
     (case started of
        Inl e \<Rightarrow> Some (exit_status (Some e))
      | Inr _ \<Rightarrow> map_option exit_status (server_await shutdown es))"

text \<open>The command succeeds exactly when it was assembled and shut down in order.\<close>

lemma server_main_0:
  "server_main started shutdown es = Some 0 \<longleftrightarrow>
     \<not> isl started \<and> find ends es = Some Signalled \<and> shutdown = None"
proof (cases started)
  case (Inl e)
  then show ?thesis by (simp add: server_main_def exit_status_def)
next
  case (Inr x)
  have n: "find ends es \<noteq> Some (Served None)" by (metis ends.simps(2) fatal_simps(1) find_Some_iff)
  have "map_option exit_status (end_result shutdown es) = Some 0 \<longleftrightarrow> find ends es = Some Signalled \<and> shutdown = None"
  proof (cases "find ends es")
    case (Some ev)
    with n show ?thesis by (cases ev) (auto simp: end_result_def exit_status_def split: option.splits)
  qed (simp add: end_result_def)
  with Inr show ?thesis by (simp add: server_main_def server_await_eq)
qed

text \<open>The response to a callback can wait for the operator: the wait is shorter than the write timeout.\<close>

lemma wait_fits: "waitBindedTimeout < hs_WriteTimeout (server_New addr)"
  by (simp add: waitBindedTimeout_def server_New_def)

lemma runServer_ok:
  assumes "runServer (Inr (K, W)) L I J NewClient rand E w = (Inr (cfg, D, sg), w')"
  obtains st p w1 w2 g where "Load L E = Inr cfg" and "store_New NewClient (cfg_Store cfg) w = (Inr st, w1)"
    and "idp_New L I cfg w1 = (Inr p, w2)"
    and "newSigner J (TrimRight (cfg_Issuer cfg) ''/'') (cfg_IDTokenSigningKey cfg) w2 = (Inr (sg, g), w')"
    and "D = (mainDeps K W L I rand cfg st p)\<lparr>d_Sign := jl_Sign J (sg_key sg) (sg_kid sg)\<rparr>"
  using assms unfolding runServer_def broker_New_def by (auto split: prod.splits sum.splits)

context bind_client
begin

lemma waitBinded_binded:
  assumes "0 < b_pollInterval B" and "waitBinded K W B name w = (None, w')"
  shows "\<exists>cr. cl_binds (view w') (b_namespace B, name) = Some cr \<and> phase cr = BindBinded"
proof -
  obtain x v where r: "WaitBinded K W B (waitFuel B) name w = (x, v)" by fastforce
  with assms(2) have "x = Some None" "v = w'"
    using WaitBinded_ends [OF assms(1), of name w] by (auto simp: waitBinded_def split: option.splits)
  with r show ?thesis unfolding WaitBinded_def by (simp add: waitLoop_binded)
qed

end

end
