(* ===== verification/Traced_Api.thy ===== *)
theory Traced_Api
  imports Server_Main
begin

text \<open>
  Where access comes from. A resource of the bind namespace is \<^emph>\<open>traced\<close> when an admitted
  identity accounts for its name and its memberships; a binding is traced when an admitted
  identity and a listed role account for it. The locale \<open>traced_api\<close> is the contract of an API
  that the operator shares with brokers, other reconcilers and administrators: it promises a
  guarantee for each call instead of a state after it, so it holds whatever happens between two
  calls. The lemmas carry the guarantee from the calls to \<open>Reconcile\<close>, \<open>Upsert\<close>, \<open>WaitBinded\<close>
  and \<open>Mint\<close>.
\<close>

section \<open>What accounts for access\<close>

definition bind_traced ::
  "'u unicode_scheme \<Rightarrow> string \<Rightarrow> Identity set \<Rightarrow> UserAuthenticationBind \<Rightarrow> bool" where
  "bind_traced U ns A b \<longleftrightarrow>
     (om_Namespace b = ns \<longrightarrow>
      (\<exists>i \<in> A. om_Name b = SanitizeName U (id_Email i) \<and>
         spec_User (uab_Spec b) = SanitizeName U (id_Email i) \<and>
         spec_Memberships (uab_Spec b) = toCRMemberships (id_Groups i)))"

text \<open>The role is annotated with one of the groups the identity provider reported.\<close>

definition entitles :: "Identity \<Rightarrow> ObjectMeta \<Rightarrow> bool" where
  "entitles i role \<longleftrightarrow> groupMatches (\<lambda>g. g \<in> m_Gid ` set (id_Groups i)) (om_Annotations role)"

definition accounts :: "'u unicode_scheme \<Rightarrow> string \<Rightarrow> Binding \<Rightarrow> Subject \<Rightarrow> Identity \<Rightarrow> ObjectMeta \<Rightarrow> bool" where
  "accounts U kind b s i role \<longleftrightarrow>
     sub_Name s = SanitizeName U (id_Email i) \<and> entitles i role \<and>
     b_RoleRef b = \<lparr>rr_APIGroup = rbacAPIGroup, rr_Kind = kind, rr_Name = om_Name role\<rparr> \<and>
     (kind = ''Role'' \<longrightarrow> om_Namespace b = om_Namespace role)"

definition binding_traced ::
  "'u unicode_scheme \<Rightarrow> string \<Rightarrow> Identity set \<Rightarrow> ObjectMeta set \<Rightarrow> string \<Rightarrow> Binding \<Rightarrow> bool" where
  "binding_traced U ns A R kind b \<longleftrightarrow>
     (om_Labels b ownerLabel \<noteq> None \<longrightarrow>
      (\<forall>s \<in> set (b_Subjects b). sub_Namespace s = ns \<longrightarrow> (\<exists>i \<in> A. \<exists>role \<in> R. accounts U kind b s i role)))"

lemma bind_traced_mono: "bind_traced U ns A b \<Longrightarrow> A \<subseteq> A' \<Longrightarrow> bind_traced U ns A' b"
  unfolding bind_traced_def by blast

lemma binding_traced_mono:
  "binding_traced U ns A R kind b \<Longrightarrow> A \<subseteq> A' \<Longrightarrow> R \<subseteq> R' \<Longrightarrow> binding_traced U ns A' R' kind b"
  unfolding binding_traced_def by blast

lemma same_binding_traced:
  "same_binding b b' \<Longrightarrow> binding_traced U ns A R kind b' \<longleftrightarrow> binding_traced U ns A R kind b"
  by (simp add: same_binding_def binding_traced_def accounts_def)

lemma bind_traced_cong:
  "bind_traced U ns A b \<Longrightarrow> nsname_of b' = nsname_of b \<Longrightarrow> uab_Spec b' = uab_Spec b \<Longrightarrow> bind_traced U ns A b'"
  by (simp add: bind_traced_def nsname_of_def)

lemma crm_Gid_toCR: "set (map crm_Gid (toCRMemberships ms)) = m_Gid ` set ms"
  by (simp add: toCRMemberships_def image_image)

text \<open>The ServiceAccount of a resource, as far as the bind namespace is concerned.\<close>

definition sa_of :: "string \<Rightarrow> UserAuthenticationBind \<Rightarrow> ServiceAccount \<Rightarrow> bool" where
  "sa_of ns b sa \<longleftrightarrow> om_Namespace sa = om_Namespace b \<and> (om_Namespace b = ns \<longrightarrow> om_Name sa = om_Name b)"

lemma sa_of_ensured:
  "bind_traced U ns A b \<Longrightarrow> nsname_of sa = (om_Namespace b, spec_User (uab_Spec b)) \<Longrightarrow> sa_of ns b sa"
  by (auto simp: sa_of_def bind_traced_def nsname_of_def)

lemma sa_of_cong: "nsname_of b' = nsname_of b \<Longrightarrow> sa_of ns b' sa \<longleftrightarrow> sa_of ns b sa"
  by (simp add: sa_of_def nsname_of_def)

text \<open>The bindings the operator asks for are traced when their resource is.\<close>

lemma desired_traced:
  assumes b: "bind_traced U ns A b" and sa: "sa_of ns b sa" and R: "set rs \<subseteq> R"
  shows "d \<in> set (desiredCRBs b (subject_of sa) rs) \<Longrightarrow> binding_traced U ns A R clusterRoleKind d"
    and "d \<in> set (desiredRBs b (subject_of sa) rs) \<Longrightarrow> binding_traced U ns A R ''Role'' d"
proof -
  let ?groups = "\<lambda>g. g \<in> set (map crm_Gid (spec_Memberships (uab_Spec b)))"
  have x: "\<exists>i \<in> A. \<exists>x \<in> R. om_Name sa = SanitizeName U (id_Email i) \<and> entitles i x \<and> x = role"
    if "om_Namespace sa = ns" and m: "groupMatches ?groups (om_Annotations role)" and "role \<in> set rs" for role
  proof -
    have "om_Namespace b = ns" "om_Name sa = om_Name b" using that(1) sa by (simp_all add: sa_of_def)
    then obtain i where i: "i \<in> A" "om_Name sa = SanitizeName U (id_Email i)"
        "spec_Memberships (uab_Spec b) = toCRMemberships (id_Groups i)"
      using b unfolding bind_traced_def by auto
    with m have "entitles i role" by (simp only: entitles_def crm_Gid_toCR)
    with i that(3) R show ?thesis by (intro bexI [of _ i] bexI [of _ role]) auto
  qed
  show "binding_traced U ns A R clusterRoleKind d" if "d \<in> set (desiredCRBs b (subject_of sa) rs)"
    using that x by (fastforce simp: desiredCRBs_def binding_traced_def accounts_def subject_of_def clusterRoleKind_def Let_def)
  show "binding_traced U ns A R ''Role'' d" if "d \<in> set (desiredRBs b (subject_of sa) rs)"
    using that x by (fastforce simp: desiredRBs_def binding_traced_def accounts_def subject_of_def Let_def)
qed

section \<open>Where bindings come from\<close>

context binding_kind
begin

lemma create_origin:
  assumes "create b w = (r, w')" and "objs w' k = Some d"
  shows "objs w k = Some d \<or> same_binding b d"
  using grownD [OF create_grown [OF assms(1), THEN conjunct2] assms(2)] by auto

lemma delete_origin:
  assumes "delete b w = (r, w')"
  shows "rest w' = rest w" and "objs w' k = Some d \<Longrightarrow> objs w k = Some d"
  using assms delete_ok [of b w w'] delete_err [of b w _ w'] by (cases r; auto split: if_splits)+

lemma list_same: "list lab v w = (r, w') \<Longrightarrow> rest w' = rest w \<and> objs w' = objs w"
  using list_ok [of lab v w _ w'] list_err [of lab v w _ w'] by (cases r) auto

end

section \<open>Guarantees\<close>

text \<open>
  \<open>G w w'\<close>: the world may go from \<open>w\<close> to \<open>w'\<close>. Every participant guarantees it from worlds that
  satisfy \<open>inv\<close>, and relies on the others for it.
\<close>

locale guarantee =
  fixes inv :: "'w \<Rightarrow> bool" and G :: "'w \<Rightarrow> 'w \<Rightarrow> bool"
  assumes G_refl: "inv w \<Longrightarrow> G w w"
    and G_trans: "G w w1 \<Longrightarrow> G w1 w2 \<Longrightarrow> G w w2"
    and G_inv: "G w w' \<Longrightarrow> inv w'"

locale traced_api = guarantee inv G
  for inv :: "'w \<Rightarrow> bool" and G :: "'w \<Rightarrow> 'w \<Rightarrow> bool" +
  fixes K :: "('w, 'a) kube_scheme" and W :: "('w, 'c) waiter_scheme" and U :: "'u unicode_scheme" and ns :: string
    and A :: "'w \<Rightarrow> Identity set" and CR :: "'w \<Rightarrow> ObjectMeta set" and RO :: "'w \<Rightarrow> ObjectMeta set"
  assumes G_A: "G w w' \<Longrightarrow> A w \<subseteq> A w'" and G_CR: "G w w' \<Longrightarrow> CR w \<subseteq> CR w'" and G_RO: "G w w' \<Longrightarrow> RO w \<subseteq> RO w'"
    and getBind_G: "inv w \<Longrightarrow> k_getBind K k w = (r, w') \<Longrightarrow> G w w'"
    and getBind_traced: "inv w \<Longrightarrow> k_getBind K k w = (Inr b, w') \<Longrightarrow> bind_traced U ns (A w') b"
    and updateBind_G: "inv w \<Longrightarrow> bind_traced U ns (A w) b \<Longrightarrow> k_updateBind K b w = (r, w') \<Longrightarrow> G w w'"
    and patchStatus_G: "inv w \<Longrightarrow> k_patchStatus K orig new w = (r, w') \<Longrightarrow> G w w'"
    and patchStatus_traced: "inv w \<Longrightarrow> k_patchStatus K orig new w = (Inr b, w') \<Longrightarrow>
      bind_traced U ns (A w') b \<and> nsname_of b = nsname_of new"
    and upsert_G: "inv w \<Longrightarrow>
      (\<And>b b'. f b = Inr b' \<Longrightarrow> nsname_of b = k \<Longrightarrow> nsname_of b' = k \<and> bind_traced U ns (A w) b') \<Longrightarrow>
      k_createOrUpdateBind K k f w = (x, w') \<Longrightarrow> G w w'"
    and createOrUpdateSA_G: "inv w \<Longrightarrow> k_createOrUpdateSA K k g w = (s, w') \<Longrightarrow> G w w'"
    and createOrUpdateSA_key: "inv w \<Longrightarrow> k_createOrUpdateSA K k g w = (Inr sa, w') \<Longrightarrow> nsname_of sa = k"
    and listClusterRoles_G: "inv w \<Longrightarrow> k_listClusterRoles K w = (rs, w') \<Longrightarrow> G w w'"
    and listClusterRoles_listed: "inv w \<Longrightarrow> k_listClusterRoles K w = (Inr xs, w') \<Longrightarrow> set xs \<subseteq> CR w'"
    and listRoles_G: "inv w \<Longrightarrow> k_listRoles K w = (rs, w') \<Longrightarrow> G w w'"
    and listRoles_listed: "inv w \<Longrightarrow> k_listRoles K w = (Inr xs, w') \<Longrightarrow> set xs \<subseteq> RO w'"
    and createCRB_G: "inv w \<Longrightarrow> binding_traced U ns (A w) (CR w) clusterRoleKind d \<Longrightarrow>
      k_createCRB K d w = (e, w') \<Longrightarrow> G w w'"
    and listCRBs_G: "inv w \<Longrightarrow> k_listCRBs K l v w = (bs, w') \<Longrightarrow> G w w'"
    and deleteCRB_G: "inv w \<Longrightarrow> k_deleteCRB K d w = (e, w') \<Longrightarrow> G w w'"
    and createRB_G: "inv w \<Longrightarrow> binding_traced U ns (A w) (RO w) ''Role'' d \<Longrightarrow>
      k_createRB K d w = (e, w') \<Longrightarrow> G w w'"
    and listRBs_G: "inv w \<Longrightarrow> k_listRBs K l v w = (bs, w') \<Longrightarrow> G w w'"
    and deleteRB_G: "inv w \<Longrightarrow> k_deleteRB K d w = (e, w') \<Longrightarrow> G w w'"
    and createToken_G: "inv w \<Longrightarrow> k_createToken K k auds secs w = (t, w') \<Longrightarrow> G w w'"
    and wt_get_G: "inv w \<Longrightarrow> wt_get W dl k w = (r, w') \<Longrightarrow> G w w'"
    and wt_select_G: "inv w \<Longrightarrow> wt_select W start poll n dl w = (e, w') \<Longrightarrow> G w w'"

section \<open>The operator\<close>

context guarantee
begin

lemma prune_G:
  assumes "\<And>b w r w'. inv w \<Longrightarrow> delete b w = (r, w') \<Longrightarrow> G w w'"
  shows "inv w \<Longrightarrow> pruneBindings delete keep msg bs w = (r, w') \<Longrightarrow> G w w'"
proof (induction bs arbitrary: w)
  case Nil
  then show ?case by (simp add: G_refl)
next
  case (Cons b bs)
  show ?case
  proof (cases "keep b")
    case True
    with Cons show ?thesis by simp
  next
    case False
    obtain e w1 where d: "delete b w = (e, w1)" by fastforce
    note g = assms [OF Cons.prems(1) d]
    from Cons.prems(2) False d have "w' = w1 \<or> pruneBindings delete keep msg bs w1 = (r, w')"
      by (auto split: option.splits if_splits)
    with Cons.IH [OF G_inv [OF g]] g show ?thesis by (auto intro: G_trans)
  qed
qed

lemma ensure_G:
  assumes create: "\<And>d w e w'. inv w \<Longrightarrow> P w d \<Longrightarrow> create d w = (e, w') \<Longrightarrow> G w w'"
    and mono: "\<And>d w w'. P w d \<Longrightarrow> G w w' \<Longrightarrow> P w' d"
  shows "inv w \<Longrightarrow> \<forall>d \<in> set ds. P w d \<Longrightarrow> ensureBindings create msg ds w = (r, w') \<Longrightarrow> G w w'"
proof (induction ds arbitrary: w)
  case Nil
  then show ?case by (simp add: G_refl)
next
  case (Cons d ds)
  obtain e w1 where c: "create d w = (e, w1)" by fastforce
  have g: "G w w1" using create [OF Cons.prems(1) _ c] Cons.prems(2) by simp
  from Cons.prems(3) c have "w' = w1 \<or> ensureBindings create msg ds w1 = (r, w')"
    by (auto split: option.splits if_splits)
  moreover have "\<forall>d \<in> set ds. P w1 d" using Cons.prems(2) mono [OF _ g] by simp
  ultimately show ?case using Cons.IH [OF G_inv [OF g]] g by (auto intro: G_trans)
qed

lemma syncKind_G:
  assumes create: "\<And>d w e w'. inv w \<Longrightarrow> P w d \<Longrightarrow> create d w = (e, w') \<Longrightarrow> G w w'"
    and mono: "\<And>d w w'. P w d \<Longrightarrow> G w w' \<Longrightarrow> P w' d"
    and lst: "\<And>l v w x w'. inv w \<Longrightarrow> list l v w = (x, w') \<Longrightarrow> G w w'"
    and delete: "\<And>b w r w'. inv w \<Longrightarrow> delete b w = (r, w') \<Longrightarrow> G w w'"
    and w: "inv w" and ds: "\<forall>d \<in> set ds. P w d"
    and run: "syncKind create list delete cm lm pm ks uid ds w = (r, w')"
  shows "G w w'"
proof -
  obtain r1 w1 where e: "ensureBindings create cm ds w = (r1, w1)" by fastforce
  have g1: "G w w1" by (rule ensure_G [where P = P, OF create mono w ds e])
  obtain x w2 where l: "list ownerLabel uid w1 = (x, w2)" by fastforce
  have g2: "G w1 w2" by (rule lst [OF G_inv [OF g1] l])
  have "w' = w1 \<or> w' = w2 \<or> (\<exists>keep bs. pruneBindings delete keep pm bs w2 = (r, w'))"
    using run e l by (auto simp: syncKind_def split: option.splits sum.splits)
  then show ?thesis using prune_G [OF delete G_inv [OF g2]] G_trans [OF g1 g2] g1 by (auto intro: G_trans)
qed

lemma deleteKind_G:
  assumes lst: "\<And>l v w x w'. inv w \<Longrightarrow> list l v w = (x, w') \<Longrightarrow> G w w'"
    and delete: "\<And>b w r w'. inv w \<Longrightarrow> delete b w = (r, w') \<Longrightarrow> G w w'"
    and w: "inv w" and run: "deleteKind list delete lm dm uid w = (r, w')"
  shows "G w w'"
proof -
  obtain x w1 where l: "list ownerLabel uid w = (x, w1)" by fastforce
  have g: "G w w1" by (rule lst [OF w l])
  have "w' = w1 \<or> (\<exists>bs. pruneBindings delete (\<lambda>_. False) dm bs w1 = (r, w'))"
    using run l by (auto simp: deleteKind_def split: sum.splits)
  then show ?thesis using prune_G [OF delete G_inv [OF g]] g by (auto intro: G_trans)
qed

end

context traced_api
begin

lemma bind_traced_G: "bind_traced U ns (A w) b \<Longrightarrow> G w w' \<Longrightarrow> bind_traced U ns (A w') b"
  by (rule bind_traced_mono [OF _ G_A])

lemma crb_traced_G:
  "binding_traced U ns (A w) (CR w) kd d \<Longrightarrow> G w w' \<Longrightarrow> binding_traced U ns (A w') (CR w') kd d"
  by (rule binding_traced_mono [OF _ G_A G_CR])

lemma rb_traced_G:
  "binding_traced U ns (A w) (RO w) kd d \<Longrightarrow> G w w' \<Longrightarrow> binding_traced U ns (A w') (RO w') kd d"
  by (rule binding_traced_mono [OF _ G_A G_RO])

lemma syncClusterRoleBindings_G:
  assumes "inv w" and "\<forall>d \<in> set ds. binding_traced U ns (A w) (CR w) clusterRoleKind d"
    and "syncClusterRoleBindings K uid ds w = (r, w')"
  shows "G w w'"
  by (rule syncKind_G [where P = "\<lambda>w. binding_traced U ns (A w) (CR w) clusterRoleKind",
        OF createCRB_G crb_traced_G listCRBs_G deleteCRB_G assms [unfolded syncClusterRoleBindings_def]])

lemma syncRoleBindings_G:
  assumes "inv w" and "\<forall>d \<in> set ds. binding_traced U ns (A w) (RO w) ''Role'' d"
    and "syncRoleBindings K uid ds w = (r, w')"
  shows "G w w'"
  by (rule syncKind_G [where P = "\<lambda>w. binding_traced U ns (A w) (RO w) ''Role''",
        OF createRB_G rb_traced_G listRBs_G deleteRB_G assms [unfolded syncRoleBindings_def]])

lemma syncBindings_G:
  assumes w: "inv w" and b: "bind_traced U ns (A w) b"
    and sa: "sa_of ns b sa" and run: "syncBindings K b sa w = (r, w')"
  shows "G w w'"
proof -
  obtain x w1 where l: "k_listClusterRoles K w = (x, w1)" by fastforce
  have g1: "G w w1" by (rule listClusterRoles_G [OF w l])
  show ?thesis
  proof (cases x)
    case (Inl e)
    with run l g1 show ?thesis by (simp add: syncBindings_def)
  next
    case (Inr rs)
    obtain e2 w2 where c: "syncClusterRoleBindings K (om_UID b) (desiredCRBs b (subject_of sa) rs) w1 = (e2, w2)"
      by fastforce
    have "set rs \<subseteq> CR w1" using listClusterRoles_listed [OF w l [unfolded Inr]] .
    from desired_traced(1) [OF bind_traced_G [OF b g1] sa this]
    have g2: "G w1 w2" by (intro syncClusterRoleBindings_G [OF G_inv [OF g1] _ c] ballI)
    obtain y w3 where l3: "k_listRoles K w2 = (y, w3)" by fastforce
    have g3: "G w2 w3" by (rule listRoles_G [OF G_inv [OF g2] l3])
    have g: "G w w2" "G w w3" using g1 g2 g3 by (blast intro: G_trans)+
    show ?thesis
    proof (cases "e2 = None \<and> (\<exists>qs. y = Inr qs)")
      case False
      with run l Inr c l3 g show ?thesis by (cases e2; cases y) (auto simp: syncBindings_def)
    next
      case True
      then obtain qs where qs: "y = Inr qs" by auto
      with True run l Inr c l3 have c4: "syncRoleBindings K (om_UID b) (desiredRBs b (subject_of sa) qs) w3 = (r, w')"
        by (simp add: syncBindings_def)
      have "set qs \<subseteq> RO w3" using listRoles_listed [OF G_inv [OF g2] l3 [unfolded qs]] .
      from desired_traced(2) [OF bind_traced_G [OF b g(2)] sa this]
      have "G w3 w'" by (intro syncRoleBindings_G [OF G_inv [OF g3] _ c4] ballI)
      with g(2) show ?thesis by (rule G_trans)
    qed
  qed
qed

lemma deleteOwned_G:
  assumes w: "inv w" and run: "deleteOwned K uid w = (r, w')"
  shows "G w w'"
proof -
  obtain e w1 where d: "deleteKind (k_listCRBs K) (k_deleteCRB K) ''listing owned ClusterRoleBindings''
      ''deleting ClusterRoleBinding'' uid w = (e, w1)" by (rule prod.exhaust)
  have g: "G w w1" by (rule deleteKind_G [OF listCRBs_G deleteCRB_G w d])
  show ?thesis
  proof (cases e)
    case None
    with run d have "deleteKind (k_listRBs K) (k_deleteRB K) ''listing owned RoleBindings''
        ''deleting RoleBinding'' uid w1 = (r, w')" by (simp add: deleteOwned_def)
    from deleteKind_G [OF listRBs_G deleteRB_G G_inv [OF g] this] g show ?thesis by (rule G_trans [rotated])
  qed (use run d g in \<open>simp add: deleteOwned_def\<close>)
qed

lemma updatePhase_G:
  assumes w: "inv w" and run: "updatePhase K orig b ph cs rs msg w = ((e, b'), w')"
  shows "G w w'" and "e = None \<Longrightarrow> bind_traced U ns (A w') b' \<and> nsname_of b' = nsname_of b"
proof -
  let ?b = "set_phase K b ph cs rs msg (k_now K w)"
  have n: "nsname_of ?b = nsname_of b" by (simp add: set_phase_def nsname_of_def)
  obtain x w1 where p: "k_patchStatus K orig ?b w = (x, w1)" by fastforce
  with run have "w' = w1" by (auto simp: updatePhase_def Let_def split: sum.splits)
  with patchStatus_G [OF w p] show "G w w'" by simp
  assume "e = None"
  with run p have "x = Inr b'" "w' = w1" by (auto simp: updatePhase_def Let_def split: sum.splits)
  with patchStatus_traced [OF w, of orig ?b b' w'] p n show "bind_traced U ns (A w') b' \<and> nsname_of b' = nsname_of b"
    by simp
qed

lemma finish_with_G:
  assumes w: "inv w" and run: "finish_with K orig b ph cs rs msg w = (r, w')"
  shows "G w w'"
proof -
  obtain e b' w1 where u: "updatePhase K orig b ph cs rs msg w = ((e, b'), w1)" by (metis prod.exhaust)
  with run updatePhase_G(1) [OF w u] show ?thesis by (simp add: finish_with_def)
qed

lemma reconcileDelete_G:
  assumes w: "inv w" and b: "bind_traced U ns (A w) b" and run: "reconcileDelete K b w = (r, w')"
  shows "G w w'"
proof (cases "k_containsFinalizer K finalizer (om_Finalizers b)")
  case False
  with run w show ?thesis by (simp add: reconcileDelete_def G_refl)
next
  case True
  obtain e w1 where d: "deleteOwned K (om_UID b) w = (e, w1)" by fastforce
  have g: "G w w1" by (rule deleteOwned_G [OF w d])
  let ?b = "b\<lparr>om_Finalizers := k_removeFinalizer K finalizer (om_Finalizers b)\<rparr>"
  obtain x w2 where u: "k_updateBind K ?b w1 = (x, w2)" by fastforce
  have "bind_traced U ns (A w1) ?b" using bind_traced_G [OF b g] by (simp add: bind_traced_def)
  from G_trans [OF g updateBind_G [OF G_inv [OF g] this u]] g run True d u show ?thesis
    by (auto simp: reconcileDelete_def split: option.splits sum.splits)
qed

lemma reconcileExpired_G:
  assumes w: "inv w" and run: "reconcileExpired K b w = (r, w')"
  shows "G w w'"
proof (cases "sv_Status (st_Sv (uab_Status b)) = BindUnbound")
  case True
  with run w show ?thesis by (simp add: reconcileExpired_def G_refl)
next
  case False
  obtain e w1 where d: "deleteOwned K (om_UID b) w = (e, w1)" by fastforce
  have g: "G w w1" by (rule deleteOwned_G [OF w d])
  show ?thesis
  proof (cases e)
    case None
    with run False d have "finish_with K b b BindUnbound ConditionFalse ''Expired'' ''TTL elapsed'' w1 = (r, w')"
      by (simp add: reconcileExpired_def)
    from G_trans [OF g finish_with_G [OF G_inv [OF g] this]] show ?thesis .
  qed (use run False d g in \<open>simp add: reconcileExpired_def\<close>)
qed

lemma reconcileSync_G:
  assumes w: "inv w" and b: "bind_traced U ns (A w) b" and sa: "sa_of ns b sa"
    and run: "reconcileSync K orig b sa exp w = (r, w')"
  shows "G w w'"
proof -
  obtain e w1 where s: "syncBindings K b sa w = (e, w1)" by fastforce
  have g: "G w w1" by (rule syncBindings_G [OF w b sa s])
  note w1 = G_inv [OF g]
  obtain e2 b2 w2 where u: "updatePhase K orig (set_ref_expiry (om_UID sa) exp b) BindBinded ConditionTrue ''Bound''
      (bound_message b) w1 = ((e2, b2), w2)" by (metis prod.exhaust)
  show ?thesis
  proof (cases e)
    case None
    with run s u have "w' = w1 \<or> w' = w2"
      by (auto simp: reconcileSync_def Let_def split: if_splits option.splits)
    with g G_trans [OF g updatePhase_G(1) [OF w1 u]] show ?thesis by auto
  next
    case (Some x)
    with run s have "finish_with K orig b BindFailed ConditionFalse ''BindFailed'' (errText x) w1 = (r, w')"
      by (simp add: reconcileSync_def)
    from G_trans [OF g finish_with_G [OF w1 this]] show ?thesis .
  qed
qed

lemma reconcileActive_G:
  assumes w: "inv w" and b: "bind_traced U ns (A w) b" and run: "reconcileActive K b exp w = (r, w')"
  shows "G w w'"
proof -
  obtain x w1 where s: "ensureServiceAccount K b w = (x, w1)" by fastforce
  have g: "G w w1" by (rule createOrUpdateSA_G [OF w s [unfolded ensureServiceAccount_def]])
  note w1 = G_inv [OF g] and b1 = bind_traced_G [OF b g]
  show ?thesis
  proof (cases x)
    case (Inl e)
    with run s have "finish_with K b b BindFailed ConditionFalse ''ServiceAccountFailed'' (errText e) w1 = (r, w')"
      by (simp add: reconcileActive_def)
    from G_trans [OF g finish_with_G [OF w1 this]] show ?thesis .
  next
    case (Inr sa)
    have sa: "sa_of ns b sa"
      by (rule sa_of_ensured [OF b createOrUpdateSA_key [OF w]]) (use s Inr in \<open>simp add: ensureServiceAccount_def\<close>)
    show ?thesis
    proof (cases "sv_Status (st_Sv (uab_Status b)) = BindBinded")
      case True
      with run s Inr have "reconcileSync K b b sa exp w1 = (r, w')" by (simp add: reconcileActive_def)
      from G_trans [OF g reconcileSync_G [OF w1 b1 sa this]] show ?thesis .
    next
      case False
      obtain e2 b2 w2 where u: "updatePhase K b (set_ref (om_UID sa) b) BindBinding ConditionUnknown ''Syncing''
          ''Syncing RBAC bindings'' w1 = ((e2, b2), w2)" by (metis prod.exhaust)
      note g2 = G_trans [OF g updatePhase_G(1) [OF w1 u]]
      show ?thesis
      proof (cases e2)
        case None
        have n: "nsname_of (set_ref (om_UID sa) b) = nsname_of b" by (simp add: set_ref_def nsname_of_def)
        have b2: "bind_traced U ns (A w2) b2" "sa_of ns b2 sa"
          using updatePhase_G(2) [OF w1 u None] sa sa_of_cong [of b2 b] n by auto
        from False None run s Inr u have "reconcileSync K b b2 sa exp w2 = (r, w')" by (simp add: reconcileActive_def)
        from G_trans [OF g2 reconcileSync_G [OF G_inv [OF g2] b2 this]] show ?thesis .
      qed (use False run s Inr u g2 in \<open>simp add: reconcileActive_def\<close>)
    qed
  qed
qed

lemma reconcileBind_G:
  assumes w: "inv w" and b: "bind_traced U ns (A w) b" and run: "reconcileBind K L b w = (r, w')"
  shows "G w w'"
proof (cases "sv_Status (st_Sv (uab_Status b)) = BindUnset")
  case True
  obtain e b2 w2 where u: "updatePhase K b b BindPending ConditionUnknown ''Accepted''
      ''Bind accepted, pending sync'' w = ((e, b2), w2)" by (metis prod.exhaust)
  with run True have "w' = w2" by (auto simp: reconcileBind_def split: option.splits)
  with updatePhase_G(1) [OF w u] show ?thesis by simp
next
  case False
  with run show ?thesis
    using finish_with_G [OF w] reconcileExpired_G [OF w] reconcileActive_G [OF w b]
    by (auto simp: reconcileBind_def split: sum.splits if_splits)
qed

lemma Reconcile_G:
  assumes w: "inv w" and run: "Reconcile K L req w = (r, w')"
  shows "G w w'"
proof -
  obtain x w1 where g1: "k_getBind K req w = (x, w1)" by fastforce
  note g = getBind_G [OF w g1]
  show ?thesis
  proof (cases x)
    case (Inl e)
    with run g1 g show ?thesis by (simp add: Reconcile_def split: if_splits)
  next
    case (Inr b)
    have b: "bind_traced U ns (A w1) b" by (rule getBind_traced [OF w g1 [unfolded Inr]])
    obtain add fs where f: "k_addFinalizer K finalizer (om_Finalizers b) = (add, fs)" by fastforce
    obtain y w2 where u: "k_updateBind K (b\<lparr>om_Finalizers := fs\<rparr>) w1 = (y, w2)" by fastforce
    have "bind_traced U ns (A w1) (b\<lparr>om_Finalizers := fs\<rparr>)" using b by (simp add: bind_traced_def)
    note g2 = updateBind_G [OF G_inv [OF g] this u]
    have "w' = w2 \<or> reconcileDelete K b w1 = (r, w') \<or> reconcileBind K L b w1 = (r, w')"
      using run g1 Inr f u by (auto simp: Reconcile_def split: if_splits sum.splits bool.splits)
    with G_trans [OF g g2] reconcileDelete_G [OF G_inv [OF g] b] reconcileBind_G [OF G_inv [OF g] b] G_trans [OF g]
    show ?thesis by blast
  qed
qed

section \<open>The broker\<close>

text \<open>\<open>Upsert\<close> writes a resource the identity accounts for.\<close>

lemma Upsert_G:
  assumes w: "inv w" and B: "b_namespace B = ns" and i: "i \<in> A w"
    and run: "Upsert K U B i w = (r, w')"
  shows "G w w'"
proof -
  let ?name = "SanitizeName U (id_Email i)"
  let ?f = "\<lambda>cr. Inr (stamped B ?name i (k_now K w) cr)"
  obtain x where c: "k_createOrUpdateBind K (b_namespace B, ?name) ?f w = (x, w')"
    using run by (auto simp: Upsert_def Let_def split: prod.splits sum.splits)
  show ?thesis
    by (rule upsert_G [OF w _ c]) (use i B in \<open>auto simp: stamped_def nsname_of_def bind_traced_def\<close>)
qed

lemma waitLoop_G: "inv w \<Longrightarrow> waitLoop W k start poll d n fuel w = (r, w') \<Longrightarrow> G w w'"
proof (induction fuel arbitrary: n w)
  case 0
  then show ?case by (simp add: G_refl)
next
  case (Suc fuel)
  obtain x w1 where g: "wt_get W d k w = (x, w1)" by fastforce
  note g1 = wt_get_G [OF Suc.prems(1) g]
  obtain e w2 where s: "wt_select W start poll (Suc n) d w1 = (e, w2)" by fastforce
  note g2 = G_trans [OF g1 wt_select_G [OF G_inv [OF g1] s]]
  have "w' = w1 \<or> w' = w2 \<or> waitLoop W k start poll d (Suc n) fuel w2 = (r, w')"
    using Suc.prems(2) g s by (auto split: sum.splits BindPhase.splits option.splits)
  with g1 g2 G_trans [OF g2 Suc.IH [OF G_inv [OF g2]]] show ?case by blast
qed

lemma waitBinded_G: "inv w \<Longrightarrow> waitBinded K W B name w = (r, w') \<Longrightarrow> G w w'"
  by (auto simp: waitBinded_def WaitBinded_def dest: waitLoop_G split: prod.splits option.splits)

lemma Mint_G: "inv w \<Longrightarrow> Mint K M sa w = (r, w') \<Longrightarrow> G w w'"
  by (auto simp: Mint_def dest: createToken_G split: prod.splits sum.splits)

end

end
