(* ===== verification/Traced_Broker.thy ===== *)
theory Traced_Broker
  imports Traced_Api
begin

text \<open>
  The broker under the same guarantee. \<open>traced_deps\<close> says what its dependencies promise: only
  identities the provider vouched for are bound and remembered. The lemmas carry it over every
  endpoint to \<open>serve\<close>. The last section lets other participants act before each call, on the
  dependencies of the broker and on the API: the contracts survive whatever keeps the guarantee.
\<close>

section \<open>Dependencies\<close>

locale traced_deps = guarantee inv G
  for inv :: "'w \<Rightarrow> bool" and G :: "'w \<Rightarrow> 'w \<Rightarrow> bool" +
  fixes D :: "('w, 'd) deps_scheme" and L :: "'l golib_scheme" and cfg :: Config and A :: "'w \<Rightarrow> Identity set"
  assumes G_A: "G w w' \<Longrightarrow> A w \<subseteq> A w'"
    and SaveAuthRequest_G: "inv w \<Longrightarrow> s_SaveAuthRequest (d_store D) k ar ttl w = (e, w') \<Longrightarrow> G w w'"
    and TakeAuthRequest_G: "inv w \<Longrightarrow> s_TakeAuthRequest (d_store D) k w = (a, w') \<Longrightarrow> G w w'"
    and SaveCode_G: "inv w \<Longrightarrow> s_SaveCode (d_store D) k cg ttl w = (e, w') \<Longrightarrow> G w w'"
    and TakeCode_G: "inv w \<Longrightarrow> s_TakeCode (d_store D) k w = (c, w') \<Longrightarrow> G w w'"
    and SaveRefresh_G: "inv w \<Longrightarrow> identity_of g \<in> A w \<Longrightarrow> s_SaveRefresh (d_store D) k g ttl w = (e, w') \<Longrightarrow> G w w'"
    and TakeRefresh_G: "inv w \<Longrightarrow> s_TakeRefresh (d_store D) k w = (t, w') \<Longrightarrow> G w w'"
    and TakeRefresh_traced: "inv w \<Longrightarrow> s_TakeRefresh (d_store D) k w = (Inr g, w') \<Longrightarrow> identity_of g \<in> A w'"
    and Authenticate_G: "inv w \<Longrightarrow> d_Authenticate D code nonce w = (i, w') \<Longrightarrow> G w w'"
    and Authenticate_traced: "inv w \<Longrightarrow> d_Authenticate D code nonce w = (Inr ident, w') \<Longrightarrow>
      id_EmailVerified ident \<Longrightarrow> AllowedDomain L cfg (id_Domain ident) \<Longrightarrow> ident \<in> A w'"
    and Upsert_dep_G: "inv w \<Longrightarrow> ident \<in> A w \<Longrightarrow> d_Upsert D ident w = (s, w') \<Longrightarrow> G w w'"
    and WaitBinded_dep_G: "inv w \<Longrightarrow> d_WaitBinded D name w = (e, w') \<Longrightarrow> G w w'"
    and Mint_dep_G: "inv w \<Longrightarrow> d_Mint D name w = (m, w') \<Longrightarrow> G w w'"
    and Read_G: "inv w \<Longrightarrow> d_Read D w = (bs, w') \<Longrightarrow> G w w'"

section \<open>Endpoints\<close>

context traced_deps
begin

lemma A_G: "i \<in> A w \<Longrightarrow> G w w' \<Longrightarrow> i \<in> A w'"
  using G_A by blast

lemma randToken_G: "inv w \<Longrightarrow> randToken D w = (t, w') \<Longrightarrow> G w w'"
  by (auto simp: randToken_def dest: Read_G split: prod.splits)

lemma issueTokens_G:
  assumes w: "inv w" and i: "ident \<in> A w" and run: "issueTokens D cfg' ident cid nonce w = (r, w')"
  shows "G w w'"
proof -
  obtain x w1 where u: "d_Upsert D ident w = (x, w1)" by fastforce
  note g1 = Upsert_dep_G [OF w i u]
  obtain name where n: "name = (case x of Inr n \<Rightarrow> n | Inl _ \<Rightarrow> [])" by simp
  obtain e2 w2 where b: "d_WaitBinded D name w1 = (e2, w2)" by fastforce
  note g2 = G_trans [OF g1 WaitBinded_dep_G [OF G_inv [OF g1] b]]
  obtain y w3 where m: "d_Mint D name w2 = (y, w3)" by fastforce
  note g3 = G_trans [OF g2 Mint_dep_G [OF G_inv [OF g2] m]]
  obtain t w4 where r: "randToken D w3 = (t, w4)" by fastforce
  note g4 = G_trans [OF g3 randToken_G [OF G_inv [OF g3] r]]
  obtain e5 w5 where s: "s_SaveRefresh (d_store D) t (refreshGrant_of ident cid) (cfg_RefreshTokenLifetime cfg') w4 = (e5, w5)"
    by fastforce
  have "identity_of (refreshGrant_of ident cid) \<in> A w4" using A_G [OF i g4] by simp
  note g5 = G_trans [OF g4 SaveRefresh_G [OF G_inv [OF g4] this s]]
  have "w' = w1 \<or> w' = w2 \<or> w' = w3 \<or> w' = w5"
    using run u n b m r s by (auto simp: issueTokens_def split: sum.splits option.splits)
  with g1 g2 g3 g5 show ?thesis by auto
qed

lemma Authorize_G:
  assumes w: "inv w" and run: "Authorize D L' cfg' r w = (out, w')"
  shows "G w w'"
proof -
  obtain s w1 where r1: "randToken D w = (s, w1)" by fastforce
  note g1 = randToken_G [OF w r1]
  obtain n w2 where r2: "randToken D w1 = (n, w2)" by fastforce
  note g2 = G_trans [OF g1 randToken_G [OF G_inv [OF g1] r2]]
  have "w' = w \<or> (\<exists>ar e. s_SaveAuthRequest (d_store D) s ar authRequestTTL w2 = (e, w'))"
    using run r1 r2 by (auto simp: Authorize_def Let_def split: if_splits prod.splits option.splits)
  with G_refl [OF w] G_trans [OF g2 SaveAuthRequest_G [OF G_inv [OF g2]]] show ?thesis by blast
qed

lemma issueCode_G:
  assumes w: "inv w" and i: "ident \<in> A w" and run: "issueCode D L' cfg' ar ident w = (out, w')"
  shows "G w w'"
proof -
  obtain x w1 where t: "issueTokens D cfg' ident (ar_ClientID ar) (ar_Nonce ar) w = (x, w1)" by fastforce
  note g1 = issueTokens_G [OF w i t]
  obtain c w2 where r: "randToken D w1 = (c, w2)" by fastforce
  note g2 = G_trans [OF g1 randToken_G [OF G_inv [OF g1] r]]
  have "w' = w1 \<or> (\<exists>cg e. s_SaveCode (d_store D) c cg codeTTL w2 = (e, w'))"
    using run t r by (auto simp: issueCode_def split: sum.splits prod.splits option.splits)
  with g1 G_trans [OF g2 SaveCode_G [OF G_inv [OF g2]]] show ?thesis by blast
qed

lemma Callback_G:
  assumes w: "inv w" and run: "Callback D L cfg r w = (out, w')"
  shows "G w w'"
proof -
  obtain x w1 where t: "s_TakeAuthRequest (d_store D) (Get (rq_Query r) ''state'') w = (x, w1)" by fastforce
  note g1 = TakeAuthRequest_G [OF w t]
  show ?thesis
  proof (cases "\<exists>ar. x = Inr ar \<and> Get (rq_Query r) ''error'' = []")
    case False
    with run t g1 show ?thesis by (auto simp: Callback_def Let_def split: sum.splits)
  next
    case True
    then obtain ar where ar: "x = Inr ar" "Get (rq_Query r) ''error'' = []" by auto
    obtain y w2 where a: "d_Authenticate D (Get (rq_Query r) ''code'') (ar_IdPNonce ar) w1 = (y, w2)" by fastforce
    note g2 = G_trans [OF g1 Authenticate_G [OF G_inv [OF g1] a]]
    have "w' = w2 \<or> (\<exists>ident. y = Inr ident \<and> id_EmailVerified ident \<and> AllowedDomain L cfg (id_Domain ident) \<and>
        issueCode D L cfg ar ident w2 = (out, w'))"
      using run t ar a by (auto simp: Callback_def Let_def split: sum.splits if_splits)
    then show ?thesis
    proof (elim disjE exE conjE)
      fix ident
      assume i: "y = Inr ident" "id_EmailVerified ident" "AllowedDomain L cfg (id_Domain ident)"
        and c: "issueCode D L cfg ar ident w2 = (out, w')"
      have "ident \<in> A w2" by (rule Authenticate_traced [OF G_inv [OF g1] a [unfolded i(1)] i(2,3)])
      from G_trans [OF g2 issueCode_G [OF G_inv [OF g2] this c]] show ?thesis .
    qed (use g2 in simp)
  qed
qed

lemma handleRefresh_G:
  assumes w: "inv w" and run: "handleRefresh D cfg' r w = (out, w')"
  shows "G w w'"
proof -
  obtain x w1 where t: "s_TakeRefresh (d_store D) (Get (form_of r) ''refresh_token'') w = (x, w1)" by fastforce
  note g1 = TakeRefresh_G [OF w t]
  have "w' = w1 \<or> (\<exists>g y. x = Inr g \<and> issueTokens D cfg' (identity_of g) (rg_ClientID g) [] w1 = (y, w'))"
    using run t by (auto simp: handleRefresh_def split: sum.splits if_splits prod.splits)
  then show ?thesis
  proof (elim disjE exE conjE)
    fix g y
    assume x: "x = Inr g" and i: "issueTokens D cfg' (identity_of g) (rg_ClientID g) [] w1 = (y, w')"
    have "identity_of g \<in> A w1" by (rule TakeRefresh_traced [OF w t [unfolded x]])
    from G_trans [OF g1 issueTokens_G [OF G_inv [OF g1] this i]] show ?thesis .
  qed (use g1 in simp)
qed

lemma Token_handler_G: "inv w \<Longrightarrow> Token_handler D L' cfg' r w = (out, w') \<Longrightarrow> G w w'"
  by (auto simp: Token_handler_def handleAuthCode_def dest: TakeCode_G handleRefresh_G intro: G_refl
      split: sum.splits if_splits prod.splits)

lemma handle_G: "inv w \<Longrightarrow> handle D J sg L cfg rt r w = (out, w') \<Longrightarrow> G w w'"
  by (cases rt) (auto dest: Authorize_G Callback_G Token_handler_G intro: G_refl)

lemma serve_G: "inv w \<Longrightarrow> serve st D J sg L cfg r w = (out, lg, w') \<Longrightarrow> G w w'"
  by (auto simp: serve_def logging_def mux_ServeHTTP_def dest: handle_G intro: G_refl
      split: prod.splits mux_result.splits)

end

section \<open>Interference\<close>

text \<open>\<open>adv\<close> is what the others do before the call.\<close>

definition interfered :: "('w \<Rightarrow> 'w) \<Rightarrow> ('w, 'a) kube_scheme \<Rightarrow> ('w, 'a) kube_scheme" where
  "interfered adv K =
     K\<lparr>k_getBind := \<lambda>k w. k_getBind K k (adv w),
       k_updateBind := \<lambda>b w. k_updateBind K b (adv w),
       k_patchStatus := \<lambda>orig new w. k_patchStatus K orig new (adv w),
       k_createOrUpdateBind := \<lambda>k f w. k_createOrUpdateBind K k f (adv w),
       k_createOrUpdateSA := \<lambda>k f w. k_createOrUpdateSA K k f (adv w),
       k_listClusterRoles := \<lambda>w. k_listClusterRoles K (adv w),
       k_listRoles := \<lambda>w. k_listRoles K (adv w),
       k_createCRB := \<lambda>b w. k_createCRB K b (adv w),
       k_listCRBs := \<lambda>l v w. k_listCRBs K l v (adv w),
       k_deleteCRB := \<lambda>b w. k_deleteCRB K b (adv w),
       k_createRB := \<lambda>b w. k_createRB K b (adv w),
       k_listRBs := \<lambda>l v w. k_listRBs K l v (adv w),
       k_deleteRB := \<lambda>b w. k_deleteRB K b (adv w),
       k_createToken := \<lambda>k a s w. k_createToken K k a s (adv w)\<rparr>"

lemma interfered_id [simp]: "interfered (\<lambda>w. w) K = K"
  by (simp add: interfered_def)

definition interfered_waiter :: "('w \<Rightarrow> 'w) \<Rightarrow> ('w, 'c) waiter_scheme \<Rightarrow> ('w, 'c) waiter_scheme" where
  "interfered_waiter adv W =
     W\<lparr>wt_get := \<lambda>d k w. wt_get W d k (adv w),
       wt_select := \<lambda>start poll i d w. wt_select W start poll i d (adv w)\<rparr>"

definition interfered_store :: "('w \<Rightarrow> 'w) \<Rightarrow> 'w Store \<Rightarrow> 'w Store" where
  "interfered_store adv S =
     \<lparr>s_SaveAuthRequest = \<lambda>k v ttl w. s_SaveAuthRequest S k v ttl (adv w),
      s_TakeAuthRequest = \<lambda>k w. s_TakeAuthRequest S k (adv w),
      s_SaveCode = \<lambda>k v ttl w. s_SaveCode S k v ttl (adv w), s_TakeCode = \<lambda>k w. s_TakeCode S k (adv w),
      s_SaveRefresh = \<lambda>k v ttl w. s_SaveRefresh S k v ttl (adv w), s_TakeRefresh = \<lambda>k w. s_TakeRefresh S k (adv w)\<rparr>"

definition interfered_deps :: "('w \<Rightarrow> 'w) \<Rightarrow> ('w, 'd) deps_scheme \<Rightarrow> ('w, 'd) deps_scheme" where
  "interfered_deps adv D =
     D\<lparr>d_store := interfered_store adv (d_store D),
       d_Authenticate := \<lambda>code nonce w. d_Authenticate D code nonce (adv w)\<rparr>"

context traced_api
begin

lemma interfered_api:
  assumes adv: "\<And>w. inv w \<Longrightarrow> G w (adv w)"
  shows "traced_api inv G (interfered adv K) (interfered_waiter adv W) U ns A CR RO"
proof -
  note i = G_inv [OF adv] and t = G_trans [OF adv]
  have up: "G w w'" if w: "inv w" and c: "k_createOrUpdateBind K k f (adv w) = (x, w')"
    and f: "\<And>b b'. f b = Inr b' \<Longrightarrow> nsname_of b = k \<Longrightarrow> nsname_of b' = k \<and> bind_traced U ns (A w) b'" for w k f x w'
  proof (rule t [OF w upsert_G [OF i [OF w] _ c]])
    fix b b'
    assume "f b = Inr b'" "nsname_of b = k"
    from f [OF this] bind_traced_G [OF _ adv [OF w]] show "nsname_of b' = k \<and> bind_traced U ns (A (adv w)) b'" by blast
  qed
  note calls = t [OF _ getBind_G [OF i]] t [OF _ patchStatus_G [OF i]] t [OF _ createOrUpdateSA_G [OF i]]
    t [OF _ listClusterRoles_G [OF i]] t [OF _ listRoles_G [OF i]] t [OF _ listCRBs_G [OF i]] t [OF _ deleteCRB_G [OF i]]
    t [OF _ listRBs_G [OF i]] t [OF _ deleteRB_G [OF i]] t [OF _ createToken_G [OF i]] t [OF _ wt_get_G [OF i]]
    t [OF _ wt_select_G [OF i]] t [OF _ updateBind_G [OF i bind_traced_G [OF _ adv]]]
    t [OF _ createCRB_G [OF i crb_traced_G [OF _ adv]]] t [OF _ createRB_G [OF i rb_traced_G [OF _ adv]]]
  note results = getBind_traced [OF i] patchStatus_traced [OF i, THEN conjunct1] patchStatus_traced [OF i, THEN conjunct2]
    createOrUpdateSA_key [OF i] listClusterRoles_listed [OF i, THEN subsetD] listRoles_listed [OF i, THEN subsetD]
  show ?thesis
  proof (unfold_locales, goal_cases)
    case (9 w k f x w')
    then show ?case by (intro up) (auto simp: interfered_def)
  qed (auto simp: interfered_def interfered_waiter_def intro: calls results
      G_A [THEN subsetD] G_CR [THEN subsetD] G_RO [THEN subsetD])
qed

end

context traced_deps
begin

lemma interfered_deps_traced:
  assumes adv: "\<And>w. inv w \<Longrightarrow> G w (adv w)"
  shows "traced_deps inv G (interfered_deps adv D) L cfg A"
proof -
  note i = G_inv [OF adv] and t = G_trans [OF adv]
  note calls = t [OF _ SaveAuthRequest_G [OF i]] t [OF _ TakeAuthRequest_G [OF i]] t [OF _ SaveCode_G [OF i]]
    t [OF _ TakeCode_G [OF i]] t [OF _ SaveRefresh_G [OF i A_G [OF _ adv]]] t [OF _ TakeRefresh_G [OF i]]
    t [OF _ Authenticate_G [OF i]]
  note results = TakeRefresh_traced [OF i] Authenticate_traced [OF i]
  show ?thesis
    by unfold_locales (auto simp: interfered_deps_def interfered_store_def intro: calls results Upsert_dep_G
        WaitBinded_dep_G Mint_dep_G Read_G G_A [THEN subsetD])
qed

end

end
