(* ===== verification/Provenance.thy ===== *)
theory Provenance
  imports Traced_Broker
begin

text \<open>
  The operator, the broker and the cluster they share, with a history: which identities a
  provider has vouched for and which roles have existed. An \<open>event\<close> is what anyone may do in one
  step: administrators and other programs as they like, as long as a resource of the bind
  namespace, an owned binding of one of its ServiceAccounts or a refresh grant that they add is
  accounted for. The operator and the broker keep to events, even when others act between any two
  of their calls; so the invariant \<open>traced\<close> holds: access comes from logins.
\<close>

section \<open>The shared world\<close>

record 'm sys_world = memory +
  sy_cluster :: 'm
  sy_vouched :: "Identity set"
  sy_croles :: "ObjectMeta set"
  sy_roles :: "ObjectMeta set"

abbreviation put_sy :: "'m \<Rightarrow> ('m, 'z) sys_world_scheme \<Rightarrow> ('m, 'z) sys_world_scheme" where
  "put_sy m w \<equiv> w\<lparr>sy_cluster := m\<rparr>"

interpretation sys_lens: lens "sy_cluster :: ('m, 'z) sys_world_scheme \<Rightarrow> 'm" put_sy
  by unfold_locales simp

definition sys_kube :: "'m kube \<Rightarrow> (('m, 'z) sys_world_scheme) kube" where
  "sys_kube K = lift_kube sy_cluster put_sy K"

definition sys_waiter :: "'m waiter \<Rightarrow> (('m, 'z) sys_world_scheme) waiter" where
  "sys_waiter W = lift_waiter sy_cluster put_sy W"

text \<open>The history notes whom the provider vouches for; the program does not read it.\<close>

definition witnessed :: "(('m, 'z) sys_world_scheme) deps \<Rightarrow> (('m, 'z) sys_world_scheme) deps" where
  "witnessed D =
     D\<lparr>d_Authenticate := \<lambda>code nonce w. (case d_Authenticate D code nonce w of
          (Inr i, w') \<Rightarrow> (Inr i, w'\<lparr>sy_vouched := insert i (sy_vouched w')\<rparr>) | (Inl e, w') \<Rightarrow> (Inl e, w'))\<rparr>"

section \<open>Events and the invariant\<close>

definition admitted :: "'l golib_scheme \<Rightarrow> Config \<Rightarrow> ('m, 'z) sys_world_scheme \<Rightarrow> Identity set" where
  "admitted L cfg w = {i \<in> sy_vouched w. id_EmailVerified i \<and> AllowedDomain L cfg (id_Domain i)}"

definition event ::
  "'l golib_scheme \<Rightarrow> Config \<Rightarrow> ('m \<Rightarrow> cluster) \<Rightarrow> ('m, 'z) sys_world_scheme \<Rightarrow> ('m, 'z) sys_world_scheme \<Rightarrow> bool" where
  "event L cfg view w w' \<longleftrightarrow>
     (let ns = cfg_BindNamespace cfg; A = admitted L cfg w; cl = view (sy_cluster w); cl' = view (sy_cluster w')
      in sy_vouched w \<subseteq> sy_vouched w' \<and>
         sy_croles w' = sy_croles w \<union> set (cl_clusterroles cl') \<and> sy_roles w' = sy_roles w \<union> set (cl_roles cl') \<and>
         (\<forall>k b. cl_binds cl' k = Some b \<longrightarrow>
            (\<exists>b0. cl_binds cl k = Some b0 \<and> nsname_of b = nsname_of b0 \<and> uab_Spec b = uab_Spec b0) \<or> bind_traced L ns A b) \<and>
         (\<forall>k d. cl_crbs cl' k = Some d \<longrightarrow>
            cl_crbs cl k = Some d \<or> binding_traced L ns A (sy_croles w) clusterRoleKind d) \<and>
         (\<forall>k d. cl_rbs cl' k = Some d \<longrightarrow> cl_rbs cl k = Some d \<or> binding_traced L ns A (sy_roles w) ''Role'' d) \<and>
         (\<forall>k g t. m_refresh w' k = Some (g, t) \<longrightarrow> m_refresh w k = Some (g, t) \<or> identity_of g \<in> A))"

definition cluster_traced ::
  "'u unicode_scheme \<Rightarrow> string \<Rightarrow> Identity set \<Rightarrow> ObjectMeta set \<Rightarrow> ObjectMeta set \<Rightarrow> cluster \<Rightarrow> bool" where
  "cluster_traced U ns A CR RO cl \<longleftrightarrow>
     (\<forall>k b. cl_binds cl k = Some b \<longrightarrow> bind_traced U ns A b) \<and>
     (\<forall>k b. cl_crbs cl k = Some b \<longrightarrow> binding_traced U ns A CR clusterRoleKind b) \<and>
     (\<forall>k b. cl_rbs cl k = Some b \<longrightarrow> binding_traced U ns A RO ''Role'' b) \<and>
     set (cl_clusterroles cl) \<subseteq> CR \<and> set (cl_roles cl) \<subseteq> RO"

definition traced :: "'l golib_scheme \<Rightarrow> Config \<Rightarrow> ('m \<Rightarrow> cluster) \<Rightarrow> ('m, 'z) sys_world_scheme \<Rightarrow> bool" where
  "traced L cfg view w \<longleftrightarrow>
     cluster_traced L (cfg_BindNamespace cfg) (admitted L cfg w) (sy_croles w) (sy_roles w) (view (sy_cluster w)) \<and>
     (\<forall>k g t. m_refresh w k = Some (g, t) \<longrightarrow> identity_of g \<in> admitted L cfg w)"

text \<open>Any number of events, from a world that satisfies the invariant.\<close>

definition evolves ::
  "'l golib_scheme \<Rightarrow> Config \<Rightarrow> ('m \<Rightarrow> cluster) \<Rightarrow> ('m, 'z) sys_world_scheme \<Rightarrow> ('m, 'z) sys_world_scheme \<Rightarrow> bool" where
  "evolves L cfg view w w' \<longleftrightarrow> traced L cfg view w \<and> (event L cfg view)\<^sup>*\<^sup>* w w'"

lemma cluster_tracedD:
  assumes "cluster_traced U ns A CR RO cl"
  shows "cl_binds cl k = Some b \<Longrightarrow> bind_traced U ns A b"
    and "cl_crbs cl n = Some d \<Longrightarrow> binding_traced U ns A CR clusterRoleKind d"
    and "cl_rbs cl k = Some d \<Longrightarrow> binding_traced U ns A RO ''Role'' d"
  using assms unfolding cluster_traced_def by blast+

lemma event_history:
  assumes "event L cfg view w w'"
  shows "admitted L cfg w \<subseteq> admitted L cfg w'" and "sy_croles w \<subseteq> sy_croles w'" and "sy_roles w \<subseteq> sy_roles w'"
    and "set (cl_clusterroles (view (sy_cluster w'))) \<subseteq> sy_croles w'" and "set (cl_roles (view (sy_cluster w'))) \<subseteq> sy_roles w'"
  using assms by (auto simp: event_def admitted_def Let_def)

lemma event_traced:
  assumes t: "traced L cfg view w" and e: "event L cfg view w w'"
  shows "traced L cfg view w'"
proof -
  let ?ns = "cfg_BindNamespace cfg" and ?cl = "view (sy_cluster w)" and ?cl' = "view (sy_cluster w')"
  note mono = event_history [OF e]
  have c: "cluster_traced L ?ns (admitted L cfg w) (sy_croles w) (sy_roles w) ?cl"
    and g: "\<And>k g t. m_refresh w k = Some (g, t) \<Longrightarrow> identity_of g \<in> admitted L cfg w"
    using t by (auto simp: traced_def)
  note e' = e [unfolded event_def Let_def]
  have "bind_traced L ?ns (admitted L cfg w') b" if "cl_binds ?cl' k = Some b" for k b
  proof -
    from e' that consider b0 where "cl_binds ?cl k = Some b0" "nsname_of b = nsname_of b0" "uab_Spec b = uab_Spec b0"
      | "bind_traced L ?ns (admitted L cfg w) b" by blast
    then have "bind_traced L ?ns (admitted L cfg w) b"
      by cases (blast intro: bind_traced_cong cluster_tracedD(1) [OF c])+
    then show ?thesis by (rule bind_traced_mono [OF _ mono(1)])
  qed
  moreover have "binding_traced L ?ns (admitted L cfg w') (sy_croles w') clusterRoleKind d" if "cl_crbs ?cl' k = Some d" for k d
  proof -
    have "binding_traced L ?ns (admitted L cfg w) (sy_croles w) clusterRoleKind d"
      using e' that c unfolding cluster_traced_def by blast
    then show ?thesis by (rule binding_traced_mono [OF _ mono(1,2)])
  qed
  moreover have "binding_traced L ?ns (admitted L cfg w') (sy_roles w') ''Role'' d" if "cl_rbs ?cl' k = Some d" for k d
  proof -
    have "binding_traced L ?ns (admitted L cfg w) (sy_roles w) ''Role'' d"
      using e' that c unfolding cluster_traced_def by blast
    then show ?thesis by (rule binding_traced_mono [OF _ mono(1,3)])
  qed
  moreover have "identity_of g \<in> admitted L cfg w'" if "m_refresh w' k = Some (g, t)" for k g t
    using e' that g mono(1) by blast
  ultimately show ?thesis using mono(4,5) by (auto simp: traced_def cluster_traced_def)
qed

lemma events_history:
  assumes "(event L cfg view)\<^sup>*\<^sup>* w w'"
  shows "admitted L cfg w \<subseteq> admitted L cfg w' \<and> sy_croles w \<subseteq> sy_croles w' \<and> sy_roles w \<subseteq> sy_roles w'"
  using assms
proof (induction rule: rtranclp_induct)
  case (step y z)
  with event_history(1,2,3) [OF step.hyps(2)] show ?case by auto
qed simp

lemma events_traced: "(event L cfg view)\<^sup>*\<^sup>* w w' \<Longrightarrow> traced L cfg view w \<Longrightarrow> traced L cfg view w'"
  by (induction rule: rtranclp_induct) (auto intro: event_traced)

interpretation sys: guarantee "traced L cfg view" "evolves L cfg view" for L cfg view
  by unfold_locales (auto simp: evolves_def intro: events_traced)

lemma evolves_history:
  assumes "evolves L cfg view w w'"
  shows "admitted L cfg w \<subseteq> admitted L cfg w'" and "sy_croles w \<subseteq> sy_croles w'" and "sy_roles w \<subseteq> sy_roles w'"
  using events_history [of L cfg view w w'] assms by (auto simp: evolves_def)

text \<open>A step that changes the cluster only, and keeps it traced.\<close>

lemma cluster_step:
  assumes "traced L cfg view w" and "w' = put_sy (sy_cluster w') w"
    and "cluster_traced L (cfg_BindNamespace cfg) (admitted L cfg w) (sy_croles w) (sy_roles w) (view (sy_cluster w'))"
  shows "evolves L cfg view w w'"
proof -
  have "sy_vouched w' = sy_vouched w" "sy_croles w' = sy_croles w" "sy_roles w' = sy_roles w" "m_refresh w' = m_refresh w"
    by (subst assms(2), simp)+
  then have "event L cfg view w w'" using assms(3) by (auto simp: event_def cluster_traced_def Let_def)
  with assms(1) show ?thesis by (auto simp: evolves_def)
qed

lemma same_view_step:
  assumes "traced L cfg view w" and "w' = put_sy (sy_cluster w') w" and "view (sy_cluster w') = view (sy_cluster w)"
  shows "evolves L cfg view w w'"
  using assms by (intro cluster_step) (simp_all add: traced_def)

lemma cluster_traced_put_bind:
  assumes "cluster_traced U ns A CR RO cl" and "\<And>b. v = Some b \<Longrightarrow> bind_traced U ns A b"
  shows "cluster_traced U ns A CR RO (put_bind k v cl)"
  using assms by (auto simp: cluster_traced_def)

lemma cluster_traced_put_sa [simp]: "cluster_traced U ns A CR RO (put_sa k v cl) = cluster_traced U ns A CR RO cl"
  by (simp add: cluster_traced_def)

lemma cluster_traced_crbs:
  assumes "cluster_traced U ns A CR RO cl" and "cl'\<lparr>cl_crbs := Map.empty\<rparr> = cl\<lparr>cl_crbs := Map.empty\<rparr>"
    and "\<And>k d. cl_crbs cl' k = Some d \<Longrightarrow> binding_traced U ns A CR clusterRoleKind d"
  shows "cluster_traced U ns A CR RO cl'"
proof -
  have "cl_binds cl' = cl_binds cl" "cl_rbs cl' = cl_rbs cl" "cl_clusterroles cl' = cl_clusterroles cl" "cl_roles cl' = cl_roles cl"
    using arg_cong [OF assms(2), of cl_binds] arg_cong [OF assms(2), of cl_rbs] arg_cong [OF assms(2), of cl_clusterroles]
      arg_cong [OF assms(2), of cl_roles] by simp_all
  with assms(1,3) show ?thesis by (simp add: cluster_traced_def)
qed

lemma cluster_traced_rbs:
  assumes "cluster_traced U ns A CR RO cl" and "cl'\<lparr>cl_rbs := Map.empty\<rparr> = cl\<lparr>cl_rbs := Map.empty\<rparr>"
    and "\<And>k d. cl_rbs cl' k = Some d \<Longrightarrow> binding_traced U ns A RO ''Role'' d"
  shows "cluster_traced U ns A CR RO cl'"
proof -
  have "cl_binds cl' = cl_binds cl" "cl_crbs cl' = cl_crbs cl" "cl_clusterroles cl' = cl_clusterroles cl" "cl_roles cl' = cl_roles cl"
    using arg_cong [OF assms(2), of cl_binds] arg_cong [OF assms(2), of cl_crbs] arg_cong [OF assms(2), of cl_clusterroles]
      arg_cong [OF assms(2), of cl_roles] by simp_all
  with assms(1,3) show ?thesis by (simp add: cluster_traced_def)
qed

section \<open>The cluster keeps the guarantee\<close>

lemma uab_Spec_updated [simp]: "uab_Spec (updated cur b) = uab_Spec b"
  by (simp add: updated_def)

text \<open>
  The contracts of \<open>Kube_Api\<close> and \<open>Binder\<close> together, and that waiting and minting change nothing
  of what the cluster shows.
\<close>

locale cluster_api = operator_api K view + bind_client K W view
  for K :: "'m kube" and W :: "'m waiter" and view :: "'m \<Rightarrow> cluster" +
  assumes select_view: "wt_select W start poll n d w = (r, w') \<Longrightarrow> view w' = view w"
    and token_view: "k_createToken K k auds secs w = (t, w') \<Longrightarrow> view w' = view w"

interpretation mem_cluster: cluster_api "mem_api False" mem_waiter mem_view
  by unfold_locales (auto simp: mem_waiter_def mem_api_def call_def faulty_def mem_createToken_def Let_def
      mem_view_def split: if_splits option.splits)

context cluster_api
begin

lemma updateBind_keeps:
  assumes "cluster_traced U ns A CR RO (view w)" and "bind_traced U ns A b" and "k_updateBind K b w = (r, w')"
  shows "cluster_traced U ns A CR RO (view w')"
proof -
  have t: "bind_traced U ns A x" if "cl_binds (view w) (nsname_of b) = Some cur" "stored (updated cur b) = Some x" for cur x
  proof -
    have "x = updated cur b" using that(2) by (rule stored_Some)
    then show ?thesis using bind_key [OF that(1)] by (intro bind_traced_cong [OF assms(2)]) simp_all
  qed
  show ?thesis
    using assms(1,3) updateBind_ok [of b w _ w'] updateBind_err [of b w _ w'] t
    by (cases r) (auto intro!: cluster_traced_put_bind)
qed

lemma patchStatus_keeps:
  assumes c: "cluster_traced U ns A CR RO (view w)" and run: "k_patchStatus K orig new w = (r, w')"
  shows "cluster_traced U ns A CR RO (view w')"
    and "r = Inr b \<Longrightarrow> bind_traced U ns A b \<and> nsname_of b = nsname_of new"
proof -
  have t: "bind_traced U ns A (patched orig new cur)" if "cl_binds (view w) (nsname_of new) = Some cur" for cur
    by (rule bind_traced_cong [OF cluster_tracedD(1) [OF c that]]) simp_all
  show "cluster_traced U ns A CR RO (view w')"
    using c run patchStatus_ok [of orig new w _ w'] patchStatus_err [of orig new w _ w'] t
    by (cases r) (auto intro!: cluster_traced_put_bind)
  show "bind_traced U ns A b \<and> nsname_of b = nsname_of new" if "r = Inr b"
    using run that patchStatus_ok [of orig new w b w'] t bind_key [of w "nsname_of new"] by auto
qed

lemma upsert_keeps:
  assumes c: "cluster_traced U ns A CR RO (view w)"
    and f: "\<And>b b'. f b = Inr b' \<Longrightarrow> nsname_of b = k \<Longrightarrow> nsname_of b' = k \<and> bind_traced U ns A b'"
    and run: "k_createOrUpdateBind K k f w = (r, w')"
  shows "cluster_traced U ns A CR RO (view w')"
proof -
  have "cluster_traced U ns A CR RO (view w')" if u: "upserted k f (view w) x (view w')" for x
  proof (cases "cl_binds (view w) k")
    case None
    with u obtain b where b: "f (new_bind (fst k) (snd k)) = Inr b" "uab_Spec x = uab_Spec b"
      and v: "view w' = put_bind k (Some x) (view w)" by (auto simp: upserted_def)
    have n: "nsname_of x = k" using bind_key [of w' k x] v by simp
    have "nsname_of b = k \<and> bind_traced U ns A b" by (rule f [OF b(1)]) (simp add: nsname_of_def)
    with n b(2) have "bind_traced U ns A x" by (auto intro: bind_traced_cong)
    then show ?thesis unfolding v by (intro cluster_traced_put_bind [OF c]) simp
  next
    case (Some cur)
    with u obtain b where b: "f cur = Inr b" "x = updated cur b"
      and v: "view w' = put_bind k (stored x) (view w)" by (auto simp: upserted_def)
    have "bind_traced U ns A x"
      using f [OF b(1) bind_key [OF Some]] bind_key [OF Some] b(2) by (auto intro: bind_traced_cong)
    then show ?thesis unfolding v by (intro cluster_traced_put_bind [OF c]) (auto dest: stored_Some)
  qed
  with c run upsert_ok [of k f w _ w'] upsert_err [of k f w _ w'] show ?thesis by (cases r) auto
qed

lemma sa_keeps: "cluster_traced U ns A CR RO (view w) \<Longrightarrow> k_createOrUpdateSA K k g w = (r, w') \<Longrightarrow>
    cluster_traced U ns A CR RO (view w')"
  using createOrUpdateSA_ok [of k g w _ w'] createOrUpdateSA_err [of k g w _ w'] by (cases r) auto

lemma crb_keeps:
  assumes c: "cluster_traced U ns A CR RO (view w)"
  shows "binding_traced U ns A CR clusterRoleKind d \<Longrightarrow> k_createCRB K d w = (e, w') \<Longrightarrow> cluster_traced U ns A CR RO (view w')"
    and "k_deleteCRB K d w = (e, w') \<Longrightarrow> cluster_traced U ns A CR RO (view w')"
    and "k_listCRBs K l v w = (x, w') \<Longrightarrow> cluster_traced U ns A CR RO (view w')"
proof -
  show "cluster_traced U ns A CR RO (view w')"
    if "binding_traced U ns A CR clusterRoleKind d" and r: "k_createCRB K d w = (e, w')"
    using that crb.create_origin [OF r] cluster_tracedD(2) [OF c] same_binding_traced
    by (intro cluster_traced_crbs [OF c crb.create_grown [OF r, THEN conjunct1]]) blast
  show "cluster_traced U ns A CR RO (view w')" if r: "k_deleteCRB K d w = (e, w')"
    using cluster_tracedD(2) [OF c] crb.delete_origin(2) [OF r] by (intro cluster_traced_crbs [OF c crb.delete_origin(1) [OF r]]) blast
  show "cluster_traced U ns A CR RO (view w')" if r: "k_listCRBs K l v w = (x, w')"
    using cluster_tracedD(2) [OF c] crb.list_same [OF r] by (intro cluster_traced_crbs [OF c]) auto
qed

lemma rb_keeps:
  assumes c: "cluster_traced U ns A CR RO (view w)"
  shows "binding_traced U ns A RO ''Role'' d \<Longrightarrow> k_createRB K d w = (e, w') \<Longrightarrow> cluster_traced U ns A CR RO (view w')"
    and "k_deleteRB K d w = (e, w') \<Longrightarrow> cluster_traced U ns A CR RO (view w')"
    and "k_listRBs K l v w = (x, w') \<Longrightarrow> cluster_traced U ns A CR RO (view w')"
proof -
  show "cluster_traced U ns A CR RO (view w')"
    if "binding_traced U ns A RO ''Role'' d" and r: "k_createRB K d w = (e, w')"
    using that rb.create_origin [OF r] cluster_tracedD(3) [OF c] same_binding_traced
    by (intro cluster_traced_rbs [OF c rb.create_grown [OF r, THEN conjunct1]]) blast
  show "cluster_traced U ns A CR RO (view w')" if r: "k_deleteRB K d w = (e, w')"
    using cluster_tracedD(3) [OF c] rb.delete_origin(2) [OF r] by (intro cluster_traced_rbs [OF c rb.delete_origin(1) [OF r]]) blast
  show "cluster_traced U ns A CR RO (view w')" if r: "k_listRBs K l v w = (x, w')"
    using cluster_tracedD(3) [OF c] rb.list_same [OF r] by (intro cluster_traced_rbs [OF c]) auto
qed

lemma sys_step:
  assumes "traced L cfg view w" and "through sy_cluster put_sy f w = (x, w')"
    and "\<And>m. f (sy_cluster w) = (x, m) \<Longrightarrow>
      cluster_traced L (cfg_BindNamespace cfg) (admitted L cfg w) (sy_croles w) (sy_roles w) (view m)"
  shows "evolves L cfg view w w'"
  using sys_lens.throughD [OF assms(2)] assms(3) by (intro cluster_step [OF assms(1)]) auto

lemma sys_same:
  assumes "traced L cfg view w" and "through sy_cluster put_sy f w = (x, w')"
    and "\<And>m. f (sy_cluster w) = (x, m) \<Longrightarrow> view m = view (sy_cluster w)"
  shows "evolves L cfg view w w'"
  using sys_lens.throughD [OF assms(2)] assms(3) by (intro same_view_step [OF assms(1)]) auto

lemma sys_kube_sel [simp]:
  "k_getBind (sys_kube K) k = through sy_cluster put_sy (k_getBind K k)"
  "k_updateBind (sys_kube K) b = through sy_cluster put_sy (k_updateBind K b)"
  "k_patchStatus (sys_kube K) b b' = through sy_cluster put_sy (k_patchStatus K b b')"
  "k_createOrUpdateBind (sys_kube K) k f = through sy_cluster put_sy (k_createOrUpdateBind K k f)"
  "k_createOrUpdateSA (sys_kube K) k g = through sy_cluster put_sy (k_createOrUpdateSA K k g)"
  "k_createCRB (sys_kube K) d = through sy_cluster put_sy (k_createCRB K d)"
  "k_listCRBs (sys_kube K) l v = through sy_cluster put_sy (k_listCRBs K l v)"
  "k_deleteCRB (sys_kube K) d = through sy_cluster put_sy (k_deleteCRB K d)"
  "k_createRB (sys_kube K) d = through sy_cluster put_sy (k_createRB K d)"
  "k_listRBs (sys_kube K) l v = through sy_cluster put_sy (k_listRBs K l v)"
  "k_deleteRB (sys_kube K) d = through sy_cluster put_sy (k_deleteRB K d)"
  "k_createToken (sys_kube K) k auds secs = through sy_cluster put_sy (k_createToken K k auds secs)"
  "k_listClusterRoles (sys_kube K) = through sy_cluster put_sy (k_listClusterRoles K)"
  "k_listRoles (sys_kube K) = through sy_cluster put_sy (k_listRoles K)"
  "wt_get (sys_waiter W) d' k = through sy_cluster put_sy (wt_get W d' k)"
  "wt_select (sys_waiter W) start poll n d' = through sy_cluster put_sy (wt_select W start poll n d')"
  by (simp_all add: sys_kube_def lift_kube_def sys_waiter_def lift_waiter_def)

lemma sys_lists:
  assumes t: "traced L cfg view w"
  shows "k_listClusterRoles (sys_kube K) w = (rs, w') \<Longrightarrow> evolves L cfg view w w'"
    and "k_listRoles (sys_kube K) w = (rs, w') \<Longrightarrow> evolves L cfg view w w'"
    and "k_listClusterRoles (sys_kube K) w = (Inr xs, w') \<Longrightarrow> set xs \<subseteq> sy_croles w'"
    and "k_listRoles (sys_kube K) w = (Inr xs, w') \<Longrightarrow> set xs \<subseteq> sy_roles w'"
proof -
  show g: "k_listClusterRoles (sys_kube K) w = (rs, w') \<Longrightarrow> evolves L cfg view w w'"
    and h: "k_listRoles (sys_kube K) w = (rs, w') \<Longrightarrow> evolves L cfg view w w'" for rs
    unfolding sys_kube_sel by (erule sys_same [OF t], erule listClusterRoles_view listRoles_view)+
  show "set xs \<subseteq> sy_croles w'" if c: "k_listClusterRoles (sys_kube K) w = (Inr xs, w')"
    using t evolves_history(2) [OF g [OF c]] sys_lens.throughD [OF c [unfolded sys_kube_sel]] listClusterRoles_ok
    by (fastforce simp: traced_def cluster_traced_def)
  show "set xs \<subseteq> sy_roles w'" if c: "k_listRoles (sys_kube K) w = (Inr xs, w')"
    using t evolves_history(3) [OF h [OF c]] sys_lens.throughD [OF c [unfolded sys_kube_sel]] listRoles_ok
    by (fastforce simp: traced_def cluster_traced_def)
qed

lemma sys_getBind:
  assumes t: "traced L cfg view w" and run: "k_getBind (sys_kube K) k w = (r, w')"
  shows "evolves L cfg view w w'"
    and "r = Inr b \<Longrightarrow> bind_traced L (cfg_BindNamespace cfg) (admitted L cfg w') b"
proof -
  have c: "k_getBind K k (sy_cluster w) = (r, sy_cluster w')"
    using run sys_lens.throughD [of "k_getBind K k" w r w'] by simp
  show g: "evolves L cfg view w w'" using run getBind_view by (intro sys_same [OF t, of "k_getBind K k" r]) simp_all
  show "bind_traced L (cfg_BindNamespace cfg) (admitted L cfg w') b" if "r = Inr b"
  proof -
    have "cl_binds (view (sy_cluster w)) k = Some b" using getBind_ok c that by blast
    with t have "bind_traced L (cfg_BindNamespace cfg) (admitted L cfg w) b"
      unfolding traced_def by (blast dest: cluster_tracedD(1))
    then show ?thesis by (rule bind_traced_mono [OF _ evolves_history(1) [OF g]])
  qed
qed

lemma sys_patchStatus:
  assumes t: "traced L cfg view w" and run: "k_patchStatus (sys_kube K) orig new w = (r, w')"
  shows "evolves L cfg view w w'"
    and "r = Inr b \<Longrightarrow> bind_traced L (cfg_BindNamespace cfg) (admitted L cfg w') b \<and> nsname_of b = nsname_of new"
proof -
  have c: "k_patchStatus K orig new (sy_cluster w) = (r, sy_cluster w')"
    using run sys_lens.throughD [of "k_patchStatus K orig new" w r w'] by simp
  have ct: "cluster_traced L (cfg_BindNamespace cfg) (admitted L cfg w) (sy_croles w) (sy_roles w) (view (sy_cluster w))"
    using t by (simp add: traced_def)
  show g: "evolves L cfg view w w'"
    using run patchStatus_keeps(1) [OF ct] by (intro sys_step [OF t, of "k_patchStatus K orig new" r]) simp_all
  show "bind_traced L (cfg_BindNamespace cfg) (admitted L cfg w') b \<and> nsname_of b = nsname_of new" if "r = Inr b"
    using patchStatus_keeps(2) [OF ct c that] bind_traced_mono [OF _ evolves_history(1) [OF g]] by blast
qed

lemma sys_sa_key: "traced L cfg view w \<Longrightarrow> k_createOrUpdateSA (sys_kube K) k g w = (Inr sa, w') \<Longrightarrow> nsname_of sa = k"
  using sys_lens.throughD [of "k_createOrUpdateSA K k g" w "Inr sa" w'] createOrUpdateSA_ok [of k g "sy_cluster w" sa "sy_cluster w'"]
  by simp

lemma sys_writes:
  assumes t: "traced L cfg view w"
  shows "bind_traced L (cfg_BindNamespace cfg) (admitted L cfg w) b \<Longrightarrow> k_updateBind (sys_kube K) b w = (r, w') \<Longrightarrow>
      evolves L cfg view w w'"
    and "(\<And>b b'. f b = Inr b' \<Longrightarrow> nsname_of b = k \<Longrightarrow>
        nsname_of b' = k \<and> bind_traced L (cfg_BindNamespace cfg) (admitted L cfg w) b') \<Longrightarrow>
      k_createOrUpdateBind (sys_kube K) k f w = (r, w') \<Longrightarrow> evolves L cfg view w w'"
    and "k_createOrUpdateSA (sys_kube K) k g w = (s, w') \<Longrightarrow> evolves L cfg view w w'"
    and "binding_traced L (cfg_BindNamespace cfg) (admitted L cfg w) (sy_croles w) clusterRoleKind d \<Longrightarrow>
      k_createCRB (sys_kube K) d w = (e, w') \<Longrightarrow> evolves L cfg view w w'"
    and "k_deleteCRB (sys_kube K) d w = (e, w') \<Longrightarrow> evolves L cfg view w w'"
    and "binding_traced L (cfg_BindNamespace cfg) (admitted L cfg w) (sy_roles w) ''Role'' d \<Longrightarrow>
      k_createRB (sys_kube K) d w = (e, w') \<Longrightarrow> evolves L cfg view w w'"
    and "k_deleteRB (sys_kube K) d w = (e, w') \<Longrightarrow> evolves L cfg view w w'"
  unfolding sys_kube_sel
proof -
  note ct = t [unfolded traced_def, THEN conjunct1] and step = sys_step [OF t]
  note keeps = updateBind_keeps [OF ct] upsert_keeps [OF ct] sa_keeps [OF ct] crb_keeps(1,2) [OF ct] rb_keeps(1,2) [OF ct]
  show "through sy_cluster put_sy (k_updateBind K b) w = (r, w') \<Longrightarrow> evolves L cfg view w w'"
    if "bind_traced L (cfg_BindNamespace cfg) (admitted L cfg w) b"
    by (erule step) (rule keeps(1) [OF that])
  show "through sy_cluster put_sy (k_createOrUpdateBind K k f) w = (r, w') \<Longrightarrow> evolves L cfg view w w'"
    if "\<And>b b'. f b = Inr b' \<Longrightarrow> nsname_of b = k \<Longrightarrow>
        nsname_of b' = k \<and> bind_traced L (cfg_BindNamespace cfg) (admitted L cfg w) b'"
    by (erule step) (rule keeps(2) [OF that])
  show "through sy_cluster put_sy (k_createCRB K d) w = (e, w') \<Longrightarrow> evolves L cfg view w w'"
    if "binding_traced L (cfg_BindNamespace cfg) (admitted L cfg w) (sy_croles w) clusterRoleKind d"
    by (erule step) (rule keeps(4) [OF that])
  show "through sy_cluster put_sy (k_createRB K d) w = (e, w') \<Longrightarrow> evolves L cfg view w w'"
    if "binding_traced L (cfg_BindNamespace cfg) (admitted L cfg w) (sy_roles w) ''Role'' d"
    by (erule step) (rule keeps(6) [OF that])
  show "through sy_cluster put_sy (k_createOrUpdateSA K k g) w = (s, w') \<Longrightarrow> evolves L cfg view w w'"
    and "through sy_cluster put_sy (k_deleteCRB K d) w = (e, w') \<Longrightarrow> evolves L cfg view w w'"
    and "through sy_cluster put_sy (k_deleteRB K d) w = (e, w') \<Longrightarrow> evolves L cfg view w w'"
    by (erule step, erule keeps)+
qed

lemma sys_reads:
  assumes t: "traced L cfg view w"
  shows "k_listCRBs (sys_kube K) l v w = (bs, w') \<Longrightarrow> evolves L cfg view w w'"
    and "k_listRBs (sys_kube K) l v w = (bs, w') \<Longrightarrow> evolves L cfg view w w'"
    and "k_createToken (sys_kube K) k auds secs w = (tk, w') \<Longrightarrow> evolves L cfg view w w'"
    and "wt_get (sys_waiter W) dl k w = (r, w') \<Longrightarrow> evolves L cfg view w w'"
    and "wt_select (sys_waiter W) start poll n dl w = (e, w') \<Longrightarrow> evolves L cfg view w w'"
proof -
  note ct = t [unfolded traced_def, THEN conjunct1]
  show "k_listCRBs (sys_kube K) l v w = (bs, w') \<Longrightarrow> evolves L cfg view w w'"
    and "k_listRBs (sys_kube K) l v w = (bs, w') \<Longrightarrow> evolves L cfg view w w'"
    unfolding sys_kube_sel by (erule sys_step [OF t], erule crb_keeps(3) [OF ct] rb_keeps(3) [OF ct])+
  show "k_createToken (sys_kube K) k auds secs w = (tk, w') \<Longrightarrow> evolves L cfg view w w'"
    and "wt_get (sys_waiter W) dl k w = (r, w') \<Longrightarrow> evolves L cfg view w w'"
    and "wt_select (sys_waiter W) start poll n dl w = (e, w') \<Longrightarrow> evolves L cfg view w w'"
    unfolding sys_kube_sel by (erule sys_same [OF t], erule token_view get_view select_view)+
qed

text \<open>The shared API keeps the guarantee.\<close>

lemma sys_traced:
  "traced_api (traced L cfg view) (evolves L cfg view) (sys_kube K) (sys_waiter W) L (cfg_BindNamespace cfg)
     (admitted L cfg) sy_croles sy_roles"
proof -
  note facts = evolves_history sys_getBind(1) sys_getBind(2) [OF _ _ refl] sys_patchStatus(1) sys_patchStatus(2) [OF _ _ refl]
    sys_sa_key sys_lists
    sys_writes sys_reads
  show ?thesis by (unfold_locales; fact facts)
qed

end

section \<open>The broker keeps the guarantee\<close>

text \<open>What the identity provider and the random source leave alone.\<close>

definition apart :: "('m, 'z) sys_world_scheme \<Rightarrow> ('m, 'z) sys_world_scheme \<Rightarrow> bool" where
  "apart w w' \<longleftrightarrow> sy_cluster w' = sy_cluster w \<and> sy_vouched w' = sy_vouched w \<and> sy_croles w' = sy_croles w \<and>
     sy_roles w' = sy_roles w \<and> m_refresh w' = m_refresh w"

locale remote =
  fixes I :: "('m, 'z) sys_world_scheme idplib" and rand :: "('m, 'z) sys_world_scheme \<Rightarrow> byte list \<times> ('m, 'z) sys_world_scheme"
  assumes exchange_apart: "il_Exchange I c code w = (x, w') \<Longrightarrow> apart w w'"
    and verify_apart: "il_Verify I iss cid raw w = (y, w') \<Longrightarrow> apart w w'"
    and pages_apart: "il_Pages I dir email n w = (z, w') \<Longrightarrow> apart w w'"
    and rand_apart: "rand w = (b, w') \<Longrightarrow> apart w w'"

lemma apart_refl [simp]: "apart w w"
  by (simp add: apart_def)

lemma apart_trans: "apart w w1 \<Longrightarrow> apart w1 w2 \<Longrightarrow> apart w w2"
  by (simp add: apart_def)

context remote
begin

lemma fetchGroups_apart: "fetchGroups I p email d w = (r, w') \<Longrightarrow> apart w w'"
  by (auto simp: fetchGroups_def dest: pages_apart split: prod.splits option.splits)

lemma oidc_Authenticate_apart: "oidc_Authenticate I p code nonce w = (r, w') \<Longrightarrow> apart w w'"
  by (auto simp: oidc_Authenticate_def dest!: exchange_apart verify_apart intro: apart_trans
      split: prod.splits sum.splits option.splits json.splits)

lemma google_Authenticate_apart: "google_Authenticate I p code nonce w = (r, w') \<Longrightarrow> apart w w'"
  by (auto simp: google_Authenticate_def dest!: exchange_apart verify_apart fetchGroups_apart intro: apart_trans
      split: prod.splits sum.splits option.splits json.splits if_splits)

lemma Authenticate_apart: "Authenticate I p code nonce w = (r, w') \<Longrightarrow> apart w w'"
  by (cases p) (auto dest: oidc_Authenticate_apart google_Authenticate_apart)

end

text \<open>A step that leaves the cluster and the roles alone.\<close>

lemma store_step:
  assumes t: "traced L cfg view w" and "sy_cluster w' = sy_cluster w" "sy_croles w' = sy_croles w" "sy_roles w' = sy_roles w"
    and "sy_vouched w \<subseteq> sy_vouched w'"
    and "\<And>k g x. m_refresh w' k = Some (g, x) \<Longrightarrow> m_refresh w k = Some (g, x) \<or> identity_of g \<in> admitted L cfg w"
  shows "evolves L cfg view w w'"
proof -
  have "set (cl_clusterroles (view (sy_cluster w))) \<subseteq> sy_croles w" "set (cl_roles (view (sy_cluster w))) \<subseteq> sy_roles w"
    using t by (simp_all add: traced_def cluster_traced_def)
  then have "event L cfg view w w'" using assms(2-) by (auto simp: event_def Let_def)
  with t show ?thesis by (auto simp: evolves_def)
qed

lemma apart_step: "traced L cfg view w \<Longrightarrow> apart w w' \<Longrightarrow> evolves L cfg view w w'"
  by (rule store_step) (auto simp: apart_def)

lemma memoryStore_sel:
  "s_SaveAuthRequest memoryStore = mem_SaveAuthRequest" "s_TakeAuthRequest memoryStore = mem_TakeAuthRequest"
  "s_SaveCode memoryStore = mem_SaveCode" "s_TakeCode memoryStore = mem_TakeCode"
  "s_SaveRefresh memoryStore = mem_SaveRefresh" "s_TakeRefresh memoryStore = mem_TakeRefresh"
  by (simp_all add: memoryStore_def)

lemma sys_store:
  assumes t: "traced L cfg view w"
  shows "mem_SaveAuthRequest k ar ttl w = (e, w') \<Longrightarrow> evolves L cfg view w w'"
    and "mem_TakeAuthRequest k w = (a, w') \<Longrightarrow> evolves L cfg view w w'"
    and "mem_SaveCode k cg ttl w = (e, w') \<Longrightarrow> evolves L cfg view w w'"
    and "mem_TakeCode k w = (c, w') \<Longrightarrow> evolves L cfg view w w'"
    and "identity_of g \<in> admitted L cfg w \<Longrightarrow> mem_SaveRefresh k g ttl w = (e, w') \<Longrightarrow> evolves L cfg view w w'"
    and "mem_TakeRefresh k w = (x, w') \<Longrightarrow> evolves L cfg view w w'"
    and "mem_TakeRefresh k w = (Inr g, w') \<Longrightarrow> identity_of g \<in> admitted L cfg w'"
proof -
  show "identity_of g \<in> admitted L cfg w'" if r: "mem_TakeRefresh k w = (Inr g, w')"
  proof -
    have "\<exists>x. m_refresh w k = Some (g, x)" "admitted L cfg w' = admitted L cfg w"
      using r by (auto simp: store_defs admitted_def split: option.splits if_splits)
    with t show ?thesis unfolding traced_def by blast
  qed
qed (auto simp: store_defs split: option.splits prod.splits if_splits intro!: store_step [OF t])

lemma witnessed_Authenticate:
  assumes t: "traced L cfg view w" and run: "d_Authenticate (witnessed D) code nonce w = (r, w')"
    and a: "apart w (snd (d_Authenticate D code nonce w))"
  shows "evolves L cfg view w w'"
    and "r = Inr i \<Longrightarrow> id_EmailVerified i \<Longrightarrow> AllowedDomain L cfg (id_Domain i) \<Longrightarrow> i \<in> admitted L cfg w'"
proof -
  obtain x w1 where x: "d_Authenticate D code nonce w = (x, w1)" by fastforce
  from a run x show "evolves L cfg view w w'"
    by (intro store_step [OF t]) (auto simp: witnessed_def apart_def split: sum.splits)
  show "i \<in> admitted L cfg w'" if "r = Inr i" "id_EmailVerified i" "AllowedDomain L cfg (id_Domain i)"
    using that run x by (auto simp: witnessed_def admitted_def split: sum.splits)
qed

text \<open>The dependencies of a broker with the in-process store on the shared world.\<close>

lemma sys_deps_traced:
  assumes c: "cluster_api K W view" and r: "remote I rand" and adv: "\<And>w. traced L cfg view w \<Longrightarrow> evolves L cfg view w (adv w)"
    and D: "D = (mainDeps (interfered adv (sys_kube K)) (interfered_waiter adv (sys_waiter W)) L I rand cfg memoryStore p)
        \<lparr>d_Sign := sign\<rparr>"
  shows "traced_deps (traced L cfg view) (evolves L cfg view) (interfered_deps adv (witnessed D)) L cfg (admitted L cfg)"
proof -
  note api = traced_api.interfered_api [OF cluster_api.sys_traced [OF c] adv]
  have sel: "d_store (witnessed D) = memoryStore"
    "d_Upsert (witnessed D) = Upsert (interfered adv (sys_kube K)) L (NewBinder (cfg_BindNamespace cfg) (cfg_BindTTL cfg) waitBindedTimeout)"
    "d_WaitBinded (witnessed D) = waitBinded (interfered adv (sys_kube K)) (interfered_waiter adv (sys_waiter W))
       (NewBinder (cfg_BindNamespace cfg) (cfg_BindTTL cfg) waitBindedTimeout)"
    "d_Mint (witnessed D) = Mint (interfered adv (sys_kube K))
       (NewMinter (cfg_BindNamespace cfg) (cfg_TokenAudiences cfg) (wholeSeconds (cfg_TokenLifetime cfg)))"
    "d_Read (witnessed D) = rand" "d_Authenticate D = Authenticate I p"
    by (simp_all add: D witnessed_def mainDeps_def Let_def)
  have ns: "b_namespace (NewBinder n ttl t) = n" for n ttl t by (simp add: NewBinder_def)
  have au: "apart w (snd (d_Authenticate D code nonce w))" for code nonce w
    unfolding sel by (rule remote.Authenticate_apart [OF r, of p code nonce w "fst (Authenticate I p code nonce w)"]) simp
  have up: "evolves L cfg view w w'" if "traced L cfg view w" "i \<in> admitted L cfg w" "d_Upsert (witnessed D) i w = (s, w')" for w i s w'
    using traced_api.Upsert_G [OF api that(1) ns that(2)] that(3) unfolding sel by blast
  have wait: "evolves L cfg view w w'" if "traced L cfg view w" "d_WaitBinded (witnessed D) name w = (e, w')" for w name e w'
    using traced_api.waitBinded_G [OF api that(1)] that(2) unfolding sel by blast
  have mint: "evolves L cfg view w w'" if "traced L cfg view w" "d_Mint (witnessed D) name w = (m, w')" for w name m w'
    using traced_api.Mint_G [OF api that(1)] that(2) unfolding sel by blast
  have read: "evolves L cfg view w w'" if "traced L cfg view w" "d_Read (witnessed D) w = (bs, w')" for w bs w'
    using apart_step [OF that(1) remote.rand_apart [OF r]] that(2) unfolding sel by blast
  have auth: "evolves L cfg view w w'"
      "\<And>i. x = Inr i \<Longrightarrow> id_EmailVerified i \<Longrightarrow> AllowedDomain L cfg (id_Domain i) \<Longrightarrow> i \<in> admitted L cfg w'"
    if "traced L cfg view w" "d_Authenticate (witnessed D) code nonce w = (x, w')" for w code nonce x w'
    using witnessed_Authenticate [OF that au] by blast+
  have "traced_deps (traced L cfg view) (evolves L cfg view) (witnessed D) L cfg (admitted L cfg)"
    by unfold_locales
      (simp_all only: sel(1) memoryStore_sel sys_store up wait mint read auth evolves_history(1))
  then show ?thesis by (rule traced_deps.interfered_deps_traced) (rule adv)
qed

section \<open>The system\<close>

text \<open>
  A step of the system: an event of anybody else, a run of \<open>Reconcile\<close>, or a request served by
  a broker that \<open>runServer\<close> has assembled. \<open>adv\<close> is what the others do between the calls of a run.
\<close>

abbreviation environment :: "'l golib_scheme \<Rightarrow> Config \<Rightarrow> ('m \<Rightarrow> cluster) \<Rightarrow>
    (('m, 'z) sys_world_scheme \<Rightarrow> ('m, 'z) sys_world_scheme) \<Rightarrow> bool" where
  "environment L cfg view adv \<equiv> \<forall>w. traced L cfg view w \<longrightarrow> (event L cfg view)\<^sup>*\<^sup>* w (adv w)"

inductive sys_step ::
  "'m kube \<Rightarrow> 'm waiter \<Rightarrow> ('m \<Rightarrow> cluster) \<Rightarrow> 'l golib_scheme \<Rightarrow> ('m, 'z) sys_world_scheme idplib \<Rightarrow>
   ('k, ('m, 'z) sys_world_scheme) joselib \<Rightarrow> (redisOptions \<Rightarrow> ('m, 'z) sys_world_scheme redis) \<Rightarrow>
   (('m, 'z) sys_world_scheme \<Rightarrow> byte list \<times> ('m, 'z) sys_world_scheme) \<Rightarrow> environ \<Rightarrow> Config \<Rightarrow>
   ('m, 'z) sys_world_scheme \<Rightarrow> ('m, 'z) sys_world_scheme \<Rightarrow> bool"
  for K W view L I J NewClient rand E cfg where
  acted: "event L cfg view w w' \<Longrightarrow> sys_step K W view L I J NewClient rand E cfg w w'"
| ran: "environment L cfg view adv \<Longrightarrow> Reconcile (interfered adv (sys_kube K)) L req w = (r, w') \<Longrightarrow>
    sys_step K W view L I J NewClient rand E cfg w w'"
| served: "environment L cfg view adv \<Longrightarrow>
    runServer (Inr (interfered adv (sys_kube K), interfered_waiter adv (sys_waiter W))) L I J NewClient rand E v =
      (Inr (cfg, D, sg), v') \<Longrightarrow>
    serve st (interfered_deps adv (witnessed D)) J sg L cfg q w = (out, lg, w') \<Longrightarrow>
    sys_step K W view L I J NewClient rand E cfg w w'"

lemma environment_evolves: "environment L cfg view adv \<Longrightarrow> traced L cfg view w \<Longrightarrow> evolves L cfg view w (adv w)"
  by (simp add: evolves_def)

lemma Reconcile_evolves:
  assumes "cluster_api K W view" and "environment L cfg view adv" and "traced L cfg view w"
    and "Reconcile (interfered adv (sys_kube K)) L' req w = (r, w')"
  shows "evolves L cfg view w w'"
  by (rule traced_api.Reconcile_G [OF traced_api.interfered_api [OF cluster_api.sys_traced [OF assms(1)]
        environment_evolves [OF assms(2)]] assms(3,4)])

lemma serve_evolves:
  assumes "cluster_api K W view" and "remote I rand" and "environment L cfg view adv" and "st_Backend (cfg_Store cfg) = ''memory''"
    and run: "runServer (Inr (interfered adv (sys_kube K), interfered_waiter adv (sys_waiter W))) L I J NewClient rand E v =
      (Inr (cfg, D, sg), v')"
    and "traced L cfg view w" and "serve st (interfered_deps adv (witnessed D)) J sg L cfg q w = (out, lg, w')"
  shows "evolves L cfg view w w'"
proof -
  from run obtain s p w1 where st: "store_New NewClient (cfg_Store cfg) v = (Inr s, w1)"
    and D: "D = (mainDeps (interfered adv (sys_kube K)) (interfered_waiter adv (sys_waiter W)) L I rand cfg s p)
        \<lparr>d_Sign := jl_Sign J (sg_key sg) (sg_kid sg)\<rparr>"
    by (rule runServer_ok)
  have "s = memoryStore" using st assms(4) by (simp add: store_New_def)
  with D have "traced_deps (traced L cfg view) (evolves L cfg view) (interfered_deps adv (witnessed D)) L cfg (admitted L cfg)"
    by (intro sys_deps_traced [OF assms(1,2) environment_evolves [OF assms(3)]]) simp_all
  from traced_deps.serve_G [OF this assms(6,7)] show ?thesis .
qed

lemma sys_step_evolves:
  assumes "cluster_api K W view" and "remote I rand" and "st_Backend (cfg_Store cfg) = ''memory''"
    and "sys_step K W view L I J NewClient rand E cfg w w'" and "traced L cfg view w"
  shows "evolves L cfg view w w'"
  using assms(4)
proof cases
  case acted
  with assms(5) show ?thesis by (auto simp: evolves_def)
next
  case (ran adv req r)
  from Reconcile_evolves [OF assms(1) ran(1) assms(5) ran(2)] show ?thesis .
next
  case (served adv v D sg v' st q out lg)
  from serve_evolves [OF assms(1,2) served(1) assms(3) served(2) assms(5) served(3)] show ?thesis .
qed

lemma sys_steps_evolve:
  assumes "cluster_api K W view" and "remote I rand" and "st_Backend (cfg_Store cfg) = ''memory''"
    and "traced L cfg view w"
  shows "(sys_step K W view L I J NewClient rand E cfg)\<^sup>*\<^sup>* w w' \<Longrightarrow> evolves L cfg view w w'"
proof (induction rule: rtranclp_induct)
  case base
  show ?case using assms(4) by (rule sys.G_refl)
next
  case (step y z)
  from sys.G_trans [OF step.IH sys_step_evolves [OF assms(1-3) step.hyps(2) sys.G_inv [OF step.IH]]] show ?case .
qed

text \<open>Before the first login: no resource, owned binding or grant that the invariant speaks about.\<close>

definition pristine :: "Config \<Rightarrow> ('m \<Rightarrow> cluster) \<Rightarrow> ('m, 'z) sys_world_scheme \<Rightarrow> bool" where
  "pristine cfg view w \<longleftrightarrow>
     (\<forall>k b. cl_binds (view (sy_cluster w)) k = Some b \<longrightarrow> om_Namespace b \<noteq> cfg_BindNamespace cfg) \<and>
     (\<forall>k d. cl_crbs (view (sy_cluster w)) k = Some d \<longrightarrow> om_Labels d ownerLabel = None) \<and>
     (\<forall>k d. cl_rbs (view (sy_cluster w)) k = Some d \<longrightarrow> om_Labels d ownerLabel = None) \<and>
     set (cl_clusterroles (view (sy_cluster w))) \<subseteq> sy_croles w \<and> set (cl_roles (view (sy_cluster w))) \<subseteq> sy_roles w \<and>
     m_refresh w = Map.empty"

lemma pristine_traced: "pristine cfg view w \<Longrightarrow> traced L cfg view w"
  unfolding pristine_def traced_def cluster_traced_def by (simp add: bind_traced_def binding_traced_def)

end
