(* ===== verification/Proxy.thy ===== *)
theory Proxy
  imports Binder Store_Redis
begin

text \<open>
  The auth proxy in front of the kube-apiserver (\<open>service/internal/proxy/proxy.go\<close>): the
  bearer of a request, its exchange for the user's ServiceAccount token, and the cache of
  those tokens. The verifier of \<open>go-oidc\<close> and the minter are fields of the record \<open>Proxy\<close>.
  A request is what the handler reads and changes of it; what \<open>httputil.ReverseProxy\<close> does
  with a request it is handed is not part of the model. The cache and the clock are the state.
\<close>

section \<open>Headers\<close>

text \<open>\<open>textproto.CanonicalMIMEHeaderKey\<close>: unchanged unless every byte is a token byte.\<close>

definition upper_letter :: "char \<Rightarrow> bool" where
  "upper_letter c \<longleftrightarrow> 65 \<le> byte_val c \<and> byte_val c \<le> 90"

definition lower_letter :: "char \<Rightarrow> bool" where
  "lower_letter c \<longleftrightarrow> 97 \<le> byte_val c \<and> byte_val c \<le> 122"

definition validHeaderFieldByte :: "char \<Rightarrow> bool" where
  "validHeaderFieldByte c \<longleftrightarrow> upper_letter c \<or> lower_letter c \<or> digit c \<or> c \<in> set ''!#$%&*+-.^_`|~'' \<or> byte_val c = 39"

definition toUpper_byte :: "char \<Rightarrow> char" where
  "toUpper_byte c = (if lower_letter c then char_of (byte_val c - 32) else c)"

definition toLower_byte :: "char \<Rightarrow> char" where
  "toLower_byte c = (if upper_letter c then char_of (byte_val c + 32) else c)"

fun canonicalize :: "bool \<Rightarrow> string \<Rightarrow> string" where
  "canonicalize upper [] = []"
| "canonicalize upper (c # cs) =
     (if upper then toUpper_byte c else toLower_byte c) # canonicalize (c = CHR ''-'') cs"

definition CanonicalHeaderKey :: "string \<Rightarrow> string" where
  "CanonicalHeaderKey s = (if list_all validHeaderFieldByte s then canonicalize True s else s)"

text \<open>\<open>http.Header\<close>, a Go map, as an association list without repeated keys.\<close>

type_synonym header = "(string \<times> string list) list"

definition header_Get :: "header \<Rightarrow> string \<Rightarrow> string" where
  "header_Get h k = (case map_of h (CanonicalHeaderKey k) of Some (v # _) \<Rightarrow> v | _ \<Rightarrow> [])"

definition header_Del :: "header \<Rightarrow> string \<Rightarrow> header" where
  "header_Del h k = filter (\<lambda>(x, _). x \<noteq> CanonicalHeaderKey k) h"

definition header_Set :: "header \<Rightarrow> string \<Rightarrow> string \<Rightarrow> header" where
  "header_Set h k v = (CanonicalHeaderKey k, [v]) # header_Del h k"

section \<open>Requests\<close>

record prequest =
  pr_Scheme :: string
  pr_URLHost :: string
  pr_Host :: string
  pr_Path :: string
  pr_Header :: header

definition bearer :: "prequest \<Rightarrow> string" where
  "bearer r =
     (let h = header_Get (pr_Header r) ''Authorization''
      in if HasPrefix h ''Bearer '' then TrimPrefix h ''Bearer '' else [])"

section \<open>The cache\<close>

record cacheEntry =
  ce_token :: string
  ce_exp :: time

record tokenCache =
  tc_now :: time
  tc_m :: "string \<rightharpoonup> cacheEntry"

text \<open>The two critical sections of \<open>token\<close>: the lookup and the store.\<close>

definition cache_hit :: "string \<Rightarrow> 'a tokenCache_scheme \<Rightarrow> string option" where
  "cache_hit sa c =
     (case tc_m c sa of Some e \<Rightarrow> if tc_now c < ce_exp e then Some (ce_token e) else None | None \<Rightarrow> None)"

definition cache_store :: "duration \<Rightarrow> string \<Rightarrow> string \<Rightarrow> 'a tokenCache_scheme \<Rightarrow> 'a tokenCache_scheme" where
  "cache_store ttl sa t c = c\<lparr>tc_m := (tc_m c)(sa \<mapsto> \<lparr>ce_token = t, ce_exp = tc_now c + ttl\<rparr>)\<rparr>"

definition newTokenCache :: "time \<Rightarrow> tokenCache" where
  "newTokenCache now = \<lparr>tc_now = now, tc_m = Map.empty\<rparr>"

definition cache_token ::
  "duration \<Rightarrow> (string \<Rightarrow> 'a tokenCache_scheme \<Rightarrow> Token res \<times> 'a tokenCache_scheme) \<Rightarrow> string \<Rightarrow>
   'a tokenCache_scheme \<Rightarrow> string res \<times> 'a tokenCache_scheme" where
  "cache_token ttl mint sa c =
     (case cache_hit sa c of
        Some t \<Rightarrow> (Inr t, c)
      | None \<Rightarrow>
        (case mint sa c of
           (Inl e, c1) \<Rightarrow> (Inl e, c1)
         | (Inr t, c1) \<Rightarrow> (Inr (tok_AccessToken t), cache_store ttl sa (tok_AccessToken t) c1)))"

section \<open>The handler\<close>

text \<open>
  An \<open>IDToken\<close> is what its \<open>Claims\<close> method gives for a map: an error, or the claims.
\<close>

record 'w Proxy =
  px_Verify :: "string \<Rightarrow> 'w \<Rightarrow> ((string \<rightharpoonup> json) res) res \<times> 'w"
  px_Mint :: "string \<Rightarrow> 'w \<Rightarrow> Token res \<times> 'w"
  px_usernameClaim :: string
  px_apiScheme :: string
  px_apiHost :: string
  px_cacheTTL :: duration

datatype proxy_outcome =
    PWrite nat string
  | PError nat string
  | PForward prequest

definition as_string :: "json option \<Rightarrow> string" where
  "as_string v = (case v of Some (JStr s) \<Rightarrow> s | _ \<Rightarrow> [])"

text \<open>
  The loop over the header's keys. Go may leave out keys that the loop has deleted; deleting
  such a key again changes nothing.
\<close>

definition impersonation :: "string \<Rightarrow> bool" where
  "impersonation h \<longleftrightarrow> HasPrefix (CanonicalHeaderKey h) ''Impersonate-''"

definition dropImpersonation :: "header \<Rightarrow> header" where
  "dropImpersonation hs =
     fold (\<lambda>h acc. if impersonation h then header_Del acc h else acc) (map fst hs) hs"

text \<open>\<open>swap\<close>: the request to go on with, or the error that was written.\<close>

definition swap ::
  "'u unicode_scheme \<Rightarrow> ('a tokenCache_scheme, 'b) Proxy_scheme \<Rightarrow> (string \<rightharpoonup> json) res \<Rightarrow> prequest \<Rightarrow>
   'a tokenCache_scheme \<Rightarrow> (proxy_outcome + prequest) \<times> 'a tokenCache_scheme" where
  "swap U P idToken r w =
     (case idToken of
        Inl _ \<Rightarrow> (Inr r, w)
      | Inr claims \<Rightarrow>
        let user = as_string (claims (px_usernameClaim P))
        in if user = [] then (Inr r, w)
           else
        (case cache_token (px_cacheTTL P) (px_Mint P) (SanitizeName U user) w of
           (Inl e, w1) \<Rightarrow> (Inl (PError 502 ''could not obtain credentials''), w1)
         | (Inr saToken, w1) \<Rightarrow>
           (Inr (r\<lparr>pr_Header := dropImpersonation
              (header_Set (pr_Header r) ''Authorization'' (''Bearer '' @ saToken))\<rparr>), w1)))"

definition director :: "('w, 'b) Proxy_scheme \<Rightarrow> prequest \<Rightarrow> prequest" where
  "director P r = r\<lparr>pr_Scheme := px_apiScheme P, pr_URLHost := px_apiHost P, pr_Host := px_apiHost P\<rparr>"

definition ServeHTTP ::
  "'u unicode_scheme \<Rightarrow> ('a tokenCache_scheme, 'b) Proxy_scheme \<Rightarrow> prequest \<Rightarrow> 'a tokenCache_scheme \<Rightarrow>
   proxy_outcome \<times> 'a tokenCache_scheme" where
  "ServeHTTP U P r w =
     (let raw = bearer r
      in if pr_Path r = ''/healthz'' \<and> raw = [] then (PWrite 200 ''ok'', w)
         else if raw = [] then (PForward (director P r), w)
         else (case px_Verify P raw w of
           (Inl e, w1) \<Rightarrow> (PForward (director P r), w1)
         | (Inr idToken, w1) \<Rightarrow>
           (case swap U P idToken r w1 of
              (Inl out, w2) \<Rightarrow> (out, w2)
            | (Inr r', w2) \<Rightarrow> (PForward (director P r'), w2))))"

end
