(* ===== verification/Proxy_Cache.thy ===== *)
theory Proxy_Cache
  imports Proxy
begin

text \<open>
  The token cache of the proxy under concurrent requests. \<open>token\<close> holds the mutex for its
  lookup and again for its store, and mints in between without it; so any number of requests
  may be between the two at once, also for one ServiceAccount. \<open>cache_step\<close> is that machine:
  a request is \<open>Asked\<close>, \<open>Minting\<close>, \<open>Minted\<close> (the answer of the API is under way) and
  \<open>Answered\<close>. The tokens minted so far, with the time of their minting, are recorded.
\<close>

section \<open>The machine\<close>

datatype phase =
    Asked string
  | Minting string
  | Minted string string time
  | Answered string string time
  | Refused_mint string

record cache_system = tokenCache +
  cs_mints :: "(string \<times> string \<times> time) set"
  cs_request :: "nat \<rightharpoonup> phase"

abbreviation set_phase_of :: "nat \<Rightarrow> phase \<Rightarrow> cache_system \<Rightarrow> cache_system" where
  "set_phase_of i p s \<equiv> s\<lparr>cs_request := (cs_request s)(i \<mapsto> p)\<rparr>"

text \<open>\<open>delay\<close> bounds the time from the minting of a token to its store in the cache.\<close>

inductive cache_step :: "duration \<Rightarrow> duration \<Rightarrow> cache_system \<Rightarrow> cache_system \<Rightarrow> bool" for ttl delay where
  ask: "cs_request s i = None \<Longrightarrow> cache_step ttl delay s (set_phase_of i (Asked sa) s)"
| hit: "cs_request s i = Some (Asked sa) \<Longrightarrow> cache_hit sa s = Some t \<Longrightarrow>
    cache_step ttl delay s (set_phase_of i (Answered sa t (tc_now s)) s)"
| miss: "cs_request s i = Some (Asked sa) \<Longrightarrow> cache_hit sa s = None \<Longrightarrow>
    cache_step ttl delay s (set_phase_of i (Minting sa) s)"
| mint: "cs_request s i = Some (Minting sa) \<Longrightarrow>
    cache_step ttl delay s (set_phase_of i (Minted sa t (tc_now s)) (s\<lparr>cs_mints := insert (sa, t, tc_now s) (cs_mints s)\<rparr>))"
| mint_error: "cs_request s i = Some (Minting sa) \<Longrightarrow> cache_step ttl delay s (set_phase_of i (Refused_mint sa) s)"
| store: "cs_request s i = Some (Minted sa t at) \<Longrightarrow> tc_now s \<le> at + delay \<Longrightarrow>
    cache_step ttl delay s (set_phase_of i (Answered sa t (tc_now s)) (cache_store ttl sa t s))"
| clock: "0 \<le> d \<Longrightarrow> cache_step ttl delay s (s\<lparr>tc_now := tc_now s + d\<rparr>)"

definition cache_start :: "time \<Rightarrow> cache_system" where
  "cache_start now = \<lparr>tc_now = now, tc_m = Map.empty, cs_mints = {}, cs_request = Map.empty\<rparr>"

section \<open>The invariant\<close>

text \<open>
  An entry holds a token that was minted for its account, and expires no later than \<open>ttl\<close>
  and the delay after the minting; an answer was minted for the account that was asked for,
  and is no older than that when it is given.
\<close>

definition entry_ok :: "duration \<Rightarrow> duration \<Rightarrow> cache_system \<Rightarrow> bool" where
  "entry_ok ttl delay s \<longleftrightarrow>
     (\<forall>sa e. tc_m s sa = Some e \<longrightarrow>
        (\<exists>at. (sa, ce_token e, at) \<in> cs_mints s \<and> at \<le> tc_now s \<and> ce_exp e \<le> at + delay + ttl))"

definition answer_ok :: "duration \<Rightarrow> duration \<Rightarrow> (string \<times> string \<times> time) set \<Rightarrow> time \<Rightarrow> phase \<Rightarrow> bool" where
  "answer_ok ttl delay mints now p \<longleftrightarrow>
     (case p of
        Minted sa t at \<Rightarrow> (sa, t, at) \<in> mints \<and> at \<le> now
      | Answered sa t when \<Rightarrow> when \<le> now \<and>
          (\<exists>at. (sa, t, at) \<in> mints \<and> at \<le> when \<and> (when \<le> at + delay \<or> when < at + delay + ttl))
      | _ \<Rightarrow> True)"

definition cache_inv :: "duration \<Rightarrow> duration \<Rightarrow> cache_system \<Rightarrow> bool" where
  "cache_inv ttl delay s \<longleftrightarrow>
     entry_ok ttl delay s \<and> (\<forall>i p. cs_request s i = Some p \<longrightarrow> answer_ok ttl delay (cs_mints s) (tc_now s) p)"

lemma answer_ok_mono:
  "answer_ok ttl delay ms now p \<Longrightarrow> ms \<subseteq> ms' \<Longrightarrow> now \<le> now' \<Longrightarrow> answer_ok ttl delay ms' now' p"
  by (auto simp: answer_ok_def split: phase.splits)

lemma entry_ok_mono:
  assumes "entry_ok ttl delay s" and "tc_m s' = tc_m s" and "cs_mints s \<subseteq> cs_mints s'" and "tc_now s \<le> tc_now s'"
  shows "entry_ok ttl delay s'"
  unfolding entry_ok_def
proof (intro allI impI)
  fix sa e
  assume "tc_m s' sa = Some e"
  with assms(1,2) obtain at where "(sa, ce_token e, at) \<in> cs_mints s" "at \<le> tc_now s" "ce_exp e \<le> at + delay + ttl"
    unfolding entry_ok_def by auto
  with assms(3,4) show "\<exists>at. (sa, ce_token e, at) \<in> cs_mints s' \<and> at \<le> tc_now s' \<and> ce_exp e \<le> at + delay + ttl"
    by (meson order_trans subsetD)
qed

lemma cache_inv_request:
  assumes "cache_inv ttl delay s" and "tc_m s' = tc_m s" and "cs_mints s \<subseteq> cs_mints s'" and "tc_now s \<le> tc_now s'"
    and "cs_request s' = (cs_request s)(i \<mapsto> p)" and "answer_ok ttl delay (cs_mints s') (tc_now s') p"
  shows "cache_inv ttl delay s'"
  using assms entry_ok_mono [of ttl delay s s'] answer_ok_mono [OF _ assms(3,4)]
  by (auto simp: cache_inv_def)

lemma cache_inv_phase:
  "cache_inv ttl delay s \<Longrightarrow> answer_ok ttl delay (cs_mints s) (tc_now s) p \<Longrightarrow> cache_inv ttl delay (set_phase_of i p s)"
  by (erule cache_inv_request [of _ _ _ _ i p]) auto

lemma cache_inv_start: "cache_inv ttl delay (cache_start now)"
  by (simp add: cache_inv_def entry_ok_def cache_start_def)

lemma cache_inv_step:
  assumes "cache_step ttl delay s s'" and "cache_inv ttl delay s"
  shows "cache_inv ttl delay s'"
  using assms
proof (induction rule: cache_step.induct)
  case (hit s i sa t)
  then obtain e where e: "tc_m s sa = Some e" "tc_now s < ce_exp e" "ce_token e = t"
    by (auto simp: cache_hit_def split: option.splits if_splits)
  with hit.prems obtain at where at: "(sa, t, at) \<in> cs_mints s" "at \<le> tc_now s" "ce_exp e \<le> at + delay + ttl"
    unfolding cache_inv_def entry_ok_def by blast
  with e have "tc_now s < at + delay + ttl" by simp
  with at have "answer_ok ttl delay (cs_mints s) (tc_now s) (Answered sa t (tc_now s))"
    unfolding answer_ok_def phase.case by blast
  with hit.prems show ?case by (rule cache_inv_phase)
next
  case (mint s i sa t)
  show ?case
    by (rule cache_inv_request [OF mint.prems, of _ i "Minted sa t (tc_now s)"]) (auto simp: answer_ok_def)
next
  case (store s i sa t at)
  then have "answer_ok ttl delay (cs_mints s) (tc_now s) (Minted sa t at)" by (simp add: cache_inv_def)
  then have m: "(sa, t, at) \<in> cs_mints s" "at \<le> tc_now s" by (simp_all add: answer_ok_def)
  let ?s = "cache_store ttl sa t s"
  have "entry_ok ttl delay ?s"
    using store m unfolding cache_inv_def entry_ok_def cache_store_def by (auto split: if_splits)
  with store.prems have "cache_inv ttl delay ?s" by (simp add: cache_inv_def cache_store_def)
  moreover have "answer_ok ttl delay (cs_mints ?s) (tc_now ?s) (Answered sa t (tc_now s))"
    using m store.hyps unfolding answer_ok_def phase.case by (auto simp: cache_store_def)
  ultimately show ?case
    by (rule cache_inv_phase)
next
  case (clock d s)
  then show ?case
    using entry_ok_mono [of ttl delay s "s\<lparr>tc_now := tc_now s + d\<rparr>"]
      answer_ok_mono [of ttl delay "cs_mints s" "tc_now s" _ "cs_mints s" "tc_now s + d"]
    by (auto simp: cache_inv_def)
qed (rule cache_inv_phase, assumption, simp add: answer_ok_def)+

lemma cache_inv_steps:
  "(cache_step ttl delay)\<^sup>*\<^sup>* s s' \<Longrightarrow> cache_inv ttl delay s \<Longrightarrow> cache_inv ttl delay s'"
  by (induction rule: rtranclp_induct) (auto intro: cache_inv_step)

section \<open>The code is a run of the machine\<close>

text \<open>
  The minter as the cache sees it: it does not touch the cache, and the clock does not go back.
\<close>

locale cache_minter =
  fixes mint :: "string \<Rightarrow> 'a tokenCache_scheme \<Rightarrow> Token res \<times> 'a tokenCache_scheme"
  assumes mint_cache: "mint sa c = (r, c') \<Longrightarrow> tc_m c' = tc_m c \<and> tc_now c \<le> tc_now c'"
begin

text \<open>Once a token is in the cache, it is the answer until the entry expires, without the minter.\<close>

lemma cached:
  assumes "cache_token ttl mint sa c = (Inr t, c1)"
  obtains e where "tc_m c1 sa = Some e" and "ce_token e = t"
    and "ce_exp e = tc_now c1 + ttl \<or> tc_m c sa = Some e \<and> c1 = c"
proof (cases "cache_hit sa c")
  case None
  with assms obtain tok c2 where "mint sa c = (Inr tok, c2)" "t = tok_AccessToken tok" "c1 = cache_store ttl sa t c2"
    by (auto simp: cache_token_def split: prod.splits sum.splits)
  then show thesis using that [of "\<lparr>ce_token = t, ce_exp = tc_now c2 + ttl\<rparr>"] by (simp add: cache_store_def)
next
  case (Some t')
  with assms have "c1 = c" "t' = t" by (auto simp: cache_token_def)
  with Some that show thesis by (auto simp: cache_hit_def split: option.splits if_splits)
qed

lemma reuse:
  assumes "cache_token ttl mint sa c = (Inr t, c1)" and "tc_m c1 sa = Some e" and "now < ce_exp e"
  shows "cache_token ttl mint' sa (c1\<lparr>tc_now := now\<rparr>) = (Inr t, c1\<lparr>tc_now := now\<rparr>)"
proof -
  obtain e' where "tc_m c1 sa = Some e'" "ce_token e' = t" using assms(1) by (rule cached)
  with assms(2,3) show ?thesis by (simp add: cache_token_def cache_hit_def)
qed

end

definition plain :: "cache_system \<Rightarrow> tokenCache" where
  "plain s = \<lparr>tc_now = tc_now s, tc_m = tc_m s\<rparr>"

lemma plain_sel [simp]: "tc_now (plain s) = tc_now s" "tc_m (plain s) = tc_m s" "cache_hit sa (plain s) = cache_hit sa s"
  by (simp_all add: plain_def cache_hit_def split: option.split)

lemma cache_hit_phase [simp]: "cache_hit sa (set_phase_of i p s) = cache_hit sa s"
  by (simp add: cache_hit_def split: option.split)

lemma cache_token_run:
  assumes "cache_minter mint" and "cache_token ttl mint sa (plain s) = (Inr t, c')"
    and "cs_request s i = None" and "tc_now c' \<le> tc_now s + delay"
  shows "\<exists>s' when. (cache_step ttl delay)\<^sup>*\<^sup>* s s' \<and> plain s' = c' \<and> cs_request s' i = Some (Answered sa t when)"
proof (cases "cache_hit sa s")
  case (Some t')
  let ?s1 = "set_phase_of i (Asked sa) s"
  let ?s2 = "set_phase_of i (Answered sa t (tc_now ?s1)) ?s1"
  have "t' = t" "c' = plain s" using assms(2) Some by (auto simp: cache_token_def)
  have "cache_step ttl delay s ?s1" using assms(3) by (rule ask)
  moreover have "cache_step ttl delay ?s1 ?s2"
    using Some \<open>t' = t\<close> by (intro hit) simp_all
  ultimately have "(cache_step ttl delay)\<^sup>*\<^sup>* s ?s2" by simp
  moreover have "plain ?s2 = c'" using \<open>c' = plain s\<close> by (simp add: plain_def)
  ultimately show ?thesis by (intro exI [of _ ?s2]) auto
next
  case None
  then obtain tok c1 where m: "mint sa (plain s) = (Inr tok, c1)" "t = tok_AccessToken tok" "c' = cache_store ttl sa t c1"
    using assms(2) by (auto simp: cache_token_def split: prod.splits sum.splits)
  have c1: "tc_m c1 = tc_m s" "tc_now s \<le> tc_now c1" using cache_minter.mint_cache [OF assms(1) m(1)] by simp_all
  let ?s1 = "set_phase_of i (Asked sa) s" and ?d = "tc_now c1 - tc_now s"
  let ?s2 = "set_phase_of i (Minting sa) ?s1"
  let ?s3 = "set_phase_of i (Minted sa t (tc_now ?s2)) (?s2\<lparr>cs_mints := insert (sa, t, tc_now ?s2) (cs_mints ?s2)\<rparr>)"
  let ?s4 = "?s3\<lparr>tc_now := tc_now ?s3 + ?d\<rparr>"
  let ?s5 = "set_phase_of i (Answered sa t (tc_now ?s4)) (cache_store ttl sa t ?s4)"
  have "cache_step ttl delay s ?s1" using assms(3) by (rule ask)
  moreover have "cache_step ttl delay ?s1 ?s2" using None by (intro miss) simp_all
  moreover have "cache_step ttl delay ?s2 ?s3" by (rule mint) simp
  moreover have "cache_step ttl delay ?s3 ?s4" using c1(2) by (intro clock) simp
  moreover have "cache_step ttl delay ?s4 ?s5"
    using assms(4) m(3) by (intro store) (simp_all add: cache_store_def)
  ultimately have "(cache_step ttl delay)\<^sup>*\<^sup>* s ?s5"
    by (meson converse_rtranclp_into_rtranclp rtranclp.rtrancl_refl)
  moreover have "plain ?s5 = c'" using c1(1) m(3) by (cases c1) (simp add: plain_def cache_store_def)
  ultimately show ?thesis by (intro exI [of _ ?s5] exI [of _ "tc_now ?s4"]) simp
qed

end
