(* ===== verification/Proxy_Main.thy ===== *)
theory Proxy_Main
  imports Proxy_Cache Config Http_Run Go_Float
begin

text \<open>
  The command that runs the proxy (\<open>service/cmd/proxy/main.go\<close>): its settings, the lifetime
  of a cache entry, and the proxy it assembles. \<open>float64(expSecs)*0.8\<close> is computed as in
  \<open>Go_Float\<close>. What the Kubernetes and TLS libraries make of the configuration is given.
\<close>

section \<open>Eight tenths in binary floating point\<close>

text \<open>The double nearest to 0.8 is this over \<open>2 ^ 52\<close>.\<close>

definition eightTenths :: nat where
  "eightTenths = 3602879701896397"

definition scaleSecs :: "int \<Rightarrow> int" where
  "scaleSecs n = sgn n * int (round53 (round53 (nat \<bar>n\<bar>) * eightTenths) div 2 ^ 52)"

lemma scaleSecs_exact:
  assumes "0 \<le> n" and "n < 2 ^ 50"
  shows "scaleSecs n = 4 * n div 5"
proof -
  obtain a where n: "n = int a" and a: "a < 2 ^ 50" using assms by (metis nonneg_int_cases of_nat_less_numeral_power_cancel_iff)
  let ?m = "a * eightTenths" and ?q = "4 * a div 5"
  have m5: "5 * ?m = a * (2 ^ 54 + 1)" by (simp add: eightTenths_def)
  have "?m < 2 ^ (53 + 49)" using a by (simp add: eightTenths_def)
  then obtain k where k: "k \<le> 49" "?m div 2 ^ k * 2 ^ k \<le> round53 ?m" "round53 ?m \<le> ?m + 2 ^ k"
    by (rule round53_bounds)
  have "?q * 2 ^ 52 \<le> round53 ?m"
  proof -
    have e: "?q * 2 ^ 52 = ?q * 2 ^ (52 - k) * 2 ^ k" using k(1) by (simp flip: power_add add: mult.assoc)
    have "?q * 2 ^ 52 \<le> ?m" by (simp add: eightTenths_def)
    then have "?q * 2 ^ (52 - k) \<le> ?m div 2 ^ k" unfolding e by (simp add: less_eq_div_iff_mult_less_eq)
    then have "?q * 2 ^ 52 \<le> ?m div 2 ^ k * 2 ^ k" unfolding e by (rule mult_le_mono1)
    with k(2) show ?thesis by (rule order_trans [rotated])
  qed
  moreover have "round53 ?m < (?q + 1) * 2 ^ 52"
  proof -
    have "(2::nat) ^ k \<le> 2 ^ 49" using k(1) by (intro power_increasing) auto
    then show ?thesis using k(3) a by (simp add: eightTenths_def)
  qed
  ultimately have "round53 ?m div 2 ^ 52 = ?q"
    by (metis div_nat_eqI mult.commute Suc_eq_plus1)
  moreover have "round53 a = a" using a by (intro round53_small) simp
  ultimately show ?thesis using n by (simp add: scaleSecs_def sgn_if zdiv_int)
qed

section \<open>Settings\<close>

record ProxySettings =
  ps_issuer :: string
  ps_clientID :: string
  ps_namespace :: string
  ps_listen :: string
  ps_usernameClaim :: string
  ps_expSecs :: int
  ps_certFile :: string
  ps_keyFile :: string
  ps_jwksURL :: string
  ps_cacheTTL :: duration
  ps_tlsEnabled :: bool

definition proxy_env :: "environ \<Rightarrow> string \<Rightarrow> string \<Rightarrow> string" where
  "proxy_env E key def = (if E key \<noteq> [] then E key else def)"

definition proxy_envInt :: "environ \<Rightarrow> string \<Rightarrow> int \<Rightarrow> int" where
  "proxy_envInt E key def = (if E key \<noteq> [] then (case Atoi (E key) of Some n \<Rightarrow> n | None \<Rightarrow> def) else def)"

definition cacheTTL :: "int \<Rightarrow> duration" where
  "cacheTTL expSecs = seconds (scaleSecs expSecs)"

definition proxySettings :: "environ \<Rightarrow> ProxySettings res" where
  "proxySettings E =
     (let issuer = E ''ISSUER''; clientID = E ''CLIENT_ID'';
          expSecs = proxy_envInt E ''TOKEN_EXPIRATION_SECONDS'' 600
      in if issuer = [] \<or> clientID = [] then Inl (Errorf ''ISSUER and CLIENT_ID are required'')
         else Inr
           \<lparr>ps_issuer = issuer, ps_clientID = clientID,
            ps_namespace = proxy_env E ''BIND_NAMESPACE'' ''kargus-system'',
            ps_listen = proxy_env E ''LISTEN_ADDR'' '':8443'',
            ps_usernameClaim = proxy_env E ''USERNAME_CLAIM'' ''email'', ps_expSecs = expSecs,
            ps_certFile = E ''TLS_CERT_FILE'', ps_keyFile = E ''TLS_KEY_FILE'',
            ps_jwksURL = proxy_env E ''JWKS_URL'' (TrimRight issuer ''/'' @ ''/jwks''),
            ps_cacheTTL = cacheTTL expSecs,
            ps_tlsEnabled = (E ''TLS_CERT_FILE'' \<noteq> [] \<and> E ''TLS_KEY_FILE'' \<noteq> [])\<rparr>)"

text \<open>
  \<open>oidc.NewVerifier\<close> is a parameter: from issuer, JWKS URL and client to the verifier. The
  proxy mints with the Kubernetes client, for the default audience.
\<close>

definition wireProxy ::
  "(string \<Rightarrow> string \<Rightarrow> string \<Rightarrow> string \<Rightarrow> 'w \<Rightarrow> ((string \<rightharpoonup> json) res) res \<times> 'w) \<Rightarrow> ('w, 'a) kube_scheme \<Rightarrow>
   string \<Rightarrow> string \<Rightarrow> ProxySettings \<Rightarrow> 'w Proxy" where
  "wireProxy NewVerifier K apiScheme apiHost s =
     \<lparr>px_Verify = NewVerifier (ps_issuer s) (ps_jwksURL s) (ps_clientID s),
      px_Mint = Mint K (NewMinter (ps_namespace s) [] (ps_expSecs s)),
      px_usernameClaim = ps_usernameClaim s, px_apiScheme = apiScheme, px_apiHost = apiHost,
      px_cacheTTL = ps_cacheTTL s\<rparr>"

text \<open>
  \<open>rest\<close> is the client, the parsed address of the apiserver and the error of its TLS
  configuration, or the error of the client's construction.
\<close>

definition runProxy ::
  "(string \<Rightarrow> string \<Rightarrow> string \<Rightarrow> string \<Rightarrow> 'w \<Rightarrow> ((string \<rightharpoonup> json) res) res \<times> 'w) \<Rightarrow>
   (('w, 'a) kube_scheme \<times> (string \<times> string) res \<times> goerror option) res \<Rightarrow> environ \<Rightarrow> (ProxySettings \<times> 'w Proxy) res" where
  "runProxy NewVerifier rest E =
     (case proxySettings E of
        Inl e \<Rightarrow> Inl e
      | Inr s \<Rightarrow>
        (case rest of
           Inl e \<Rightarrow> Inl e
         | Inr (K, Inl e, _) \<Rightarrow> Inl e
         | Inr (K, Inr _, Some e) \<Rightarrow> Inl e
         | Inr (K, Inr (apiScheme, apiHost), None) \<Rightarrow> Inr (s, wireProxy NewVerifier K apiScheme apiHost s)))"

section \<open>Serving\<close>

text \<open>No write timeout: the streams of the apiserver are long-lived.\<close>

definition proxy_server :: "ProxySettings \<Rightarrow> httpServer" where
  "proxy_server s =
     \<lparr>hs_Addr = ps_listen s, hs_ReadHeaderTimeout = 10 * Second, hs_ReadTimeout = 0, hs_WriteTimeout = 0,
      hs_IdleTimeout = 120 * Second, hs_MinTLS12 = False\<rparr>"

definition proxy_listener :: "ProxySettings \<Rightarrow> listener" where
  "proxy_listener s =
     (if ps_tlsEnabled s then ListenAndServeTLS (ps_certFile s) (ps_keyFile s) else ListenAndServe)"

fun proxy_await :: "goerror option \<Rightarrow> run_event list \<Rightarrow> goerror option option" where
  "proxy_await shutdown [] = None"
| "proxy_await shutdown (Served serr # es) =
     (if fatal serr then Some serr else proxy_await shutdown es)"
| "proxy_await shutdown (Signalled # es) = Some shutdown"

lemma proxy_await_eq: "proxy_await shutdown es = end_result shutdown es"
  by (induction shutdown es rule: proxy_await.induct) (simp_all add: end_result_def)

definition proxy_main ::
  "(ProxySettings \<times> 'p) res \<Rightarrow> goerror option \<Rightarrow> run_event list \<Rightarrow> nat option" where
  "proxy_main started shutdown es =
     (case started of
        Inl e \<Rightarrow> Some (exit_status (Some e))
      | Inr _ \<Rightarrow> map_option exit_status (proxy_await shutdown es))"

lemma proxySettings_listener:
  assumes "proxySettings E = Inr s"
  shows "proxy_listener s = (if E ''TLS_CERT_FILE'' \<noteq> [] \<and> E ''TLS_KEY_FILE'' \<noteq> []
    then ListenAndServeTLS (E ''TLS_CERT_FILE'') (E ''TLS_KEY_FILE'') else ListenAndServe)"
  using assms by (auto simp: proxySettings_def proxy_listener_def Let_def split: if_splits)

lemma cacheTTL_exact:
  assumes "0 \<le> n" and "n < 2 ^ 33"
  shows "cacheTTL n = (4 * n div 5) * Second"
proof -
  have "(4 * n div 5) * Second < 2 ^ 63" using assms(2) by simp
  then show ?thesis using assms scaleSecs_exact [of n] by (simp add: cacheTTL_def seconds_def wrap64_id)
qed

end
