(* ===== verification/Operator_Properties.thy ===== *)
theory Operator_Properties
  imports Mem_Api
begin

text \<open>
  The properties of the operator, each stated for every API that keeps the contract
  \<open>operator_api\<close> and shown on a cluster in memory: two ClusterRoles and a Role, one
  resource of a user who belongs to one of the two groups.
\<close>

section \<open>A cluster\<close>

definition ex_lib :: golib where
  "ex_lib = \<lparr>uc_lower = id, uc_fold = (=), uc_print = \<lambda>_. True, frac_ns = \<lambda>f u k. f * u div 10 ^ k,
     parse_layout = \<lambda>_. None, url_parse = \<lambda>s. Some (s, [], []), sha256 = id\<rparr>"

definition ex_role :: "string \<Rightarrow> string \<Rightarrow> string \<Rightarrow> ObjectMeta" where
  "ex_role ns n g = (object_meta ns n)\<lparr>om_Annotations := [groupAnnotation \<mapsto> g]\<rparr>"

definition ex_key :: nsname where "ex_key = (''kargus'', ''ana'')"

definition ex_bind :: "string list \<Rightarrow> BindPhase \<Rightarrow> UserAuthenticationBind" where
  "ex_bind fs ph =
     (new_bind ''kargus'' ''ana'')\<lparr>om_UID := ''u1'', om_Finalizers := fs,
        uab_Spec := \<lparr>spec_TTL = ''8h'', spec_Domain = ''acme.io'', spec_User = ''ana'',
          spec_Memberships = [\<lparr>crm_Gid = ''eng'', crm_Name = ''Eng'', crm_Domain = ''acme.io''\<rparr>]\<rparr>,
        uab_Status := empty_status\<lparr>st_Sv := (st_Sv empty_status)\<lparr>sv_Status := ph\<rparr>\<rparr>\<rparr>"

definition ex_world :: "time \<Rightarrow> bool list \<Rightarrow> UserAuthenticationBind \<Rightarrow> mem" where
  "ex_world now faults b =
     \<lparr>mw_now = now, mw_faults = faults, mw_next = 7, mw_binds = [b], mw_sas = [], mw_crbs = [], mw_rbs = [],
      mw_clusterroles = [ex_role [] ''view'' ''eng'', ex_role [] ''admin'' ''ops''],
      mw_roles = [ex_role ''team'' ''dev'' ''eng'']\<rparr>"

lemma ex_bind_sel [simp]:
  "om_UID (ex_bind fs ph) = ''u1''" "om_Finalizers (ex_bind fs ph) = fs" "phase (ex_bind fs ph) = ph"
  "om_DeletionTimestamp (ex_bind fs ph) = None" "om_Annotations (ex_bind fs ph) = Map.empty"
  "om_CreationTimestamp (ex_bind fs ph) = 0" "spec_TTL (uab_Spec (ex_bind fs ph)) = ''8h''"
  "om_Namespace (ex_bind fs ph) = ''kargus''" "spec_User (uab_Spec (ex_bind fs ph)) = ''ana''"
  "nsname_of (ex_bind fs ph) = ex_key"
  "map crm_Gid (spec_Memberships (uab_Spec (ex_bind fs ph))) = [''eng'']"
  by (simp_all add: ex_bind_def new_object_defs nsname_of_def ex_key_def)

lemma ex_duration: "ParseDuration L ''8h'' = Inr (8 * Hour)"
  by (simp add: ParseDuration_def duration_terms.simps duration_term_def number_part_def unit_part_def
      digit_def digit_val_def unit_char_def unitMap_def Let_def)

lemma ex_expiry [simp]: "bindExpiry L (ex_bind fs ph) = Inr (8 * Hour)"
  by (simp add: bindExpiry_def bindAnchor_def ex_duration TruncateSecond_def)

lemma ex_world_sel [simp]:
  "mw_binds (ex_world now fl b) = [b]" "mw_sas (ex_world now fl b) = []"
  "mw_crbs (ex_world now fl b) = []" "mw_rbs (ex_world now fl b) = []"
  "mw_clusterroles (ex_world now fl b) = [ex_role [] ''view'' ''eng'', ex_role [] ''admin'' ''ops'']"
  "mw_roles (ex_world now fl b) = [ex_role ''team'' ''dev'' ''eng'']"
  "mw_now (ex_world now fl b) = now" "k_now (mem_api f) (ex_world now fl b) = now"
  by (simp_all add: ex_world_def mem_api_def)

lemma mem_now: "k_now (mem_api f) = mw_now"
  by (simp add: mem_api_def)

lemma ex_live [simp]: "live (ex_bind [finalizer] ph)"
  by (simp add: live_def)

lemma ex_claimable [simp]: "claimable (mem_api f) (ex_bind fs ph) (mem_view (ex_world now fl b))"
  by (simp add: claimable_def current_sa_def mem_api_def mem_setControllerReference_def new_object_defs
      nsname_of_def)

lemma ex_canonical [simp]: "canonical u s (mem_view (ex_world now fl b))"
  by (simp add: canonical_def)

lemma ex_entitled_roles:
  assumes "uab_Spec b = uab_Spec (ex_bind fs ph)"
  shows "entitled b [ex_role [] ''view'' ''eng'', ex_role [] ''admin'' ''ops''] = {ex_role [] ''view'' ''eng''}"
    and "entitled b (filter valid_ns [ex_role ''team'' ''dev'' ''eng'']) = {ex_role ''team'' ''dev'' ''eng''}"
  by (auto simp: entitled_def member_of_def ex_role_def valid_ns_def object_meta_def ex_bind_def assms)

lemma ex_entitled:
  "om_Name ` entitled (ex_bind fs ph) (cl_clusterroles (mem_view (ex_world now fl b))) = {''view''}"
  "nsname_of ` entitled (ex_bind fs ph) (cl_roles (mem_view (ex_world now fl b))) = {(''team'', ''dev'')}"
  unfolding mem_view_sel ex_world_sel ex_entitled_roles [OF refl]
  by (simp_all add: ex_role_def object_meta_def nsname_of_def)

lemma granted_cluster_roleE:
  assumes "r \<in> granted_cluster_roles uid s cl"
  obtains n x where "cl_crbs cl n = Some x" and "owned_by uid x"
  using assms unfolding granted_cluster_roles_def by blast

lemma ex_binds:
  "ph \<noteq> BindUnset \<Longrightarrow> \<exists>res w' b'. Reconcile (mem_api False) ex_lib ex_key (ex_world 0 [] (ex_bind [finalizer] ph)) = (Inr res, w') \<and>
     cl_binds (mem_view w') ex_key = Some b' \<and> phase b' = BindBinded"
  by (rule mem_ok.Reconcile_binds [where b = "ex_bind [finalizer] ph" and e = "8 * Hour"]) simp_all

text \<open>The same cluster with the bindings of the resource in place.\<close>

definition ex_crb :: Binding where
  "ex_crb =
     (new_binding [] ''kargus-u1-view''
        \<lparr>rr_APIGroup = rbacAPIGroup, rr_Kind = clusterRoleKind, rr_Name = ''view''\<rparr>
        [bind_subject (ex_bind [finalizer] BindBinded)])\<lparr>om_Labels := [ownerLabel \<mapsto> ''u1'']\<rparr>"

definition ex_rb :: Binding where
  "ex_rb =
     (new_binding ''team'' ''kargus-u1-dev''
        \<lparr>rr_APIGroup = rbacAPIGroup, rr_Kind = ''Role'', rr_Name = ''dev''\<rparr>
        [bind_subject (ex_bind [finalizer] BindBinded)])\<lparr>om_Labels := [ownerLabel \<mapsto> ''u1'']\<rparr>"

definition ex_sa :: ServiceAccount where
  "ex_sa = (new_service_account ''kargus'' ''ana'')\<lparr>om_UID := ''s1'', sa_Owners := [''u1'']\<rparr>"

definition ex_bound_world :: "time \<Rightarrow> UserAuthenticationBind \<Rightarrow> mem" where
  "ex_bound_world now b =
     (ex_world now [] b)\<lparr>mw_sas := [ex_sa], mw_crbs := [ex_crb], mw_rbs := [ex_rb]\<rparr>"

lemma ex_objects [simp]:
  "om_Name ex_crb = ''kargus-u1-view''" "nsname_of ex_rb = (''team'', ''kargus-u1-dev'')"
  "owned_by u ex_crb \<longleftrightarrow> u = ''u1''" "owned_by u ex_rb \<longleftrightarrow> u = ''u1''" "valid_ns ex_rb"
  "nsname_of ex_sa = (''kargus'', ''ana'')" "om_UID ex_sa = ''s1''" "sa_Owners ex_sa = [''u1'']"
  by (auto simp: ex_crb_def ex_rb_def ex_sa_def nsname_of_def owned_by_def valid_ns_def new_object_defs)

lemma ex_bound_world_sel [simp]:
  "mw_binds (ex_bound_world now b) = [b]" "mw_sas (ex_bound_world now b) = [ex_sa]"
  "mw_crbs (ex_bound_world now b) = [ex_crb]" "mw_rbs (ex_bound_world now b) = [ex_rb]"
  "mw_clusterroles (ex_bound_world now b) = [ex_role [] ''view'' ''eng'', ex_role [] ''admin'' ''ops'']"
  "mw_roles (ex_bound_world now b) = [ex_role ''team'' ''dev'' ''eng'']"
  "mw_now (ex_bound_world now b) = now" "k_now (mem_api f) (ex_bound_world now b) = now"
  by (simp_all add: ex_bound_world_def mem_api_def ex_world_def)

lemmas mem_run = mem_api_def call_def call_err_def faulty_def mem_getBind_def mem_updateBind_def
  mem_patchStatus_def mem_listCRBs_def mem_listRBs_def mem_deleteCRB_def mem_deleteRB_def heads_def
  List.map_filter_def

lemmas reconcile_run = Reconcile_def reconcileBind_def reconcileExpired_def reconcileDelete_def
  deleteOwned_def deleteKind_def finish_with_def updatePhase_def done_or_def result_ok_def Let_def

section \<open>Access\<close>



text \<open>
  However reconciles of any resources, with any failures, interleave with what everybody
  else does in the cluster, an owned binding exists only while a resource with that UID still
  holds the finalizer and is in phase \<open>binding\<close>, \<open>binded\<close> or \<open>failed\<close>: never for a deleted
  resource, never for one that is pending or unbound.
\<close>

theorem no_dangling_access:
  assumes "operator_api K view" and "(system_step K view L)\<^sup>*\<^sup>* w w'" and "access_inv (view w)"
    and "cl_crbs (view w') n = Some x \<or> cl_rbs (view w') m = Some x" and "owned_by uid x"
  shows "\<exists>k b. cl_binds (view w') k = Some b \<and> om_UID b = uid \<and> finalizer \<in> set (om_Finalizers b) \<and>
    phase b \<in> {BindBinding, BindBinded, BindFailed}"
proof -
  have "access_inv (view w')"
    using operator_api.access_inv_system_steps [OF assms(1,2,3)] .
  then have "covers uid (view w')" using assms(4,5) access_invD by blast
  then show ?thesis by (simp add: covers_def access_phases_def)
qed

theorem no_dangling_access_witness:
  "\<exists>w' n x. (system_step (mem_api False) mem_view ex_lib)\<^sup>*\<^sup>* (ex_world 0 [] (ex_bind [finalizer] BindPending)) w' \<and>
     cl_crbs (mem_view w') n = Some x \<and> owned_by ''u1'' x \<and>
     (\<exists>k b. cl_binds (mem_view w') k = Some b \<and> om_UID b = ''u1'' \<and> finalizer \<in> set (om_Finalizers b) \<and>
        phase b \<in> {BindBinding, BindBinded, BindFailed})"
proof -
  obtain res w' b' where
    r: "Reconcile (mem_api False) ex_lib ex_key (ex_world 0 [] (ex_bind [finalizer] BindPending)) = (Inr res, w')"
    and b': "cl_binds (mem_view w') ex_key = Some b'" "phase b' = BindBinded"
    using ex_binds [of BindPending] by auto
  have "''view'' \<in> granted_cluster_roles ''u1'' (bind_subject (ex_bind [finalizer] BindPending)) (mem_view w')"
    using mem.Reconcile_binded_grants(1) [OF r _ _ _ b', of "ex_bind [finalizer] BindPending"]
    unfolding ex_entitled by simp
  then obtain n x where x: "cl_crbs (mem_view w') n = Some x" "owned_by ''u1'' x"
    by (rule granted_cluster_roleE)
  have s: "(system_step (mem_api False) mem_view ex_lib)\<^sup>*\<^sup>* (ex_world 0 [] (ex_bind [finalizer] BindPending)) w'"
    using reconciled [OF r] by blast
  have "access_inv (mem_view (ex_world 0 [] (ex_bind [finalizer] BindPending)))" by (simp add: access_inv_def)
  note cov = no_dangling_access [OF mem.operator_api_axioms s this disjI1 [OF x(1)] x(2)]
  show ?thesis by (rule exI [of _ w'], rule exI [of _ n], rule exI [of _ x]) (intro conjI s x cov)
qed

text \<open>
  C11. A reconcile, whatever calls fail in it and whatever it returns, is a sequence of steps
  of the machine \<open>bind_step\<close>: the finalizer before any binding, bindings only in phase
  \<open>binding\<close> or \<open>binded\<close>, \<open>unbound\<close> and the end of the finalizer only after the last binding.
\<close>

theorem Reconcile_refines_bind_step:
  "operator_api K view \<Longrightarrow> Reconcile K L k w = (r, w') \<Longrightarrow> (bind_step k)\<^sup>*\<^sup>* (view w) (view w')"
  by (rule operator_api.Reconcile_steps)

theorem Reconcile_refines_bind_step_witness:
  "\<exists>r w'. Reconcile (mem_api True) ex_lib ex_key (ex_world 0 [False, True] (ex_bind [] BindUnset)) = (r, w') \<and>
     (bind_step ex_key)\<^sup>*\<^sup>* (mem_view (ex_world 0 [False, True] (ex_bind [] BindUnset))) (mem_view w')"
  by (intro exI conjI, rule surjective_pairing,
      rule Reconcile_refines_bind_step [OF mem.operator_api_axioms surjective_pairing])



section \<open>Revocation\<close>

text \<open>
  Once the clock has reached the expiry, a reconcile that succeeds leaves the resource
  \<open>unbound\<close> and without a single owned binding.
\<close>

theorem Reconcile_expired_revokes:
  assumes "operator_api K view" and "Reconcile K L k w = (Inr res, w')"
    and "cl_binds (view w) k = Some b" and "live b" and "phase b \<noteq> BindUnset"
    and "bindExpiry L b = Inr e" and "e \<le> k_now K w"
    and "phase b = BindUnbound \<Longrightarrow> owned_free (om_UID b) (view w)"
  shows "owned_free (om_UID b) (view w') \<and>
    (\<exists>b'. cl_binds (view w') k = Some b' \<and> phase b' = BindUnbound)"
  using operator_api.Reconcile_expired [OF assms(1-7)] assms(8) by simp

theorem Reconcile_expired_revokes_witness:
  "\<exists>res w'. Reconcile (mem_api False) ex_lib ex_key (ex_bound_world (9 * Hour) (ex_bind [finalizer] BindBinded)) = (Inr res, w') \<and>
     owned_free ''u1'' (mem_view w') \<and>
     (\<exists>b'. cl_binds (mem_view w') ex_key = Some b' \<and> phase b' = BindUnbound)"
proof -
  have "\<exists>res w'. Reconcile (mem_api False) ex_lib ex_key
      (ex_bound_world (9 * Hour) (ex_bind [finalizer] BindBinded)) = (Inr res, w')"
    by (simp add: reconcile_run mem_run)
  then obtain res w' where r: "Reconcile (mem_api False) ex_lib ex_key
      (ex_bound_world (9 * Hour) (ex_bind [finalizer] BindBinded)) = (Inr res, w')" by auto
  have g: "owned_free ''u1'' (mem_view w') \<and> (\<exists>b'. cl_binds (mem_view w') ex_key = Some b' \<and> phase b' = BindUnbound)"
    using Reconcile_expired_revokes [OF mem.operator_api_axioms r,
        of "ex_bind [finalizer] BindBinded" "8 * Hour"] by simp
  show ?thesis by (intro exI) (rule conjI [OF r g])
qed



section \<open>Progress and settling\<close>

text \<open>
  A resource that is bound, with its status, its ServiceAccount and its bindings in place,
  settles: the reconcile changes nothing in the cluster and asks to run again at the expiry.
\<close>

theorem Reconcile_settles:
  assumes "reliable_api K view"
    and "cl_binds (view w) k = Some b" and "live b" and "phase b = BindBinded"
    and "bindExpiry L b = Inr e" and "k_now K w < e" and "sv_ExpiresAt (st_Sv (uab_Status b)) = Some e"
    and "cl_sas (view w) (om_Namespace b, spec_User (uab_Spec b)) = Some sa"
    and "k_setControllerReference K b sa = Inr sa"
    and "nsname_of sa = (om_Namespace b, spec_User (uab_Spec b))"
    and "sv_Ref (st_Sv (uab_Status b)) = om_UID sa"
    and "in_place b (view w)"
  shows "\<exists>w'. Reconcile K L k w = (Inr \<lparr>RequeueAfter = Sub e (k_now K w')\<rparr>, w') \<and> view w' = view w"
  by (rule reliable_api.Reconcile_settled [OF assms])

theorem Reconcile_settles_witness:
  "\<exists>b w'. phase b = BindBinded \<and>
     Reconcile (mem_api False) ex_lib ex_key (ex_bound_world Hour b) =
       (Inr \<lparr>RequeueAfter = Sub (8 * Hour) (mw_now w')\<rparr>, w') \<and>
     mem_view w' = mem_view (ex_bound_world Hour b)"
proof -
  let ?b = "set_ref_expiry ''s1'' (8 * Hour) (ex_bind [finalizer] BindBinded)"
  have p: "in_place ?b (mem_view (ex_bound_world Hour ?b))"
    unfolding in_place_def mem_view_sel ex_bound_world_sel
      ex_entitled_roles [of ?b "[finalizer]" BindBinded, OF set_ref_expiry_sel(4)]
    by (auto simp: ex_role_def object_meta_def bindingName_def)
  have l: "live ?b" and e: "bindExpiry ex_lib ?b = Inr (8 * Hour)" by (simp_all add: set_ref_expiry_def live_def)
  have "\<exists>w'. Reconcile (mem_api False) ex_lib ex_key (ex_bound_world Hour ?b) =
       (Inr \<lparr>RequeueAfter = Sub (8 * Hour) (k_now (mem_api False) w')\<rparr>, w') \<and>
     mem_view w' = mem_view (ex_bound_world Hour ?b)"
    by (rule Reconcile_settles [OF mem_ok.reliable_api_axioms _ l _ e _ _ _ _ _ _ p, where sa = ex_sa])
      (simp_all add: mem_api_def mem_setControllerReference_def)
  then obtain w' where r: "Reconcile (mem_api False) ex_lib ex_key (ex_bound_world Hour ?b) =
       (Inr \<lparr>RequeueAfter = Sub (8 * Hour) (mw_now w')\<rparr>, w')" "mem_view w' = mem_view (ex_bound_world Hour ?b)"
    unfolding mem_now by auto
  have ph: "phase ?b = BindBinded" by simp
  show ?thesis by (intro exI conjI) (rule ph r)+
qed





end
