(* ===== verification/Binder_Properties.thy ===== *)
theory Binder_Properties
  imports Binder Operator_Properties
begin

text \<open>
  The properties of the broker's side of the cluster, alone and together with the operator:
  what a login writes, how long it waits, and what the operator grants for it.
\<close>

section \<open>A login\<close>


definition ex_binder :: Binder where
  "ex_binder = NewBinder ''kargus'' ''8h'' (30 * Second)"

definition ex_user :: Identity where
  "ex_user =
     \<lparr>id_Subject = ''s-1'', id_Email = ''Ana'', id_EmailVerified = True, id_Domain = ''acme.io'', id_Name = ''Ana'',
      id_Groups = [\<lparr>m_Gid = ''eng'', m_Name = ''Eng'', m_Domain = ''acme.io''\<rparr>]\<rparr>"

definition ex_logged_in :: "UserAuthenticationBind" where
  "ex_logged_in = stamped ex_binder ''ana'' ex_user 0 (ex_bind [finalizer] BindBinded)"

lemma ex_logged_in_sel [simp]:
  "nsname_of ex_logged_in = ex_key" "om_UID ex_logged_in = ''u1''" "om_DeletionTimestamp ex_logged_in = None"
  "om_Finalizers ex_logged_in = [finalizer]" "phase ex_logged_in = BindBinded" "om_Namespace ex_logged_in = ''kargus''"
  "om_Name ex_logged_in = ''ana''"
  "spec_User (uab_Spec ex_logged_in) = ''ana''" "updated (ex_bind [finalizer] BindBinded) ex_logged_in = ex_logged_in"
  by (simp_all add: ex_logged_in_def stamped_def nsname_of_def updated_def ex_bind_def new_object_defs ex_key_def)

lemma SanitizeName_Ana: "SanitizeName ex_lib ''Ana'' = ''ana''"
proof -
  have "map sanitize_rune (runes (ToLower ex_lib (''Ana'' @ []))) = ''ana''"
    by (subst sanitized_runes_append)
      (simp_all add: ascii_def ToLower_def runes_def sanitize_rune_def lower_rune_def char_of_def bit_0)
  then show ?thesis by (simp add: SanitizeName_def Trim_def TrimRight_def)
qed

lemma ex_Upsert:
  "Upsert (mem_api False) ex_lib ex_binder ex_user (ex_world 0 [] (ex_bind [finalizer] BindBinded)) =
   (Inr ''ana'', ex_world 0 [] ex_logged_in)"
proof -
  have n: "SanitizeName ex_lib (id_Email ex_user) = ''ana''" by (simp add: ex_user_def SanitizeName_Ana)
  have t: "put_mem_bind ex_key (stored ex_logged_in) (tick (ex_world 0 [] (ex_bind [finalizer] BindBinded))) =
      ex_world 0 [] ex_logged_in"
    by (simp add: put_mem_bind_def stored_def remove_key_def tick_def ex_world_def)
  have c: "k_createOrUpdateBind (mem_api False) ex_key (\<lambda>cr. Inr (stamped ex_binder ''ana'' ex_user 0 cr))
      (ex_world 0 [] (ex_bind [finalizer] BindBinded)) = (Inr ex_logged_in, ex_world 0 [] ex_logged_in)"
    unfolding ex_logged_in_def [symmetric] mem_api_def
    by (simp add: call_def faulty_def mem_createOrUpdateBind_def lookup_def t flip: ex_logged_in_def)
  show ?thesis unfolding Upsert_def Let_def n
    using c by (simp add: ex_key_def) (simp add: ex_binder_def NewBinder_def)
qed



section \<open>The wait\<close>

text \<open>
  C28. The wait for the operator ends: with one poll per interval of the timeout and three more
  it has an answer, and when the answer is success the resource is \<open>binded\<close>.
\<close>

theorem WaitBinded_answers:
  assumes "bind_client K W view" and "0 < b_pollInterval B"
  shows "\<exists>ans w'. WaitBinded K W B (waitFuel B) name w = (Some ans, w') \<and>
    (ans = None \<longrightarrow> (\<exists>cr. cl_binds (view w') (b_namespace B, name) = Some cr \<and> phase cr = BindBinded))"
proof -
  obtain x w' where r: "WaitBinded K W B (waitFuel B) name w = (x, w')" by fastforce
  with bind_client.WaitBinded_ends [OF assms, of name w] obtain ans where x: "x = Some ans" by auto
  have "\<exists>cr. cl_binds (view w') (b_namespace B, name) = Some cr \<and> phase cr = BindBinded" if "ans = None"
    using r unfolding x that WaitBinded_def by (rule bind_client.waitLoop_binded [OF assms(1)])
  with r x show ?thesis by auto
qed

theorem WaitBinded_answers_witness:
  "\<exists>ans w'. WaitBinded (mem_api False) mem_waiter ex_binder (waitFuel ex_binder) ''ana''
       (ex_world 0 [] (ex_bind [] BindPending)) = (Some ans, w') \<and>
     (ans = None \<longrightarrow> (\<exists>cr. cl_binds (mem_view w') (b_namespace ex_binder, ''ana'') = Some cr \<and> phase cr = BindBinded))"
  by (rule WaitBinded_answers [OF mem_client.bind_client_axioms]) (simp add: ex_binder_def NewBinder_def)

text \<open>
  C38. The wait can succeed too early. When the resource was \<open>binded\<close> before the login, it still
  says so after \<open>Upsert\<close>, and the first poll ends the wait: the resource lists the groups of the
  new login, while the bindings are those of the old one.
\<close>

theorem WaitBinded_may_be_stale:
  assumes "bind_client K W view"
    and "cl_binds (view w) (b_namespace B, name) = Some cur" and "phase cur = BindBinded"
    and "Upsert K U B ident w = (Inr name, w1)"
    and "wt_get W (k_now K w1 + b_timeout B) (b_namespace B, name) w1 = (Inr cr, w2)"
  shows "WaitBinded K W B (waitFuel B) name w1 = (Some None, w2) \<and>
    spec_Memberships (uab_Spec cr) = toCRMemberships (id_Groups ident) \<and>
    cl_crbs (view w2) = cl_crbs (view w) \<and> cl_rbs (view w2) = cl_rbs (view w)"
proof -
  obtain n where "waitFuel B = Suc n" by (simp add: waitFuel_def)
  then show ?thesis using bind_client.Upsert_then_wait_stale [OF assms] by simp
qed

theorem WaitBinded_may_be_stale_witness:
  "WaitBinded (mem_api False) mem_waiter ex_binder (waitFuel ex_binder) ''ana'' (ex_world 0 [] ex_logged_in) =
     (Some None, ex_world 0 [] ex_logged_in) \<and>
   entitled ex_logged_in (mw_clusterroles (ex_world 0 [] ex_logged_in)) \<noteq> {} \<and>
   cl_crbs (mem_view (ex_world 0 [] ex_logged_in)) = Map.empty"
proof -
  let ?w = "ex_world 0 [] (ex_bind [finalizer] BindBinded)" and ?w1 = "ex_world 0 [] ex_logged_in"
  have k: "(b_namespace ex_binder, ''ana'') = ex_key" by (simp add: ex_binder_def NewBinder_def ex_key_def)
  have g: "wt_get mem_waiter (k_now (mem_api False) ?w1 + b_timeout ex_binder) (b_namespace ex_binder, ''ana'') ?w1 =
      (Inr ex_logged_in, ?w1)"
    unfolding k by (simp add: mem_waiter_def ex_binder_def NewBinder_def)
      (simp add: mem_api_def call_def faulty_def mem_getBind_def lookup_def tick_def ex_world_def)
  have "cl_binds (mem_view ?w) (b_namespace ex_binder, ''ana'') = Some (ex_bind [finalizer] BindBinded)" by (simp add: k)
  from WaitBinded_may_be_stale [OF mem_client.bind_client_axioms this _ ex_Upsert g]
  have a: "WaitBinded (mem_api False) mem_waiter ex_binder (waitFuel ex_binder) ''ana'' ?w1 = (Some None, ?w1)"
    and c: "cl_crbs (mem_view ?w1) = cl_crbs (mem_view ?w)" by simp_all
  have "ex_role [] ''view'' ''eng'' \<in> entitled ex_logged_in (mw_clusterroles ?w1)"
    by (simp add: entitled_def member_of_def ex_role_def object_meta_def ex_logged_in_def stamped_def ex_user_def
        toCRMemberships_def)
  moreover have "cl_crbs (mem_view ?w) = Map.empty" by (simp add: fun_eq_iff)
  ultimately show ?thesis using a c by auto
qed

end
