(* ===== verification/Proxy_Properties.thy ===== *)
theory Proxy_Properties
  imports Proxy_Main Kube_Lift Binder_Properties
begin

text \<open>
  What the proxy does to a request, for any verifier and minter; what its token cache
  guarantees when requests run concurrently.
\<close>

section \<open>Headers\<close>

lemma canonical_bytes:
  "lower_letter c \<Longrightarrow> upper_letter (toUpper_byte c)" "upper_letter c \<Longrightarrow> lower_letter (toLower_byte c)"
  by (auto simp: upper_letter_def lower_letter_def toUpper_byte_def toLower_byte_def)

lemma toUpper_idem [simp]: "toUpper_byte (toUpper_byte c) = toUpper_byte c"
  by (auto simp: toUpper_byte_def lower_letter_def)

lemma toLower_idem [simp]: "toLower_byte (toLower_byte c) = toLower_byte c"
  by (auto simp: toLower_byte_def upper_letter_def)

lemma dash_byte [simp]: "toUpper_byte c = CHR ''-'' \<longleftrightarrow> c = CHR ''-''" "toLower_byte c = CHR ''-'' \<longleftrightarrow> c = CHR ''-''"
  by (auto simp: toUpper_byte_def toLower_byte_def lower_letter_def upper_letter_def char_of_eq_iff take_bit_eq_mod)

lemma canonicalize_idem [simp]: "canonicalize u (canonicalize u s) = canonicalize u s"
  by (induction s arbitrary: u) simp_all

lemma valid_canonicalize: "list_all validHeaderFieldByte s \<Longrightarrow> list_all validHeaderFieldByte (canonicalize u s)"
proof (induction s arbitrary: u)
  case (Cons c s)
  have "validHeaderFieldByte (toUpper_byte c)" "validHeaderFieldByte (toLower_byte c)"
    using Cons.prems canonical_bytes [of c]
    by (auto simp: validHeaderFieldByte_def toUpper_byte_def toLower_byte_def)
  with Cons show ?case by simp
qed simp

lemma CanonicalHeaderKey_idem [simp]: "CanonicalHeaderKey (CanonicalHeaderKey s) = CanonicalHeaderKey s"
  by (simp add: CanonicalHeaderKey_def valid_canonicalize)

text \<open>A header as \<open>net/http\<close> delivers it: no key twice, every key canonical.\<close>

definition canonical_header :: "header \<Rightarrow> bool" where
  "canonical_header h \<longleftrightarrow> distinct (map fst h) \<and> (\<forall>k \<in> fst ` set h. CanonicalHeaderKey k = k)"

lemma map_of_Del: "map_of (header_Del h k) = (map_of h)(CanonicalHeaderKey k := None)"
  unfolding header_Del_def by (rule map_of_filter_key)

lemma map_of_Set: "map_of (header_Set h k v) = (map_of h)(CanonicalHeaderKey k \<mapsto> [v])"
  by (auto simp: header_Set_def map_of_Del)

lemma map_of_drop_fold:
  "map_of (fold (\<lambda>h acc. if impersonation h then header_Del acc h else acc) ks hs) =
   (\<lambda>k. if \<exists>x \<in> set ks. impersonation x \<and> CanonicalHeaderKey x = k then None else map_of hs k)"
  by (induction ks arbitrary: hs) (auto simp: map_of_Del fun_eq_iff)

lemma map_of_dropImpersonation:
  assumes "\<forall>k \<in> fst ` set hs. CanonicalHeaderKey k = k"
  shows "map_of (dropImpersonation hs) = (\<lambda>k. if HasPrefix k ''Impersonate-'' then None else map_of hs k)"
proof
  fix k
  have "map_of hs k = None" if "k \<notin> fst ` set hs" using that by (simp add: map_of_eq_None_iff)
  moreover have "CanonicalHeaderKey x = x" if "x \<in> fst ` set hs" for x using assms that by blast
  ultimately show "map_of (dropImpersonation hs) k = (if HasPrefix k ''Impersonate-'' then None else map_of hs k)"
    unfolding dropImpersonation_def map_of_drop_fold by (auto simp: impersonation_def)
qed

lemma Authorization_canonical [simp]: "CanonicalHeaderKey ''Authorization'' = ''Authorization''"
  by (simp add: CanonicalHeaderKey_def validHeaderFieldByte_def upper_letter_def lower_letter_def digit_def
      toUpper_byte_def toLower_byte_def)

lemma swapped_header:
  assumes "canonical_header h"
  shows "map_of (dropImpersonation (header_Set h ''Authorization'' b)) =
    (\<lambda>k. if HasPrefix k ''Impersonate-'' then None else if k = ''Authorization'' then Some [b] else map_of h k)"
proof -
  have "\<forall>k \<in> fst ` set (header_Set h ''Authorization'' b). CanonicalHeaderKey k = k"
    using assms by (auto simp: header_Set_def header_Del_def canonical_header_def)
  from map_of_dropImpersonation [OF this] show ?thesis by (auto simp: map_of_Set fun_eq_iff)
qed

section \<open>A proxy before a cluster in memory\<close>

record proxy_world = tokenCache +
  pw_mem :: mem

abbreviation put_pw :: "mem \<Rightarrow> proxy_world \<Rightarrow> proxy_world" where
  "put_pw m w \<equiv> w\<lparr>pw_mem := m\<rparr>"

interpretation proxy_lens: lens pw_mem put_pw
  by unfold_locales simp

abbreviation proxy_kube :: "proxy_world kube" where
  "proxy_kube \<equiv> lift_kube pw_mem put_pw (mem_api False)"

interpretation proxy_minter: cache_minter "Mint proxy_kube M" for M
  by unfold_locales (auto simp: Mint_def lift_kube_def through_def split: prod.splits sum.splits)

definition ex_verifier ::
  "string \<Rightarrow> string \<Rightarrow> string \<Rightarrow> string \<Rightarrow> proxy_world \<Rightarrow> ((string \<rightharpoonup> json) res) res \<times> proxy_world" where
  "ex_verifier issuer jwks clientID raw w =
     (if raw = ''jwt'' then Inr (Inr [''iss'' \<mapsto> JStr issuer, ''email'' \<mapsto> JStr ''Ana'']) else Inl (Errorf ''oidc: malformed jwt''), w)"


definition ex_proxy_environ :: environ where
  "ex_proxy_environ = (\<lambda>_. [])(''ISSUER'' := ''https://b'', ''CLIENT_ID'' := ''kargus'', ''BIND_NAMESPACE'' := ''kargus'')"

definition ex_settings :: ProxySettings where
  "ex_settings =
     \<lparr>ps_issuer = ''https://b'', ps_clientID = ''kargus'', ps_namespace = ''kargus'', ps_listen = '':8443'',
      ps_usernameClaim = ''email'', ps_expSecs = 600, ps_certFile = [], ps_keyFile = [],
      ps_jwksURL = ''https://b/jwks'', ps_cacheTTL = 480 * Second, ps_tlsEnabled = False\<rparr>"

lemma ex_settings: "proxySettings ex_proxy_environ = Inr ex_settings"
  using cacheTTL_exact [of 600]
  by (simp add: proxySettings_def ex_proxy_environ_def ex_settings_def proxy_env_def proxy_envInt_def TrimRight_def Let_def)

definition ex_proxy :: "proxy_world Proxy" where
  "ex_proxy = wireProxy ex_verifier proxy_kube ''https'' ''10.0.0.1'' ex_settings"

definition ex_proxy_world :: proxy_world where
  "ex_proxy_world = \<lparr>tc_now = 0, tc_m = Map.empty, pw_mem = ex_bound_world 0 (ex_bind [finalizer] BindBinded)\<rparr>"

definition ex_prequest :: "string \<Rightarrow> prequest" where
  "ex_prequest token =
     \<lparr>pr_Scheme = [], pr_URLHost = [], pr_Host = ''proxy'', pr_Path = ''/api'',
      pr_Header = [(''Authorization'', [''Bearer '' @ token]), (''Impersonate-User'', [''root'']), (''Accept'', [''*/*''])]\<rparr>"

lemma ex_mint:
  "\<exists>t w'. cache_token (px_cacheTTL ex_proxy) (px_Mint ex_proxy) ''ana'' ex_proxy_world = (Inr t, w')"
  by (simp add: cache_token_def cache_hit_def ex_proxy_world_def ex_proxy_def wireProxy_def Mint_def NewMinter_def
      lift_kube_def through_def ex_settings_def mem_api_def call_def faulty_def mem_createToken_def lookup_def tick_def
      ex_bound_world_def)

lemma ex_bearer: "bearer (ex_prequest token) = token"
  by (simp add: bearer_def ex_prequest_def header_Get_def HasPrefix_def TrimPrefix_def Let_def)

lemma ex_canonical_header: "canonical_header (pr_Header (ex_prequest token))"
  by (simp add: canonical_header_def ex_prequest_def CanonicalHeaderKey_def validHeaderFieldByte_def upper_letter_def
      lower_letter_def digit_def toUpper_byte_def toLower_byte_def)

section \<open>What reaches the apiserver\<close>

text \<open>
  C6. A request with a verified id_token that names a user reaches the apiserver only as that
  user: its one \<open>Authorization\<close> value is the token the cache gave for the user's
  ServiceAccount, no impersonation header is left, and every other header, the path and the
  rest are as the client sent them. When no token can be had, the request is answered with
  502 and not forwarded.
\<close>

theorem proxy_swaps_identity:
  assumes "bearer r = raw" and "raw \<noteq> []" and "px_Verify P raw w = (Inr (Inr claims), w1)"
    and "as_string (claims (px_usernameClaim P)) = user" and "user \<noteq> []"
    and "canonical_header (pr_Header r)"
    and "cache_token (px_cacheTTL P) (px_Mint P) (SanitizeName U user) w1 = (res, w2)"
  shows "case res of
      Inl _ \<Rightarrow> ServeHTTP U P r w = (PError 502 ''could not obtain credentials'', w2)
    | Inr t \<Rightarrow> \<exists>h. ServeHTTP U P r w = (PForward (director P (r\<lparr>pr_Header := h\<rparr>)), w2) \<and>
        map_of h ''Authorization'' = Some [''Bearer '' @ t] \<and>
        (\<forall>k. HasPrefix k ''Impersonate-'' \<longrightarrow> map_of h k = None) \<and>
        (\<forall>k. \<not> HasPrefix k ''Impersonate-'' \<longrightarrow> k \<noteq> ''Authorization'' \<longrightarrow> map_of h k = map_of (pr_Header r) k)"
proof (cases res)
  case (Inl e)
  with assms show ?thesis by (simp add: ServeHTTP_def swap_def)
next
  case (Inr t)
  let ?s = "header_Set (pr_Header r) ''Authorization'' (''Bearer '' @ t)"
  have "ServeHTTP U P r w = (PForward (director P (r\<lparr>pr_Header := dropImpersonation ?s\<rparr>)), w2)"
    using assms Inr by (simp add: ServeHTTP_def swap_def)
  moreover have "\<not> HasPrefix ''Authorization'' ''Impersonate-''" by (simp add: HasPrefix_def)
  ultimately show ?thesis unfolding Inr
    by (simp only: sum.case, intro exI [of _ "dropImpersonation ?s"] conjI) (simp_all add: swapped_header [OF assms(6)])
qed

theorem proxy_swaps_identity_witness:
  "\<exists>t h w'. ServeHTTP ex_lib ex_proxy (ex_prequest ''jwt'') ex_proxy_world =
       (PForward (director ex_proxy (ex_prequest ''jwt''\<lparr>pr_Header := h\<rparr>)), w') \<and>
     map_of h ''Authorization'' = Some [''Bearer '' @ t] \<and> map_of h ''Impersonate-User'' = None"
proof -
  obtain t w' where t: "cache_token (px_cacheTTL ex_proxy) (px_Mint ex_proxy) ''ana'' ex_proxy_world = (Inr t, w')"
    using ex_mint by auto
  let ?claims = "[''iss'' \<mapsto> JStr ''https://b'', ''email'' \<mapsto> JStr ''Ana'']"
  have v: "px_Verify ex_proxy ''jwt'' ex_proxy_world = (Inr (Inr ?claims), ex_proxy_world)"
    by (simp add: ex_proxy_def wireProxy_def ex_verifier_def ex_settings_def)
  have u: "as_string (?claims (px_usernameClaim ex_proxy)) = ''Ana''"
    by (simp add: as_string_def ex_proxy_def wireProxy_def ex_settings_def)
  from proxy_swaps_identity [OF ex_bearer _ v u _ ex_canonical_header, of ex_lib "Inr t" w'] t
  obtain h where s: "ServeHTTP ex_lib ex_proxy (ex_prequest ''jwt'') ex_proxy_world =
       (PForward (director ex_proxy (ex_prequest ''jwt''\<lparr>pr_Header := h\<rparr>)), w')"
    and h: "map_of h ''Authorization'' = Some [''Bearer '' @ t]" "\<forall>k. HasPrefix k ''Impersonate-'' \<longrightarrow> map_of h k = None"
    by (auto simp: SanitizeName_Ana)
  have "map_of h ''Impersonate-User'' = None" using h(2) by (simp add: HasPrefix_def)
  with s h(1) show ?thesis by (intro exI conjI)
qed

text \<open>
  Every other request passes through with its own credentials: without a bearer, with a
  token the verifier refuses, or with one that names no user, the headers reach the apiserver
  as they came, and the proxy mints nothing. Only an unauthenticated \<open>/healthz\<close> is answered
  by the proxy itself.
\<close>

theorem proxy_passes_through:
  assumes "bearer r = [] \<and> w' = w \<or> px_Verify P (bearer r) w = (Inl e, w') \<or>
      px_Verify P (bearer r) w = (Inr (Inl e), w') \<or>
      (\<exists>claims. px_Verify P (bearer r) w = (Inr (Inr claims), w') \<and> as_string (claims (px_usernameClaim P)) = [])"
  shows "ServeHTTP U P r w =
    (if pr_Path r = ''/healthz'' \<and> bearer r = [] then (PWrite 200 ''ok'', w)
     else (PForward (director P r), if bearer r = [] then w else w')) \<and> pr_Header (director P r) = pr_Header r"
  using assms by (auto simp: ServeHTTP_def swap_def director_def Let_def)

theorem proxy_passes_through_witness:
  "ServeHTTP ex_lib ex_proxy (ex_prequest ''sa-token'') ex_proxy_world =
     (PForward (director ex_proxy (ex_prequest ''sa-token'')), ex_proxy_world) \<and>
   pr_Header (director ex_proxy (ex_prequest ''sa-token'')) = pr_Header (ex_prequest ''sa-token'')"
proof -
  have "px_Verify ex_proxy (bearer (ex_prequest ''sa-token'')) ex_proxy_world =
      (Inl (Errorf ''oidc: malformed jwt''), ex_proxy_world)"
    by (simp add: ex_bearer ex_proxy_def wireProxy_def ex_verifier_def)
  from proxy_passes_through [OF disjI2 [OF disjI1 [OF this]], of ex_lib] show ?thesis by (simp add: ex_bearer)
qed

section \<open>The cache\<close>

text \<open>A minter on the bare cache, and a run of one request with it.\<close>

definition ex_cache_mint :: "string \<Rightarrow> tokenCache \<Rightarrow> Token res \<times> tokenCache" where
  "ex_cache_mint sa c = (Inr \<lparr>tok_AccessToken = ''tok:'' @ sa, tok_ExpiresIn = 600\<rparr>, c)"

lemma ex_cache_minter: "cache_minter ex_cache_mint"
  by unfold_locales (simp add: ex_cache_mint_def)

lemma ex_cache_token:
  "cache_token (480 * Second) ex_cache_mint ''ana'' (plain (cache_start 0)) =
   (Inr ''tok:ana'', cache_store (480 * Second) ''ana'' ''tok:ana'' (plain (cache_start 0)))"
  by (simp add: cache_token_def cache_hit_def plain_def cache_start_def ex_cache_mint_def)

lemma ex_cache_idle: "cs_request (cache_start 0) 1 = None"
  by (simp add: cache_start_def)

text \<open>
  C19. However requests interleave, an answer of the cache is a token that was minted for the
  ServiceAccount that was asked for, and it has not expired: a token asked for with a lifetime
  of \<open>n\<close> seconds is kept for four fifths of it, so it is never handed out at an age of \<open>n\<close>
  seconds or more, as long as minting takes at most a fifth of the lifetime.
\<close>

theorem cached_token_unexpired:
  assumes "(cache_step (cacheTTL n) delay)\<^sup>*\<^sup>* (cache_start now) s" and "0 < n" and "n < 2 ^ 33"
    and "5 * delay \<le> n * Second" and "cs_request s i = Some (Answered sa t when)"
  shows "\<exists>at. (sa, t, at) \<in> cs_mints s \<and> at \<le> when \<and> when < at + n * Second"
proof -
  have "cache_inv (cacheTTL n) delay s" using assms(1) cache_inv_start by (rule cache_inv_steps)
  then have "answer_ok (cacheTTL n) delay (cs_mints s) (tc_now s) (Answered sa t when)"
    using assms(5) by (simp add: cache_inv_def)
  then obtain at where at: "(sa, t, at) \<in> cs_mints s" "at \<le> when"
    "when \<le> at + delay \<or> when < at + delay + cacheTTL n" by (auto simp: answer_ok_def)
  have "5 * cacheTTL n \<le> 4 * (n * Second)" using cacheTTL_exact [of n] assms(2,3) by simp
  with at(3) assms(2,4) have "when < at + n * Second" by auto
  with at show ?thesis by blast
qed

theorem cached_token_unexpired_witness:
  "\<exists>s when at. (cache_step (cacheTTL 600) (60 * Second))\<^sup>*\<^sup>* (cache_start 0) s \<and>
     cs_request s 1 = Some (Answered ''ana'' ''tok:ana'' when) \<and>
     (''ana'', ''tok:ana'', at) \<in> cs_mints s \<and> at \<le> when \<and> when < at + 600 * Second"
proof -
  have c: "cacheTTL 600 = 480 * Second" using cacheTTL_exact [of 600] by simp
  obtain s u where s: "(cache_step (480 * Second) (60 * Second))\<^sup>*\<^sup>* (cache_start 0) s"
      "cs_request s 1 = Some (Answered ''ana'' ''tok:ana'' u)"
    using cache_token_run [OF ex_cache_minter ex_cache_token ex_cache_idle, of "60 * Second"]
    by (auto simp: cache_store_def)
  have "\<exists>at. (''ana'', ''tok:ana'', at) \<in> cs_mints s \<and> at \<le> u \<and> u < at + 600 * Second"
    by (rule cached_token_unexpired [OF s(1) [folded c] _ _ _ s(2)]) simp_all
  with s show ?thesis unfolding c by blast
qed

text \<open>
  The code of \<open>token\<close> is a run of that machine: a call that answers, with a minter that
  leaves the cache alone, goes through its steps and ends in its cache.
\<close>

theorem cache_token_refines:
  assumes "cache_minter mint" and "cache_token ttl mint sa (plain s) = (Inr t, c')"
    and "cs_request s i = None" and "tc_now c' \<le> tc_now s + delay"
  shows "\<exists>s' when. (cache_step ttl delay)\<^sup>*\<^sup>* s s' \<and> plain s' = c' \<and> cs_request s' i = Some (Answered sa t when)"
  by (rule cache_token_run [OF assms])

theorem cache_token_refines_witness:
  "\<exists>s' when. (cache_step (480 * Second) 0)\<^sup>*\<^sup>* (cache_start 0) s' \<and>
     plain s' = cache_store (480 * Second) ''ana'' ''tok:ana'' (plain (cache_start 0)) \<and>
     cs_request s' 1 = Some (Answered ''ana'' ''tok:ana'' when)"
  by (rule cache_token_refines [OF ex_cache_minter ex_cache_token ex_cache_idle]) (simp add: cache_store_def)

section \<open>The issuer\<close>



end
