(* ===== verification/Broker_Properties.thy ===== *)
theory Broker_Properties
  imports Broker_Correct
begin

text \<open>
  The properties of the broker's endpoints, for any store, provider, binder and minter. The
  examples run on the in-process store with dependencies that always succeed.
\<close>

section \<open>An example broker\<close>

text \<open>Dependencies on the in-process store: every login is by the same user.\<close>

definition ex_identity :: Identity where
  "ex_identity =
     \<lparr>id_Subject = ''s-1'', id_Email = ''ana@acme.io'', id_EmailVerified = True, id_Domain = ''acme.io'',
      id_Name = ''Ana'', id_Groups = [\<lparr>m_Gid = ''eng'', m_Name = ''Eng'', m_Domain = ''acme.io''\<rparr>]\<rparr>"

record broker_world = memory +
  bw_rand :: nat

definition ex_deps :: "broker_world deps" where
  "ex_deps =
     \<lparr>d_store = memoryStore, d_AuthURL = \<lambda>st n. ''https://idp/?state='' @ st,
      d_Authenticate = \<lambda>c n w. (Inr ex_identity, w), d_Upsert = \<lambda>i w. (Inr ''ana-acme-io'', w),
      d_WaitBinded = \<lambda>n w. (None, w),
      d_Mint = \<lambda>n w. (Inr \<lparr>tok_AccessToken = ''sa-token'', tok_ExpiresIn = 900\<rparr>, w),
      d_Sign = \<lambda>j. Inr ''jwt'', d_Read = \<lambda>w. (replicate 32 (of_nat (bw_rand w)), w\<lparr>bw_rand := Suc (bw_rand w)\<rparr>),
      d_now = m_now\<rparr>"

definition ex_cfg :: Config where
  "ex_cfg =
     \<lparr>cfg_ListenAddr = '':8080'', cfg_Issuer = ''https://broker/'',
      cfg_IdP = \<lparr>idp_Type = ''oidc'', idp_Issuer = ''https://idp'', idp_ClientID = ''x'', idp_ClientSecret = ''y'',
        idp_RedirectURL = ''https://broker/callback'', idp_Scopes = [''openid''], idp_GroupsClaim = ''groups'',
        idp_GoogleDelegatedAdmin = [], idp_GoogleCredentialsFile = []\<rparr>,
      cfg_AllowedDomains = [''acme.io''], cfg_ClientID = ''kargus'', cfg_ClientSecret = [],
      cfg_RedirectURIs = [''https://h/cb''], cfg_TokenLifetime = 900 * Second,
      cfg_RefreshTokenLifetime = 12 * Hour, cfg_IDTokenSigningKey = [], cfg_TLSCertFile = [], cfg_TLSKeyFile = [],
      cfg_BindNamespace = ''kargus-system'', cfg_BindTTL = ''12h'', cfg_TokenAudiences = [],
      cfg_Store = \<lparr>st_Backend = ''memory'', st_RedisAddr = [], st_RedisPassword = [], st_RedisDB = 0, st_RedisTLS = False\<rparr>\<rparr>"

definition ex_golib :: golib where
  "ex_golib = \<lparr>uc_lower = id, uc_fold = (=), uc_print = \<lambda>_. True, frac_ns = \<lambda>f u k. f * u div 10 ^ k,
     parse_layout = \<lambda>_. None, url_parse = \<lambda>s. Some (s, [], []), sha256 = id\<rparr>"

definition ex_grant :: "string \<Rightarrow> CodeGrant" where
  "ex_grant v =
     \<lparr>cg_ClientID = ''kargus'', cg_RedirectURI = ''https://h/cb'', cg_CodeChallenge = RawURLEncode (bytes_of v),
      cg_Nonce = [], cg_Subject = ''ana@acme.io'', cg_AccessToken = ''sa-token'', cg_IDToken = ''jwt'',
      cg_RefreshToken = ''r'', cg_ExpiresIn = 900\<rparr>"

definition ex_world_code :: "string \<Rightarrow> broker_world" where
  "ex_world_code v =
     \<lparr>m_now = 0, m_auth = Map.empty, m_codes = [''c'' \<mapsto> (ex_grant v, codeTTL)], m_refresh = Map.empty, bw_rand = 0\<rparr>"

definition ex_token_request :: "string \<Rightarrow> Request" where
  "ex_token_request v =
     \<lparr>rq_Query = [], rq_PostForm = Inr [(''grant_type'', ''authorization_code''), (''code'', ''c''),
        (''client_id'', ''kargus''), (''redirect_uri'', ''https://h/cb''), (''code_verifier'', v)],
      rq_BasicAuth = None\<rparr>"

section \<open>The exchange of a code\<close>

text \<open>
  C5. A code is exchanged for tokens exactly when it is there, the client and the redirect URI
  are those of the login, the client secret (if one is configured) is presented, and the
  base64url SHA-256 of the verifier is the challenge of the login; the tokens are those of the
  grant. Every other request is an error.
\<close>

theorem code_exchange_exact:
  "handleAuthCode D L cfg r w = (WriteJSON 200 body, w') \<longleftrightarrow>
   (\<exists>g. s_TakeCode (d_store D) (Get (form_of r) ''code'') w = (Inr g, w') \<and>
      clientIDOf r = cg_ClientID g \<and> Get (form_of r) ''redirect_uri'' = cg_RedirectURI g \<and>
      (cfg_ClientSecret cfg = [] \<or> presentedSecret r = cfg_ClientSecret cfg) \<and>
      RawURLEncode (sha256 L (bytes_of (Get (form_of r) ''code_verifier''))) = cg_CodeChallenge g \<and>
      WriteJSON 200 body = writeTokenResponse (cg_AccessToken g) (cg_IDToken g) (cg_RefreshToken g) (cg_ExpiresIn g))"
  by (rule handleAuthCode_granted)

text \<open>
  Once a code has been found by an exchange, whether it was granted or refused, it is
  refused ever after, however the store is used in between, unless the broker saves a grant
  under the same code again.
\<close>

theorem code_replay_refused:
  assumes "one_shot (s_SaveCode (d_store D)) (s_TakeCode (d_store D)) live norm"
    and "s_TakeCode (d_store D) c w = (Inr g, w1)"
    and "shots (s_SaveCode (d_store D)) (s_TakeCode (d_store D)) live w1 tr w2"
    and "\<forall>v. Saved c v \<notin> set tr"
    and "Get (form_of r) ''code'' = c"
  shows "fst (handleAuthCode D L cfg r w2) = writeOAuthError 400 ''invalid_grant'' ''unknown or used code''"
proof -
  have "live w1 c = None" using one_shot.take_ok [OF assms(1,2)] by simp
  then have d: "live w2 c = None" using one_shot.dead_stays [OF assms(1,3)] assms(4) by blast
  obtain x w3 where t: "s_TakeCode (d_store D) c w2 = (x, w3)" by fastforce
  with one_shot.take_dead [OF assms(1) d t] assms(5) show ?thesis by (auto simp: handleAuthCode_unknown)
qed

theorem code_replay_refused_witness:
  "fst (handleAuthCode ex_deps ex_golib ex_cfg (ex_token_request ''v'')
     (snd (handleAuthCode ex_deps ex_golib ex_cfg (ex_token_request ''v'') (ex_world_code ''v'')))) =
   writeOAuthError 400 ''invalid_grant'' ''unknown or used code''"
proof -
  let ?w = "ex_world_code ''v''" and ?D = ex_deps
  let ?w1 = "?w\<lparr>m_codes := (m_codes ?w)(''c'' := None)\<rparr>"
  have D: "s_SaveCode (d_store ?D) = mem_SaveCode" "s_TakeCode (d_store ?D) = mem_TakeCode"
    by (simp_all add: ex_deps_def memoryStore_def)
  have o: "one_shot (s_SaveCode (d_store ?D)) (s_TakeCode (d_store ?D)) live_codes id"
    unfolding D by (rule mem_codes.one_shot_axioms)
  have t: "s_TakeCode (d_store ?D) ''c'' ?w = (Inr (ex_grant ''v''), ?w1)"
    by (simp add: D mem_TakeCode_def ex_world_code_def codeTTL_def)
  have f: "Get (form_of (ex_token_request ''v'')) ''code'' = ''c''"
    by (simp add: form_of_def ex_token_request_def Get_def)
  have "snd (handleAuthCode ?D ex_golib ex_cfg (ex_token_request ''v'') ?w) = ?w1"
    by (simp add: handleAuthCode_def f t)
  then show ?thesis using code_replay_refused [OF o t shots.start _ f] by simp
qed

section \<open>Refreshing\<close>



section \<open>Login\<close>

text \<open>
  C22. An identity whose e-mail is not verified or whose domain is not allowed gets nothing: the
  callback does not touch the cluster, mints and signs nothing, draws no code and saves no
  grant, whatever those operations would do.
\<close>

theorem callback_rejects_without_effect:
  assumes "s_TakeAuthRequest (d_store D) (Get (rq_Query r) ''state'') w = (Inr ar, w1)"
    and "d_Authenticate D (Get (rq_Query r) ''code'') (ar_IdPNonce ar) w1 = (Inr ident, w2)"
    and "\<not> id_EmailVerified ident \<or> \<not> AllowedDomain L cfg (id_Domain ident)"
  shows "Callback (D\<lparr>d_Upsert := up, d_WaitBinded := wb, d_Mint := mt, d_Sign := sg, d_Read := rd,
             d_store := (d_store D)\<lparr>s_SaveCode := sc, s_SaveRefresh := sr\<rparr>\<rparr>) L cfg r w = Callback D L cfg r w \<and>
         snd (Callback D L cfg r w) \<in> {w1, w2} \<and> fst (Callback D L cfg r w) \<noteq> Panic"
proof -
  have "redirectError L uri st c d \<noteq> Panic" for uri st c d
    by (auto simp: redirectError_def Let_def split: option.splits)
  then show ?thesis using assms by (simp add: Callback_def Let_def)
qed

definition ex_login :: AuthRequest where
  "ex_login =
     \<lparr>ar_ClientID = ''kargus'', ar_RedirectURI = ''https://h/cb'', ar_State = ''x'', ar_Nonce = [],
      ar_CodeChallenge = RawURLEncode (bytes_of ''v''), ar_CodeChallengeMethod = ''S256'', ar_Scope = ''openid'',
      ar_IdPNonce = ''n''\<rparr>"

definition ex_pending :: broker_world where
  "ex_pending =
     \<lparr>m_now = 0, m_auth = [''st'' \<mapsto> (ex_login, authRequestTTL)],
      m_codes = Map.empty, m_refresh = Map.empty, bw_rand = 0\<rparr>"

definition ex_callback :: Request where
  "ex_callback = \<lparr>rq_Query = [(''state'', ''st''), (''code'', ''idp-code'')], rq_PostForm = Inr [], rq_BasicAuth = None\<rparr>"

theorem callback_rejects_without_effect_witness:
  "snd (Callback (ex_deps\<lparr>d_Authenticate := \<lambda>c n w. (Inr (ex_identity\<lparr>id_EmailVerified := False\<rparr>), w)\<rparr>)
     ex_golib ex_cfg ex_callback ex_pending) = ex_pending\<lparr>m_auth := Map.empty\<rparr>"
proof -
  let ?D = "ex_deps\<lparr>d_Authenticate := \<lambda>c n w. (Inr (ex_identity\<lparr>id_EmailVerified := False\<rparr>), w)\<rparr>"
  let ?w1 = "ex_pending\<lparr>m_auth := Map.empty\<rparr>"
  obtain ar where t: "s_TakeAuthRequest (d_store ?D) (Get (rq_Query ex_callback) ''state'') ex_pending = (Inr ar, ?w1)"
    by (simp add: ex_deps_def memoryStore_def mem_TakeAuthRequest_def ex_callback_def Get_def ex_pending_def
        authRequestTTL_def)
  have a: "d_Authenticate ?D (Get (rq_Query ex_callback) ''code'') (ar_IdPNonce ar) ?w1 =
      (Inr (ex_identity\<lparr>id_EmailVerified := False\<rparr>), ?w1)" by simp
  from callback_rejects_without_effect [OF t a, of ex_golib ex_cfg] show ?thesis by simp
qed

text \<open>
  C23. The authorization endpoint redirects only for the configured client and to nowhere but
  the identity provider or the registered URI it was asked for; it starts a login only for a
  request of response type \<open>code\<close> with scope \<open>openid\<close> and an S256 challenge.
\<close>

theorem authorize_redirects_safely:
  assumes "Authorize D L cfg r w = (Redirect st u, w')"
  shows "Get (rq_Query r) ''client_id'' = cfg_ClientID cfg \<and>
    Get (rq_Query r) ''redirect_uri'' \<in> set (cfg_RedirectURIs cfg) \<and>
    ((\<exists>bs n. u = d_AuthURL D bs n \<and> Get (rq_Query r) ''response_type'' = ''code'' \<and>
        ''openid'' \<in> set (Fields (Get (rq_Query r) ''scope'')) \<and> Get (rq_Query r) ''code_challenge'' \<noteq> [] \<and>
        Get (rq_Query r) ''code_challenge_method'' = ''S256'') \<or>
     (\<exists>base q frag q'. url_parse L (Get (rq_Query r) ''redirect_uri'') = Some (base, q, frag) \<and>
        carries u base q' frag \<and> Get q' ''error'' \<noteq> []))"
proof -
  let ?q = "rq_Query r"
  have c: "Get ?q ''client_id'' = cfg_ClientID cfg" "RedirectAllowed cfg (Get ?q ''redirect_uri'')"
    using assms by (auto simp: Authorize_def Let_def split: if_splits)
  then have m: "Get ?q ''redirect_uri'' \<in> set (cfg_RedirectURIs cfg)"
    by (auto simp: RedirectAllowed_def list_ex_iff)
  have err: "\<exists>base q frag q'. url_parse L (Get ?q ''redirect_uri'') = Some (base, q, frag) \<and>
      carries u base q' frag \<and> Get q' ''error'' \<noteq> []"
    if "redirectError L (Get ?q ''redirect_uri'') s e d = Redirect st u" "e \<noteq> []" for s e d
    using that(1) by (rule redirectError_carries) (use that(2) in auto)
  let ?err = "\<lambda>e d. redirectError L (Get ?q ''redirect_uri'') (Get ?q ''state'') e d = Redirect st u"
  let ?login = "Get ?q ''response_type'' = ''code'' \<and> scopeHas (Get ?q ''scope'') ''openid'' \<and>
    Get ?q ''code_challenge'' \<noteq> [] \<and> Get ?q ''code_challenge_method'' = ''S256''"
  have "?login \<and> (\<exists>bs n. u = d_AuthURL D bs n) \<or>
      ?err ''unsupported_response_type'' ''only code is supported'' \<or> ?err ''invalid_scope'' ''openid scope required'' \<or>
      ?err ''invalid_request'' ''PKCE S256 required'' \<or> ?err ''server_error'' ''could not start login''"
    using assms c by (auto simp: Authorize_def Let_def split: if_splits prod.splits option.splits)
  then show ?thesis
  proof (elim disjE)
    assume l: "?login \<and> (\<exists>bs n. u = d_AuthURL D bs n)"
    then have "''openid'' \<in> set (Fields (Get ?q ''scope''))" by (auto simp: scopeHas_def list_ex_iff)
    with l c m show ?thesis by simp
  qed (use c m in \<open>auto dest!: err\<close>)
qed

definition ex_authorize :: "string \<Rightarrow> Request" where
  "ex_authorize method =
     \<lparr>rq_Query = [(''client_id'', ''kargus''), (''redirect_uri'', ''https://h/cb''), (''response_type'', ''code''),
        (''scope'', ''openid''), (''state'', ''x''), (''code_challenge'', ''ch''), (''code_challenge_method'', method)],
      rq_PostForm = Inr [], rq_BasicAuth = None\<rparr>"

theorem authorize_redirects_safely_witness:
  "\<exists>u. Authorize ex_deps ex_golib ex_cfg (ex_authorize ''plain'') ex_pending = (Redirect 302 u, ex_pending) \<and>
     (\<exists>base q frag q'. url_parse ex_golib ''https://h/cb'' = Some (base, q, frag) \<and>
        carries u base q' frag \<and> Get q' ''error'' \<noteq> [])"
proof -
  let ?r = "ex_authorize ''plain''" and ?cfg = ex_cfg
  have "\<exists>u. Authorize ex_deps ex_golib ?cfg ?r ex_pending = (Redirect 302 u, ex_pending)"
    by (simp add: Authorize_def ex_authorize_def ex_cfg_def RedirectAllowed_def Get_def Let_def scopeHas_def
        redirectError_def ex_golib_def Fields_def)
  then obtain u where h: "Authorize ex_deps ex_golib ?cfg ?r ex_pending = (Redirect 302 u, ex_pending)" by auto
  have m: "Get (rq_Query ?r) ''code_challenge_method'' = ''plain''" "Get (rq_Query ?r) ''redirect_uri'' = ''https://h/cb''"
    by (simp_all add: ex_authorize_def Get_def)
  from authorize_redirects_safely [OF h, unfolded m]
  have e: "\<exists>base q frag q'. url_parse ex_golib ''https://h/cb'' = Some (base, q, frag) \<and>
        carries u base q' frag \<and> Get q' ''error'' \<noteq> []" by simp
  show ?thesis by (rule exI [where x = u], rule conjI [OF h e])
qed

text \<open>
  C20. A login that ends well hands the client a code, on the URI it asked for and with the
  state it sent, that redeems on the in-process store for exactly the tokens that were issued,
  within two minutes, to a request of that client with that URI and the verifier behind the
  challenge of the login.
\<close>

theorem login_code_redeems:
  assumes store: "d_store D = memoryStore"
    and ar: "s_TakeAuthRequest (d_store D) (Get (rq_Query r) ''state'') w = (Inr ar, w1)"
    and noerr: "Get (rq_Query r) ''error'' = []"
    and auth: "d_Authenticate D (Get (rq_Query r) ''code'') (ar_IdPNonce ar) w1 = (Inr ident, w2)"
    and allowed: "id_EmailVerified ident" "AllowedDomain L cfg (id_Domain ident)"
    and issue: "issueTokens D cfg ident (ar_ClientID ar) (ar_Nonce ar) w2 = (Inr t, w3)"
    and code: "randToken D w3 = (code, w4)"
    and uri: "url_parse L (ar_RedirectURI ar) = Some (base, q, frag)"
    and r2: "Get (form_of r2) ''code'' = code" "clientIDOf r2 = ar_ClientID ar"
      "Get (form_of r2) ''redirect_uri'' = ar_RedirectURI ar"
      "cfg_ClientSecret cfg = [] \<or> presentedSecret r2 = cfg_ClientSecret cfg"
      "RawURLEncode (sha256 L (bytes_of (Get (form_of r2) ''code_verifier''))) = ar_CodeChallenge ar"
    and soon: "now \<le> m_now w4 + codeTTL"
  shows "\<exists>u q' w5. Callback D L cfg r w = (Redirect 302 u, w5) \<and> carries u base q' frag \<and>
    Get q' ''code'' = code \<and> (ar_State ar = [] \<or> Get q' ''state'' = ar_State ar) \<and>
    fst (handleAuthCode D L cfg r2 (w5\<lparr>m_now := now\<rparr>)) =
      writeTokenResponse (is_access t) (is_id t) (is_refresh t) (is_expiresIn t)"
proof -
  let ?w5 = "snd (mem_SaveCode code (codeGrant_of ar ident t) codeTTL w4)"
  have "s_SaveCode (d_store D) code (codeGrant_of ar ident t) codeTTL w4 = (None, ?w5)"
    by (simp add: store memoryStore_def mem_SaveCode_def)
  then have c: "Callback D L cfg r w = (redirectCode L ar code, ?w5)"
    by (simp add: Callback_def ar noerr auth allowed issueCode_def issue code)
  obtain u where u: "redirectCode L ar code = Redirect 302 u"
    using uri by (simp add: redirectCode_def Let_def)
  then obtain q' where q: "carries u base q' frag" "Get q' ''code'' = code"
      "ar_State ar \<noteq> [] \<Longrightarrow> Get q' ''state'' = ar_State ar"
    by (rule redirectCode_carries) (use uri in auto)
  have "s_TakeCode (d_store D) (Get (form_of r2) ''code'') (?w5\<lparr>m_now := now\<rparr>) =
      (Inr (codeGrant_of ar ident t), (?w5\<lparr>m_now := now\<rparr>)\<lparr>m_codes := (m_codes w4)(code := None)\<rparr>)"
    using soon by (simp add: store memoryStore_def mem_TakeCode_def mem_SaveCode_def r2)
  then have "fst (handleAuthCode D L cfg r2 (?w5\<lparr>m_now := now\<rparr>)) =
      writeTokenResponse (is_access t) (is_id t) (is_refresh t) (is_expiresIn t)"
    using r2 by (auto simp: handleAuthCode_def codeGrant_of_def validClientSecret_iff verifyPKCE_iff)
  moreover have "ar_State ar = [] \<or> Get q' ''state'' = ar_State ar" using q(3) by blast
  ultimately show ?thesis using q(1,2) by (intro exI [of _ u] exI [of _ q'] exI [of _ ?w5]) (simp only: c u simp_thms)
qed

definition ex_tokens :: issued where
  "ex_tokens = \<lparr>is_access = ''sa-token'', is_id = ''jwt'', is_refresh = RawURLEncode (replicate 32 0), is_expiresIn = 900\<rparr>"

definition ex_redeem :: Request where
  "ex_redeem =
     \<lparr>rq_Query = [], rq_PostForm = Inr [(''grant_type'', ''authorization_code''),
        (''code'', RawURLEncode (replicate 32 1)), (''client_id'', ''kargus''), (''redirect_uri'', ''https://h/cb''),
        (''code_verifier'', ''v'')],
      rq_BasicAuth = None\<rparr>"

lemma ex_take:
  "s_TakeAuthRequest (d_store ex_deps) (Get (rq_Query ex_callback) ''state'') ex_pending =
   (Inr ex_login, ex_pending\<lparr>m_auth := Map.empty\<rparr>)"
  by (simp add: ex_deps_def memoryStore_def mem_TakeAuthRequest_def ex_callback_def Get_def ex_pending_def
      authRequestTTL_def)

lemma ex_issue:
  "issueTokens ex_deps ex_cfg ex_identity (ar_ClientID ex_login) (ar_Nonce ex_login) (ex_pending\<lparr>m_auth := Map.empty\<rparr>) =
   (Inr ex_tokens, ex_pending\<lparr>m_auth := Map.empty, bw_rand := 1,
      m_refresh := [RawURLEncode (replicate 32 0) \<mapsto> (refreshGrant_of ex_identity ''kargus'', 12 * Hour)]\<rparr>)"
  by (simp add: issueTokens_def ex_deps_def ex_tokens_def signIDToken_def randToken_def memoryStore_def
      mem_SaveRefresh_def ex_pending_def ex_login_def ex_cfg_def)

theorem login_code_redeems_witness:
  "\<exists>u q' w5. Callback ex_deps ex_golib ex_cfg ex_callback ex_pending = (Redirect 302 u, w5) \<and>
     carries u ''https://h/cb'' q' [] \<and> Get q' ''code'' = RawURLEncode (replicate 32 1) \<and>
     (ar_State ex_login = [] \<or> Get q' ''state'' = ar_State ex_login) \<and>
     fst (handleAuthCode ex_deps ex_golib ex_cfg ex_redeem (w5\<lparr>m_now := Minute\<rparr>)) =
       writeTokenResponse (is_access ex_tokens) (is_id ex_tokens) (is_refresh ex_tokens) (is_expiresIn ex_tokens)"
proof (rule login_code_redeems)
  show "d_store ex_deps = memoryStore" by (simp add: ex_deps_def)
  show "s_TakeAuthRequest (d_store ex_deps) (Get (rq_Query ex_callback) ''state'') ex_pending =
      (Inr ex_login, ex_pending\<lparr>m_auth := Map.empty\<rparr>)" by (rule ex_take)
  show "issueTokens ex_deps ex_cfg ex_identity (ar_ClientID ex_login) (ar_Nonce ex_login) (ex_pending\<lparr>m_auth := Map.empty\<rparr>) =
      (Inr ex_tokens, ex_pending\<lparr>m_auth := Map.empty, bw_rand := 1,
         m_refresh := [RawURLEncode (replicate 32 0) \<mapsto> (refreshGrant_of ex_identity ''kargus'', 12 * Hour)]\<rparr>)"
    by (rule ex_issue)
  show "AllowedDomain ex_golib ex_cfg (id_Domain ex_identity)"
    by (simp add: AllowedDomain_def ex_golib_def ex_cfg_def ex_identity_def)
  show "randToken ex_deps (ex_pending\<lparr>m_auth := Map.empty, bw_rand := 1,
         m_refresh := [RawURLEncode (replicate 32 0) \<mapsto> (refreshGrant_of ex_identity ''kargus'', 12 * Hour)]\<rparr>) =
      (RawURLEncode (replicate 32 1), ex_pending\<lparr>m_auth := Map.empty, bw_rand := 2,
         m_refresh := [RawURLEncode (replicate 32 0) \<mapsto> (refreshGrant_of ex_identity ''kargus'', 12 * Hour)]\<rparr>)"
    by (simp add: randToken_def ex_deps_def ex_pending_def eval_nat_numeral)
qed (simp_all add: ex_deps_def ex_callback_def ex_redeem_def ex_login_def ex_golib_def ex_cfg_def ex_identity_def
  Get_def form_of_def clientIDOf_def randToken_def ex_pending_def codeTTL_def)

text \<open>
  C39. A registered redirect URI that does not parse makes a successful login crash: the tokens
  are minted and the code is saved before the handler dereferences the missing URL.
\<close>

theorem callback_crashes_after_issuing:
  assumes ar: "s_TakeAuthRequest (d_store D) (Get (rq_Query r) ''state'') w = (Inr ar, w1)"
    and noerr: "Get (rq_Query r) ''error'' = []"
    and auth: "d_Authenticate D (Get (rq_Query r) ''code'') (ar_IdPNonce ar) w1 = (Inr ident, w2)"
    and allowed: "id_EmailVerified ident" "AllowedDomain L cfg (id_Domain ident)"
    and issue: "issueTokens D cfg ident (ar_ClientID ar) (ar_Nonce ar) w2 = (Inr t, w3)"
    and code: "randToken D w3 = (code, w4)"
    and save: "s_SaveCode (d_store D) code (codeGrant_of ar ident t) codeTTL w4 = (None, w5)"
    and uri: "url_parse L (ar_RedirectURI ar) = None"
  shows "Callback D L cfg r w = (Panic, w5)"
  by (simp add: Callback_def ar noerr auth allowed issueCode_def issue code save redirectCode_def uri)

definition ex_badlib :: golib where
  "ex_badlib = ex_golib\<lparr>url_parse := \<lambda>_. None\<rparr>"

theorem callback_crashes_after_issuing_witness:
  "\<exists>w5. Callback ex_deps ex_badlib ex_cfg ex_callback ex_pending = (Panic, w5) \<and>
     m_codes w5 (RawURLEncode (replicate 32 1)) \<noteq> None"
proof -
  let ?w3 = "ex_pending\<lparr>m_auth := Map.empty, bw_rand := 1,
    m_refresh := [RawURLEncode (replicate 32 0) \<mapsto> (refreshGrant_of ex_identity ''kargus'', 12 * Hour)]\<rparr>"
  let ?w5 = "?w3\<lparr>bw_rand := 2, m_codes := [RawURLEncode (replicate 32 1) \<mapsto> (codeGrant_of ex_login ex_identity ex_tokens, codeTTL)]\<rparr>"
  have "Callback ex_deps ex_badlib ex_cfg ex_callback ex_pending = (Panic, ?w5)"
  proof (rule callback_crashes_after_issuing)
    show "s_TakeAuthRequest (d_store ex_deps) (Get (rq_Query ex_callback) ''state'') ex_pending =
        (Inr ex_login, ex_pending\<lparr>m_auth := Map.empty\<rparr>)" by (rule ex_take)
    show "issueTokens ex_deps ex_cfg ex_identity (ar_ClientID ex_login) (ar_Nonce ex_login) (ex_pending\<lparr>m_auth := Map.empty\<rparr>) =
        (Inr ex_tokens, ?w3)" by (rule ex_issue)
    show "randToken ex_deps ?w3 = (RawURLEncode (replicate 32 1), ?w3\<lparr>bw_rand := 2\<rparr>)"
      by (simp add: randToken_def ex_deps_def ex_pending_def eval_nat_numeral)
    show "AllowedDomain ex_badlib ex_cfg (id_Domain ex_identity)"
      by (simp add: AllowedDomain_def ex_golib_def ex_badlib_def ex_cfg_def ex_identity_def)
  qed (simp_all add: ex_deps_def ex_callback_def ex_badlib_def ex_identity_def Get_def ex_pending_def memoryStore_def
      mem_SaveCode_def)
  then show ?thesis by (intro exI [of _ ?w5] conjI) simp_all
qed

section \<open>The id_token\<close>

text \<open>
  The signed claims name the issuer the discovery document publishes, the client as
  audience, the identity's own e-mail, groups and nonce, a subject that is the provider's or
  else the e-mail, and they last for the configured lifetime from the time of signing.
\<close>

theorem id_token_claims:
  assumes "issueTokens D cfg ident clientID nonce w = (Inr t, w')"
    and "cfg_TokenLifetime cfg = n * Second"
  shows "\<exists>c now fs. d_Sign D (marshalIdClaims c) = Inr (is_id t) \<and> Discovery cfg = WriteJSON 200 (JObj fs) \<and>
    map_of fs ''issuer'' = Some (jstr (ic_Iss c)) \<and> ic_Aud c = clientID \<and> ic_Email c = id_Email ident \<and>
    ic_Groups c = map m_Gid (id_Groups ident) \<and> ic_Nonce c = nonce \<and>
    ic_Sub c \<in> {id_Subject ident, id_Email ident} \<and> (id_Email ident \<noteq> [] \<longrightarrow> ic_Sub c \<noteq> []) \<and>
    ic_Iat c = Unix now \<and> ic_Exp c = ic_Iat c + n"
proof -
  let ?iss = "TrimRight (cfg_Issuer cfg) ''/''" and ?c = "idClaims_of ident clientID nonce"
  let ?s = "\<lambda>w3. ?c\<lparr>ic_Iss := ?iss, ic_Iat := Unix (d_now D w3), ic_Exp := Unix (d_now D w3) + n\<rparr>"
  from assms(1) obtain w3 where "signIDToken D ?iss ?c (cfg_TokenLifetime cfg) w3 = Inr (is_id t)"
    by (rule issueTokens_ok)
  then have "d_Sign D (marshalIdClaims (?s w3)) = Inr (is_id t)"
    by (simp only: signIDToken_def Let_def assms(2) Unix_add)
  moreover obtain fs where "Discovery cfg = WriteJSON 200 (JObj fs)" "map_of fs ''issuer'' = Some (jstr ?iss)"
    by (simp add: Discovery_def Let_def)
  ultimately show ?thesis
    by (intro exI [of _ "?s w3"] exI [of _ "d_now D w3"] exI [of _ fs]) (simp add: idClaims_of_def gids_def)
qed

theorem id_token_claims_witness:
  "\<exists>c now fs. d_Sign ex_deps (marshalIdClaims c) = Inr (is_id ex_tokens) \<and> Discovery ex_cfg = WriteJSON 200 (JObj fs) \<and>
    map_of fs ''issuer'' = Some (jstr (ic_Iss c)) \<and> ic_Aud c = ar_ClientID ex_login \<and> ic_Email c = id_Email ex_identity \<and>
    ic_Groups c = map m_Gid (id_Groups ex_identity) \<and> ic_Nonce c = ar_Nonce ex_login \<and>
    ic_Sub c \<in> {id_Subject ex_identity, id_Email ex_identity} \<and> (id_Email ex_identity \<noteq> [] \<longrightarrow> ic_Sub c \<noteq> []) \<and>
    ic_Iat c = Unix now \<and> ic_Exp c = ic_Iat c + 900"
  by (rule id_token_claims [OF ex_issue]) (simp add: ex_cfg_def)

end
