(* ===== verification/Idp_Properties.thy ===== *)
theory Idp_Properties
  imports Idp Broker_Properties
begin

text \<open>
  What the broker can rely on from either provider, as the locale \<open>idp_provider\<close>: an identity
  comes from a token the verifier accepted, bound to the login by its nonce. Both providers
  keep it; the callback rests on it.
\<close>

section \<open>Domains and groups\<close>

lemma domainLoop_spec:
  "i \<le> length email \<Longrightarrow>
   (CHR ''@'' \<notin> set (take i email) \<and> domainLoop email i = []) \<or>
   (\<exists>p. p @ CHR ''@'' # domainLoop email i = email \<and> length p < i \<and> CHR ''@'' \<notin> set (drop (Suc (length p)) (take i email)))"
proof (induction i)
  case (Suc i)
  have t: "take (Suc i) email = take i email @ [email ! i]" using Suc.prems by (intro take_Suc_conv_app_nth) simp
  show ?case
  proof (cases "email ! i = CHR ''@''")
    case True
    have "take i email @ CHR ''@'' # drop (Suc i) email = email"
      using True Suc.prems id_take_nth_drop [of i email] by simp
    with True Suc.prems show ?thesis by (intro disjI2 exI [of _ "take i email"]) simp
  next
    case False
    with Suc t show ?thesis by auto
  qed
qed simp

lemma DomainOf_spec:
  "CHR ''@'' \<notin> set (DomainOf email) \<and>
   (if CHR ''@'' \<in> set email then \<exists>p. email = p @ CHR ''@'' # DomainOf email else DomainOf email = [])"
proof -
  from domainLoop_spec [OF order_refl, of email] show ?thesis
  proof (elim disjE exE conjE)
    fix p
    assume p: "p @ CHR ''@'' # domainLoop email (length email) = email"
      and n: "CHR ''@'' \<notin> set (drop (Suc (length p)) (take (length email) email))"
    have "drop (Suc (length p)) email = DomainOf email" unfolding DomainOf_def by (subst p [symmetric]) simp
    with n p show ?thesis unfolding DomainOf_def by (metis in_set_conv_decomp take_all order_refl)
  qed (simp_all add: DomainOf_def)
qed

definition groupIds :: "json list \<Rightarrow> string list" where
  "groupIds vs = filter (\<lambda>g. g \<noteq> []) (List.map_filter (\<lambda>v. case v of JStr g \<Rightarrow> Some g | _ \<Rightarrow> None) vs)"

lemma groupLoop_eq:
  "groupLoop d vs out = out @ map (\<lambda>g. \<lparr>m_Gid = g, m_Name = g, m_Domain = d\<rparr>) (groupIds vs)"
  by (induction vs arbitrary: out) (auto simp: groupIds_def List.map_filter_def split: json.splits)

section \<open>The contract of a provider\<close>

text \<open>The token says what the identity says of the e-mail address.\<close>

definition vouches :: "IDToken \<Rightarrow> Identity \<Rightarrow> bool" where
  "vouches tok ident \<longleftrightarrow>
     id_Email ident = asString (field (it_Claims tok) ''email'') \<and>
     id_EmailVerified ident = asBool (field (it_Claims tok) ''email_verified'')"

locale idp_provider =
  fixes authenticate :: "string \<Rightarrow> string \<Rightarrow> 'w \<Rightarrow> Identity res \<times> 'w"
    and verify :: "string \<Rightarrow> 'w \<Rightarrow> IDToken res \<times> 'w"
  assumes authenticated: "authenticate code nonce w = (Inr ident, w') \<Longrightarrow>
    \<exists>raw w1 tok w2. verify raw w1 = (Inr tok, w2) \<and> (nonce = [] \<or> it_Nonce tok = nonce) \<and> vouches tok ident"
begin

text \<open>A callback that touches the cluster has such a token behind it.\<close>

lemma callback_verified:
  assumes "d_Authenticate D = authenticate"
    and "s_TakeAuthRequest (d_store D) (Get (rq_Query r) ''state'') w = (Inr ar, w1)" and "ar_IdPNonce ar \<noteq> []"
    and "Callback (D\<lparr>d_Upsert := up\<rparr>) L cfg r w \<noteq> Callback D L cfg r w"
  shows "\<exists>raw w2 tok w3 ident. verify raw w2 = (Inr tok, w3) \<and> it_Nonce tok = ar_IdPNonce ar \<and>
    vouches tok ident \<and> id_EmailVerified ident \<and> AllowedDomain L cfg (id_Domain ident)"
proof -
  obtain x w2 where a: "authenticate (Get (rq_Query r) ''code'') (ar_IdPNonce ar) w1 = (x, w2)" by fastforce
  have n: "Get (rq_Query r) ''error'' = []"
    using assms(2,4) by (rule_tac ccontr) (simp add: Callback_def)
  from a assms n obtain ident where x: "x = Inr ident" and ok: "id_EmailVerified ident" "AllowedDomain L cfg (id_Domain ident)"
    by (cases x) (auto simp: Callback_def split: if_splits)
  obtain raw v tok v' where t: "verify raw v = (Inr tok, v')"
      "ar_IdPNonce ar = [] \<or> it_Nonce tok = ar_IdPNonce ar" "vouches tok ident"
    using authenticated [OF a [unfolded x]] by (elim exE conjE) (rule that)
  then show ?thesis using ok assms(3) by (intro exI conjI) auto
qed

end

lemma getStr_asString: "getStr v k = Inr s \<Longrightarrow> asString (field v k) = s"
  by (auto simp: getStr_def asString_def split: option.splits json.splits)

lemma getBool_asBool: "getBool v k = Inr b \<Longrightarrow> asBool (field v k) = b"
  by (auto simp: getBool_def asBool_def split: option.splits json.splits)

lemma unmarshalGoogleClaims_ok:
  assumes "unmarshalGoogleClaims v = Inr c"
  shows "gc_Email c = asString (field v ''email'')" and "gc_EmailVerified c = asBool (field v ''email_verified'')"
    and "gc_HostedDomain c = asString (field v ''hd'')"
  using assms
  by (auto simp: unmarshalGoogleClaims_def andThen_def getStr_asString getBool_asBool split: sum.splits)

lemma claimsMap_field: "claimsMap v = Inr m \<Longrightarrow> m k = field v k"
  by (auto simp: claimsMap_def field_def split: json.splits)

lemma oidc_Authenticate_ok:
  assumes "oidc_Authenticate I p code nonce w = (Inr ident, w')"
  obtains raw w1 tok m where "il_Verify I (op_issuer p) (oa_ClientID (op_oauth p)) raw w1 = (Inr tok, w')"
    and "nonce = [] \<or> it_Nonce tok = nonce" and "claimsMap (it_Claims tok) = Inr m" and "ident = oidc_identity p tok m"
  using assms unfolding oidc_Authenticate_def
  by (auto split: prod.splits sum.splits option.splits json.splits if_splits)

lemma google_Authenticate_ok:
  assumes "google_Authenticate I p code nonce w = (Inr ident, w')"
  obtains raw w1 tok w2 c gs where "il_Verify I (gp_issuer p) (oa_ClientID (gp_oauth p)) raw w1 = (Inr tok, w2)"
    and "nonce = [] \<or> it_Nonce tok = nonce" and "unmarshalGoogleClaims (it_Claims tok) = Inr c"
    and "fetchGroups I p (gc_Email c) (gc_HostedDomain c) w2 = (Inr gs, w')"
    and "ident = \<lparr>id_Subject = gc_Subject c, id_Email = gc_Email c, id_EmailVerified = gc_EmailVerified c,
      id_Domain = gc_HostedDomain c, id_Name = gc_Name c, id_Groups = gs\<rparr>"
  using assms unfolding google_Authenticate_def
  by (auto split: prod.splits sum.splits option.splits json.splits if_splits)


interpretation google: idp_provider "google_Authenticate I p" "il_Verify I (gp_issuer p) (oa_ClientID (gp_oauth p))" for I p
proof
  fix code nonce w ident w'
  assume "google_Authenticate I p code nonce w = (Inr ident, w')"
  then obtain raw w1 tok w2 c gs where "il_Verify I (gp_issuer p) (oa_ClientID (gp_oauth p)) raw w1 = (Inr tok, w2)"
    and "nonce = [] \<or> it_Nonce tok = nonce" and c: "unmarshalGoogleClaims (it_Claims tok) = Inr c"
    and "ident = \<lparr>id_Subject = gc_Subject c, id_Email = gc_Email c, id_EmailVerified = gc_EmailVerified c,
      id_Domain = gc_HostedDomain c, id_Name = gc_Name c, id_Groups = gs\<rparr>"
    by (rule google_Authenticate_ok)
  moreover from this have "vouches tok ident" by (simp add: vouches_def unmarshalGoogleClaims_ok [OF c])
  ultimately show "\<exists>raw w1 tok w2. il_Verify I (gp_issuer p) (oa_ClientID (gp_oauth p)) raw w1 = (Inr tok, w2) \<and>
      (nonce = [] \<or> it_Nonce tok = nonce) \<and> vouches tok ident" by blast
qed

section \<open>Properties\<close>



text \<open>A generic provider that knows one user.\<close>

definition ex_claims :: json where
  "ex_claims = JObj [(''email'', JStr ''ana@acme.io''), (''email_verified'', JBool True), (''name'', JStr ''Ana''),
     (''groups'', JArr [JStr ''eng'', JInt 7, JStr []])]"

definition ex_idplib :: "broker_world idplib" where
  "ex_idplib =
     \<lparr>il_NewProvider = \<lambda>iss w. (Inr iss, w), il_AuthCodeURL = \<lambda>c st n. oa_Endpoint c @ st,
      il_Exchange = \<lambda>c code w. (Inr (Some (JStr ''raw'')), w),
      il_Verify = \<lambda>iss cid raw w. (Inr \<lparr>it_Subject = ''s-1'', it_Nonce = ''n'', it_Claims = ex_claims\<rparr>, w),
      il_ReadFile = \<lambda>f w. (Inr ''key'', w), il_DefaultCredentials = \<lambda>w. (Inr [], w), il_JWTConfig = \<lambda>k. None,
      il_NewService = \<lambda>k a w. (Inr a, w), il_Pages = \<lambda>d e n w. (([[\<lparr>dg_Id = ''g1'', dg_Name = ''G1''\<rparr>]], None), w)\<rparr>"

definition ex_oidc :: OidcProvider where
  "ex_oidc = \<lparr>op_oauth = oauthConfig (cfg_IdP ex_cfg) ''https://idp/auth'', op_issuer = ''https://idp'', op_groupsClaim = ''groups''\<rparr>"

definition ex_oidc_identity :: Identity where
  "ex_oidc_identity =
     \<lparr>id_Subject = ''s-1'', id_Email = ''ana@acme.io'', id_EmailVerified = True, id_Domain = ''acme.io'', id_Name = ''Ana'',
      id_Groups = [\<lparr>m_Gid = ''eng'', m_Name = ''eng'', m_Domain = ''acme.io''\<rparr>]\<rparr>"

lemma ex_oidc_Authenticate: "oidc_Authenticate ex_idplib ex_oidc code ''n'' w = (Inr ex_oidc_identity, w)"
  by (simp add: oidc_Authenticate_def ex_idplib_def ex_oidc_def claimsMap_def ex_claims_def oidc_identity_def
      ex_oidc_identity_def asString_def asBool_def ParseGroups_def DomainOf_def Let_def eval_nat_numeral)




text \<open>
  The identity of the generic provider: its domain is what follows the last at-sign of its
  e-mail address (nothing, if there is none), so the allowlist judges the address itself; its
  groups are the non-empty strings of the configured claim, in order, all of that domain.
\<close>

theorem oidc_identity_exact:
  assumes "oidc_Authenticate I p code nonce w = (Inr ident, w')"
  shows "CHR ''@'' \<notin> set (id_Domain ident) \<and>
    (if CHR ''@'' \<in> set (id_Email ident) then \<exists>q. id_Email ident = q @ CHR ''@'' # id_Domain ident
     else id_Domain ident = []) \<and>
    (\<exists>raw w1 tok. il_Verify I (op_issuer p) (oa_ClientID (op_oauth p)) raw w1 = (Inr tok, w') \<and>
       id_Groups ident = (case field (it_Claims tok) (op_groupsClaim p) of
         Some (JArr vs) \<Rightarrow> map (\<lambda>g. \<lparr>m_Gid = g, m_Name = g, m_Domain = id_Domain ident\<rparr>) (groupIds vs) | _ \<Rightarrow> []))"
proof -
  obtain raw w1 tok m where v: "il_Verify I (op_issuer p) (oa_ClientID (op_oauth p)) raw w1 = (Inr tok, w')"
    and m: "claimsMap (it_Claims tok) = Inr m" and i: "ident = oidc_identity p tok m"
    using assms by (rule oidc_Authenticate_ok)
  have d: "id_Domain ident = DomainOf (id_Email ident)" by (simp add: i oidc_identity_def Let_def)
  have "id_Groups ident = (case field (it_Claims tok) (op_groupsClaim p) of
      Some (JArr vs) \<Rightarrow> map (\<lambda>g. \<lparr>m_Gid = g, m_Name = g, m_Domain = id_Domain ident\<rparr>) (groupIds vs) | _ \<Rightarrow> [])"
    by (simp add: i oidc_identity_def Let_def ParseGroups_def claimsMap_field [OF m] groupLoop_eq
        split: option.splits json.splits)
  with v DomainOf_spec [of "id_Email ident"] show ?thesis unfolding d by blast
qed

theorem oidc_identity_exact_witness:
  "oidc_Authenticate ex_idplib ex_oidc ''c'' ''n'' ex_pending = (Inr ex_oidc_identity, ex_pending) \<and>
   (\<exists>q. id_Email ex_oidc_identity = q @ CHR ''@'' # id_Domain ex_oidc_identity)"
proof -
  have "CHR ''@'' \<in> set (id_Email ex_oidc_identity)" by (simp add: ex_oidc_identity_def)
  with oidc_identity_exact [OF ex_oidc_Authenticate [of "''c''" ex_pending]] ex_oidc_Authenticate show ?thesis by simp
qed

text \<open>
  A Google account outside any Workspace domain (no \<open>hd\<close> claim) cannot log in, whatever the
  configuration allows: no configuration that loads admits the empty domain, so the callback
  answers \<open>access_denied\<close>.
\<close>

theorem google_consumer_rejected:
  assumes "Load L E = Inr cfg" and "d_Authenticate D = Authenticate I (Google p)"
    and "s_TakeAuthRequest (d_store D) (Get (rq_Query r) ''state'') w = (Inr ar, w1)"
    and "Get (rq_Query r) ''error'' = []"
    and "google_Authenticate I p (Get (rq_Query r) ''code'') (ar_IdPNonce ar) w1 = (Inr ident, w2)"
    and "\<And>raw v tok v'. il_Verify I (gp_issuer p) (oa_ClientID (gp_oauth p)) raw v = (Inr tok, v') \<Longrightarrow>
      field (it_Claims tok) ''hd'' = None"
  shows "Callback D L cfg r w =
    (redirectError L (ar_RedirectURI ar) (ar_State ar) ''access_denied'' ''domain or email not allowed'', w2)"
proof -
  obtain raw v tok v' c gs where t: "il_Verify I (gp_issuer p) (oa_ClientID (gp_oauth p)) raw v = (Inr tok, v')"
    and c: "unmarshalGoogleClaims (it_Claims tok) = Inr c"
    and i: "ident = \<lparr>id_Subject = gc_Subject c, id_Email = gc_Email c, id_EmailVerified = gc_EmailVerified c,
      id_Domain = gc_HostedDomain c, id_Name = gc_Name c, id_Groups = gs\<rparr>"
    using assms(5) by (rule google_Authenticate_ok)
  have "id_Domain ident = []"
    using unmarshalGoogleClaims_ok(3) [OF c] assms(6) [OF t] by (simp add: i asString_def)
  moreover have "\<not> AllowedDomain L cfg []" using assms(1) by (rule Load_no_empty_domain)
  ultimately show ?thesis by (simp add: Callback_def assms)
qed

definition ex_google :: GoogleProvider where
  "ex_google = \<lparr>gp_oauth = oauthConfig (cfg_IdP ex_cfg) ''https://idp/auth'', gp_issuer = ''https://accounts.google.com'', gp_dir = []\<rparr>"

theorem google_consumer_rejected_witness:
  "\<exists>cfg. Load ex_golib ex_environ = Inr cfg \<and>
     Callback (ex_deps\<lparr>d_Authenticate := Authenticate ex_idplib (Google ex_google)\<rparr>) ex_golib cfg ex_callback ex_pending =
       (redirectError ex_golib ''https://h/cb'' ''x'' ''access_denied'' ''domain or email not allowed'', ex_pending\<lparr>m_auth := Map.empty\<rparr>)"
proof -
  let ?D = "ex_deps\<lparr>d_Authenticate := Authenticate ex_idplib (Google ex_google)\<rparr>" and ?w1 = "ex_pending\<lparr>m_auth := Map.empty\<rparr>"
  have l: "Load ex_golib ex_environ = Inr (loadConfig ex_golib ex_environ)" by (simp add: Load_cases ex_environ_ok)
  have t: "s_TakeAuthRequest (d_store ?D) (Get (rq_Query ex_callback) ''state'') ex_pending = (Inr ex_login, ?w1)"
    using ex_take by simp
  obtain ident where a: "google_Authenticate ex_idplib ex_google (Get (rq_Query ex_callback) ''code'') (ar_IdPNonce ex_login) ?w1 =
      (Inr ident, ?w1)"
    by (simp add: google_Authenticate_def ex_idplib_def ex_login_def unmarshalGoogleClaims_def ex_claims_def
        get_defs fetchGroups_def)
  have "Callback ?D ex_golib (loadConfig ex_golib ex_environ) ex_callback ex_pending =
      (redirectError ex_golib (ar_RedirectURI ex_login) (ar_State ex_login) ''access_denied'' ''domain or email not allowed'', ?w1)"
  proof (rule google_consumer_rejected [OF l _ t _ a])
    show "Get (rq_Query ex_callback) ''error'' = []" by (simp add: ex_callback_def Get_def)
  qed (auto simp: ex_idplib_def ex_claims_def field_def)
  with l show ?thesis by (simp add: ex_login_def)
qed

end
