(* ===== verification/Go_Utf8.thy ===== *)
theory Go_Utf8
  imports K8s_Name Store_Redis
begin

text \<open>
  UTF-8 round trips: every rune that decoding yields is encoded and decoded again as itself, so
  replacing invalid bytes changes neither the runes of a string nor the resource name made of it.
\<close>

definition scalar :: "rune \<Rightarrow> bool" where
  "scalar r \<longleftrightarrow> r \<le> 1114111 \<and> \<not> (55296 \<le> r \<and> r \<le> 57343)"

lemma bytes_lt [simp]: "byte_val c < 256"
  using of_char_mod_256 [of c] by (metis mod_less_divisor zero_less_numeral)

lemma two_scalar: "b0 \<le> 223 \<Longrightarrow> cont b1 \<Longrightarrow> scalar ((b0 - 192) * 64 + (b1 - 128))"
  by (auto simp: scalar_def cont_def)

lemma scalar_digits3:
  assumes "a \<le> 15" "b \<le> 63" "c \<le> 63" "a = 13 \<Longrightarrow> b \<le> 31"
  shows "scalar (a * 4096 + b * 64 + c)"
proof -
  consider "a \<le> 12" | "a = 13" | "14 \<le> a" by linarith
  then have "a * 4096 + b * 64 + c < 55296 \<or> 57343 < a * 4096 + b * 64 + c"
    using assms by cases linarith+
  moreover have "a * 4096 + b * 64 + c \<le> 1114111" using assms by linarith
  ultimately show ?thesis unfolding scalar_def by linarith
qed

lemma scalar_digits4:
  assumes "a \<le> 4" "b \<le> 63" "c \<le> 63" "d \<le> 63" "a = 0 \<Longrightarrow> 16 \<le> b" "a = 4 \<Longrightarrow> b \<le> 15"
  shows "scalar (a * 262144 + b * 4096 + c * 64 + d)"
proof -
  consider "a = 0" | "1 \<le> a" "a \<le> 3" | "a = 4" using assms(1) by linarith
  then have "57343 < a * 262144 + b * 4096 + c * 64 + d" "a * 262144 + b * 4096 + c * 64 + d \<le> 1114111"
    using assms by (cases; linarith)+
  then show ?thesis unfolding scalar_def by linarith
qed

lemma three_scalar:
  assumes "224 \<le> b0" "b0 \<le> 239" "second_ok b0 b1" "cont b2"
  shows "scalar ((b0 - 224) * 4096 + (b1 - 128) * 64 + (b2 - 128))"
proof (rule scalar_digits3)
  show "b0 - 224 = 13 \<Longrightarrow> b1 - 128 \<le> 31" using assms by (auto simp: second_ok_def split: if_splits)
qed (use assms in \<open>auto simp: second_ok_def cont_def split: if_splits\<close>)

lemma four_scalar:
  assumes "240 \<le> b0" "b0 \<le> 244" "second_ok b0 b1" "cont b2" "cont b3"
  shows "scalar ((b0 - 240) * 262144 + (b1 - 128) * 4096 + (b2 - 128) * 64 + (b3 - 128))"
proof (rule scalar_digits4)
  show "b0 - 240 = 0 \<Longrightarrow> 16 \<le> b1 - 128" using assms by (auto simp: second_ok_def split: if_splits)
  show "b0 - 240 = 4 \<Longrightarrow> b1 - 128 \<le> 15" using assms by (auto simp: second_ok_def split: if_splits)
qed (use assms in \<open>auto simp: second_ok_def cont_def split: if_splits\<close>)

lemma RuneError_scalar [simp]: "scalar RuneError"
  by (simp add: scalar_def RuneError_def)

lemma ascii_scalar: "r < 128 \<Longrightarrow> scalar r"
  by (simp add: scalar_def)

lemma decode_scalar: "scalar (fst (decode_rune bs))"
proof (cases bs)
  case (Cons b0 cs)
  show ?thesis unfolding Cons decode_rune.simps(2)
    using two_scalar [of b0] three_scalar [of b0] four_scalar [of b0] ascii_scalar [of b0]
    by (simp split: list.split)
qed simp

lemma chunks_scalar: "(r, x) \<in> set (chunks s) \<Longrightarrow> scalar r"
proof (induction s rule: chunks.induct)
  case (2 c cs)
  have "scalar (fst (decode_rune (map byte_val (c # cs))))" by (rule decode_scalar)
  with 2 show ?case by (auto simp: Let_def)
qed simp

lemma runes_scalar: "r \<in> set (runes s) \<Longrightarrow> scalar r"
  by (auto simp: runes_def dest: chunks_scalar)

lemma decode_encode:
  assumes "scalar r"
  shows "decode_rune (map byte_val (encode_rune r @ s)) = (r, length (encode_rune r))"
proof -
  have r: "\<not> (1114111 < r \<or> (55296 \<le> r \<and> r \<le> 57343))" using assms by (auto simp: scalar_def)
  define q1 d where "q1 = r div 64" and "d = r mod 64"
  define q2 c where "q2 = q1 div 64" and "c = q1 mod 64"
  define a b where "a = q2 div 64" and "b = q2 mod 64"
  have lt: "d < 64" "c < 64" "b < 64" by (simp_all add: d_def c_def b_def)
  have eq: "r = 64 * q1 + d" "q1 = 64 * q2 + c" "q2 = 64 * a + b"
    by (simp_all add: q1_def d_def q2_def c_def a_def b_def)
  have dv: "r div 64 = q1" "r mod 64 = d" "r div 4096 = q2" "q1 mod 64 = c" "r div 262144 = a" "q2 mod 64 = b"
    by (simp_all add: q1_def d_def q2_def c_def a_def b_def flip: div_mult2_eq)
  consider "r < 128" | "128 \<le> r" "r < 2048" | "2048 \<le> r" "r < 65536" | "65536 \<le> r" "r \<le> 1114111"
    using r by linarith
  then show ?thesis
  proof cases
    case 1
    then show ?thesis using r by (simp add: encode_rune_def decode_rune.simps)
  next
    case 2
    with eq lt have "2 \<le> q1" "q1 < 32" by linarith+
    then have b: "map byte_val (encode_rune r) = [192 + q1, 128 + d]"
      using 2 lt unfolding encode_rune_def if_not_P [OF r] Let_def by (simp add: dv take_bit_eq_mod)
    have "decode_rune ([192 + q1, 128 + d] @ map byte_val s) = (q1 * 64 + d, 2)"
      using \<open>2 \<le> q1\<close> \<open>q1 < 32\<close> lt by (simp add: decode_rune.simps cont_def)
    with b eq show ?thesis by (simp flip: length_map [of byte_val])
  next
    case 3
    with eq lt have q: "q2 < 16" "q2 = 0 \<Longrightarrow> 32 \<le> c" by linarith+
    have s: "q2 = 13 \<Longrightarrow> c < 32" using r eq(1,2) lt by linarith
    have "second_ok (224 + q2) (128 + c)" using q s lt by (auto simp: second_ok_def cont_def)
    then have "decode_rune ([224 + q2, 128 + c, 128 + d] @ map byte_val s) = (q2 * 4096 + c * 64 + d, 3)"
      using q(1) lt by (simp add: decode_rune.simps cont_def)
    moreover have "map byte_val (encode_rune r) = [224 + q2, 128 + c, 128 + d]"
      using 3 lt q(1) unfolding encode_rune_def if_not_P [OF r] Let_def by (simp add: dv take_bit_eq_mod)
    ultimately show ?thesis using eq by (simp flip: length_map [of byte_val])
  next
    case 4
    with eq lt have q: "a < 5" "a = 0 \<Longrightarrow> 16 \<le> b" "a = 4 \<Longrightarrow> b < 16" by linarith+
    have "second_ok (240 + a) (128 + b)" using q lt by (auto simp: second_ok_def cont_def)
    then have "decode_rune ([240 + a, 128 + b, 128 + c, 128 + d] @ map byte_val s) = (a * 262144 + b * 4096 + c * 64 + d, 4)"
      using q(1) lt by (simp add: decode_rune.simps cont_def)
    moreover have "map byte_val (encode_rune r) = [240 + a, 128 + b, 128 + c, 128 + d]"
      using 4 lt q(1) unfolding encode_rune_def if_not_P [OF r] Let_def by (simp add: dv take_bit_eq_mod)
    ultimately show ?thesis using eq by (simp flip: length_map [of byte_val])
  qed
qed

lemma chunks_encode:
  assumes "scalar r"
  shows "chunks (encode_rune r @ s) = (r, encode_rune r) # chunks s"
proof -
  obtain x xs where x: "encode_rune r = x # xs" by (cases "encode_rune r") (auto simp: encode_rune_def Let_def split: if_splits)
  have "decode_rune (map byte_val (x # xs @ s)) = (r, Suc (length xs))" using decode_encode [OF assms, of s] by (simp add: x)
  then show ?thesis by (simp add: x)
qed

lemma runes_encode_list: "(\<And>r. r \<in> set rs \<Longrightarrow> scalar r) \<Longrightarrow> runes (concat (map encode_rune rs)) = rs"
  by (induction rs) (simp_all add: runes_def chunks_encode)

lemma runes_coerceUTF8 [simp]: "runes (coerceUTF8 s) = runes s"
  unfolding coerceUTF8_def by (rule runes_encode_list) (rule runes_scalar)

lemma coerceUTF8_idem [simp]: "coerceUTF8 (coerceUTF8 s) = coerceUTF8 s"
  unfolding coerceUTF8_def [of "coerceUTF8 s"] runes_coerceUTF8 by (simp add: coerceUTF8_def)

lemma SanitizeName_coerceUTF8: "SanitizeName U (coerceUTF8 s) = SanitizeName U s"
  by (simp add: SanitizeName_def ToLower_def)

end
