(* ===== verification/System.thy ===== *)
theory System
  imports Server_Main Proxy_Properties Idp_Properties Go_Utf8
begin

text \<open>
  The services put together: what the tokens of an assembled broker (\<open>runServer\<close>) are bound
  to, what the claims of its id_token say to the proxy, and an example of a broker and a proxy
  before one cluster in memory.
\<close>

section \<open>Tokens of an assembled broker\<close>

lemma coerceUTF8_Nil_iff [simp]: "coerceUTF8 s = [] \<longleftrightarrow> s = []"
  by (metis runes_coerceUTF8 runes_Nil_iff)

lemma mainDeps_sel [simp]:
  "d_Upsert (mainDeps K W L I rand cfg st p) =
     Upsert K L (NewBinder (cfg_BindNamespace cfg) (cfg_BindTTL cfg) waitBindedTimeout)"
  "d_WaitBinded (mainDeps K W L I rand cfg st p) =
     waitBinded K W (NewBinder (cfg_BindNamespace cfg) (cfg_BindTTL cfg) waitBindedTimeout)"
  "d_Mint (mainDeps K W L I rand cfg st p) =
     Mint K (NewMinter (cfg_BindNamespace cfg) (cfg_TokenAudiences cfg) (wholeSeconds (cfg_TokenLifetime cfg)))"
  "d_store (mainDeps K W L I rand cfg st p) = st" "d_Read (mainDeps K W L I rand cfg st p) = rand"
  "d_now (mainDeps K W L I rand cfg st p) = k_now K"
  by (simp_all add: mainDeps_def Let_def)

lemma NewBinder_sel [simp]:
  "b_namespace (NewBinder ns ttl t) = ns" "b_ttl (NewBinder ns ttl t) = ttl" "0 < b_pollInterval (NewBinder ns ttl t)"
  "b_timeout (NewBinder ns ttl t) = t"
  by (simp_all add: NewBinder_def)

lemma Mint_ok:
  assumes "Mint K (NewMinter ns auds secs) sa w = (Inr tok, w')"
  shows "k_createToken K (ns, sa) auds secs w = (Inr (tok_AccessToken tok), w')" and "tok_ExpiresIn tok = secs"
  using assms by (auto simp: Mint_def NewMinter_def split: prod.splits sum.splits)

section \<open>The claims the proxy reads\<close>

lemma email_claim:
  assumes "marshalIdClaims c = JObj fs" and "ic_Email c \<noteq> []"
  shows "as_string (map_of fs ''email'') \<noteq> []"
    and "SanitizeName U (as_string (map_of fs ''email'')) = SanitizeName U (ic_Email c)"
proof -
  have "map_of fs ''email'' = Some (JStr (coerceUTF8 (ic_Email c)))"
    using assms by (auto simp: marshalIdClaims_def omitempty_def jstr_def)
  then show "as_string (map_of fs ''email'') \<noteq> []"
    and "SanitizeName U (as_string (map_of fs ''email'')) = SanitizeName U (ic_Email c)"
    using assms(2) by (simp_all add: as_string_def SanitizeName_coerceUTF8)
qed

lemma signIDToken_claims:
  assumes "signIDToken D iss (idClaims_of ident cid nonce) ttl w = Inr tok"
  obtains c fs where "d_Sign D (JObj fs) = Inr tok" and "marshalIdClaims c = JObj fs" and "ic_Email c = id_Email ident"
    and "ic_Iss c = iss"
proof -
  let ?c = "(idClaims_of ident cid nonce)\<lparr>ic_Iss := iss, ic_Iat := Unix (d_now D w), ic_Exp := Unix (d_now D w + ttl)\<rparr>"
  obtain fs where fs: "marshalIdClaims ?c = JObj fs" by (simp add: marshalIdClaims_def)
  then have "d_Sign D (JObj fs) = Inr tok" using assms by (simp add: signIDToken_def Let_def)
  then show ?thesis by (rule that [OF _ fs]) (simp_all add: idClaims_of_def)
qed

section \<open>An example\<close>

record server_world = memory +
  sv_mem :: mem

abbreviation put_sv :: "mem \<Rightarrow> server_world \<Rightarrow> server_world" where
  "put_sv m w \<equiv> w\<lparr>sv_mem := m\<rparr>"

interpretation server_lens: lens sv_mem put_sv
  by unfold_locales simp

abbreviation server_kube :: "server_world kube" where
  "server_kube \<equiv> lift_kube sv_mem put_sv (mem_api False)"

abbreviation server_waiter :: "server_world waiter" where
  "server_waiter \<equiv> lift_waiter sv_mem put_sv mem_waiter"

interpretation server_client: bind_client server_kube server_waiter "\<lambda>w. mem_view (sv_mem w)"
  by (rule server_lens.lifted_client) (rule mem_client.bind_client_axioms)

definition ex_jose :: "(string, server_world) joselib" where
  "ex_jose =
     \<lparr>jl_GenerateKey = \<lambda>w. (Inr ''key'', w), jl_PemDecode = \<lambda>_. None, jl_PKCS1 = \<lambda>_. Inl (Errorf []), jl_PKCS8 = \<lambda>_. Inr None,
      jl_Public = \<lambda>k. k, jl_Thumbprint = \<lambda>_. Inr [1, 2, 3], jl_NewSigner = \<lambda>k kid. None,
      jl_Sign = \<lambda>k kid j. Inr (''jwt.'' @ asString (field j ''email'')), jl_MarshalJWK = \<lambda>k. JStr (jwk_KeyID k)\<rparr>"

definition ex_server_idp :: "server_world idplib" where
  "ex_server_idp =
     \<lparr>il_NewProvider = \<lambda>iss w. (Inr iss, w), il_AuthCodeURL = \<lambda>c st n. st, il_Exchange = \<lambda>c code w. (Inr None, w),
      il_Verify = \<lambda>iss cid raw w. (Inl (Errorf []), w), il_ReadFile = \<lambda>f w. (Inl (Errorf []), w),
      il_DefaultCredentials = \<lambda>w. (Inr [], w), il_JWTConfig = \<lambda>k. None, il_NewService = \<lambda>k a w. (Inr a, w),
      il_Pages = \<lambda>d e n w. (([], None), w)\<rparr>"

definition ex_redis :: "redisOptions \<Rightarrow> server_world redis" where
  "ex_redis _ =
     \<lparr>r_Set = \<lambda>k v ttl w. (Some (Errorf ''down''), w), r_GetDel = \<lambda>k w. (Inl (Errorf ''down''), w),
      r_Ping = \<lambda>w. (Some (Errorf ''down''), w)\<rparr>"

definition ex_rand :: "server_world \<Rightarrow> byte list \<times> server_world" where
  "ex_rand w = (replicate 32 7, w)"

definition ex_server_environ :: environ where
  "ex_server_environ = ex_environ(''BIND_NAMESPACE'' := ''kargus'', ''BIND_TTL'' := ''8h'')"

definition ex_server_cfg :: Config where
  "ex_server_cfg = loadConfig ex_lib ex_server_environ"

definition ex_server_world :: server_world where
  "ex_server_world =
     \<lparr>m_now = 0, m_auth = Map.empty, m_codes = Map.empty, m_refresh = Map.empty,
      sv_mem = ex_bound_world 0 (ex_bind [finalizer] BindBinded)\<rparr>"

abbreviation ex_runServer where
  "ex_runServer \<equiv> runServer (Inr (server_kube, server_waiter)) ex_lib ex_server_idp ex_jose ex_redis ex_rand ex_server_environ"

lemma ex_server_cfg_sel [simp]:
  "cfg_BindNamespace ex_server_cfg = ''kargus''" "cfg_BindTTL ex_server_cfg = ''8h''"
  "cfg_TokenAudiences ex_server_cfg = []" "cfg_TokenLifetime ex_server_cfg = 900 * Second"
  "st_Backend (cfg_Store ex_server_cfg) = ''memory''" "idp_Type (cfg_IdP ex_server_cfg) = ''oidc''"
  "cfg_IDTokenSigningKey ex_server_cfg = []"
  by (simp_all add: ex_server_cfg_def loadConfig_def ex_server_environ_def ex_environ_def env_def envInt_def splitCSV_def
      seconds_def wrap64_def loadIdP_def Let_def)

lemma ex_server_Load: "Load ex_lib ex_server_environ = Inr ex_server_cfg"
proof -
  have "config_ok (loadConfig ex_lib ex_server_environ)"
    by (simp add: config_ok_def loadConfig_def loadIdP_def ex_server_environ_def ex_environ_def env_def splitCSV_def
        TrimSpace_def decode_rune.simps IsSpace_def Let_def)
  then show ?thesis by (simp add: Load_cases ex_server_cfg_def)
qed

lemma ex_runServer:
  "\<exists>D sg. ex_runServer ex_server_world = (Inr (ex_server_cfg, D, sg), ex_server_world)"
  by (simp add: runServer_def ex_server_Load store_New_def idp_New_def oidc_New_def ex_server_idp_def broker_New_def
      newSigner_def ex_jose_def ex_server_world_def Let_def)

lemma ex_server_Upsert:
  "\<exists>b' w1. Upsert server_kube ex_lib (NewBinder ''kargus'' ''8h'' waitBindedTimeout) ex_user ex_server_world = (Inr ''ana'', w1) \<and>
     mw_binds (sv_mem w1) = [b'] \<and> nsname_of b' = ex_key \<and> phase b' = BindBinded \<and> mw_sas (sv_mem w1) = [ex_sa] \<and>
     mw_now (sv_mem w1) = 0"
proof -
  have n: "SanitizeName ex_lib (id_Email ex_user) = ''ana''" by (simp add: ex_user_def SanitizeName_Ana)
  let ?b = "stamped (NewBinder ''kargus'' ''8h'' waitBindedTimeout) ''ana'' ex_user 0 (ex_bind [finalizer] BindBinded)"
  have "stored (updated (ex_bind [finalizer] BindBinded) ?b) = Some (updated (ex_bind [finalizer] BindBinded) ?b)"
    "phase (updated (ex_bind [finalizer] BindBinded) ?b) = BindBinded"
    "nsname_of ?b = ex_key"
    by (simp_all add: stored_def updated_def stamped_def ex_bind_def new_object_defs nsname_of_def ex_key_def)
  then show ?thesis
    by (simp add: Upsert_def Let_def n lift_kube_def through_def ex_server_world_def mem_api_def call_def faulty_def
        mem_createOrUpdateBind_def lookup_def put_mem_bind_def remove_key_def flip: ex_key_def)
qed

lemma ex_server_wait:
  assumes "mw_binds (sv_mem w) = [b]" "nsname_of b = ex_key" "phase b = BindBinded" "mw_now (sv_mem w) = 0"
    and B: "b_namespace B = ''kargus''" "0 < b_timeout B"
  shows "\<exists>w'. waitBinded server_kube server_waiter B ''ana'' w = (None, w') \<and> mw_sas (sv_mem w') = mw_sas (sv_mem w)"
proof -
  have f: "waitFuel B = Suc (nat (b_timeout B div b_pollInterval B) + 2)" by (simp add: waitFuel_def)
  have "lookup nsname_of [b] (''kargus'', ''ana'') = Some b" using assms(2) by (simp add: ex_key_def)
  with assms show ?thesis
    by (simp add: waitBinded_def WaitBinded_def f lift_waiter_def lift_kube_def through_def mem_waiter_def mem_api_def
        call_def faulty_def mem_getBind_def)
qed

lemma ex_server_issue:
  assumes "ex_runServer ex_server_world = (Inr (ex_server_cfg, D, sg), ex_server_world)"
  shows "\<exists>t w'. issueTokens D ex_server_cfg ex_user ''kargus'' [] ex_server_world = (Inr t, w') \<and> is_id t = ''jwt.Ana''"
proof -
  obtain st p w1 w2 g where
    st: "store_New ex_redis (cfg_Store ex_server_cfg) ex_server_world = (Inr st, w1)"
    and sg: "newSigner ex_jose (TrimRight (cfg_Issuer ex_server_cfg) ''/'') (cfg_IDTokenSigningKey ex_server_cfg) w2 = (Inr (sg, g), ex_server_world)"
    and D: "D = (mainDeps server_kube server_waiter ex_lib ex_server_idp ex_rand ex_server_cfg st p)
        \<lparr>d_Sign := jl_Sign ex_jose (sg_key sg) (sg_kid sg)\<rparr>"
    using assms by (rule runServer_ok)
  have st': "st = memoryStore" using st by (simp add: store_New_def)
  obtain b' v1 where u: "Upsert server_kube ex_lib (NewBinder ''kargus'' ''8h'' waitBindedTimeout) ex_user ex_server_world = (Inr ''ana'', v1)"
    and v1: "mw_binds (sv_mem v1) = [b']" "nsname_of b' = ex_key" "phase b' = BindBinded" "mw_sas (sv_mem v1) = [ex_sa]" "mw_now (sv_mem v1) = 0"
    using ex_server_Upsert by auto
  obtain v2 where v2: "waitBinded server_kube server_waiter (NewBinder ''kargus'' ''8h'' waitBindedTimeout) ''ana'' v1 = (None, v2)"
    and sa: "mw_sas (sv_mem v2) = [ex_sa]"
    using ex_server_wait [OF v1(1,2,3,5), of "NewBinder ''kargus'' ''8h'' waitBindedTimeout"] v1(4)
    by (auto simp: waitBindedTimeout_def)
  have "\<exists>tok v3. Mint server_kube (NewMinter ''kargus'' [] (wholeSeconds (900 * Second))) ''ana'' v2 = (Inr tok, v3)"
    using sa by (simp add: Mint_def NewMinter_def lift_kube_def through_def mem_api_def call_def faulty_def mem_createToken_def)
  then obtain tok v3 where m: "Mint server_kube (NewMinter ''kargus'' [] (wholeSeconds (900 * Second))) ''ana'' v2 = (Inr tok, v3)" by blast
  have s: "d_Sign D (marshalIdClaims c) = Inr (''jwt.'' @ coerceUTF8 (ic_Email c))" for c
    by (simp add: D ex_jose_def marshalIdClaims_def field_def omitempty_def jstr_def asString_def coerceUTF8_def)
  have a: "coerceUTF8 ''Ana'' = ''Ana''" by (intro coerceUTF8_valid validUTF8_ascii) (simp add: ascii_def)
  show ?thesis
    using u v2 m s a unfolding issueTokens_def
    by (simp add: D st' randToken_def ex_rand_def memoryStore_def mem_SaveRefresh_def signIDToken_def idClaims_of_def ex_user_def Let_def)
qed

lemma ex_server_sign:
  assumes "ex_runServer ex_server_world = (Inr (ex_server_cfg, D, sg), ex_server_world)"
  shows "d_Sign D j = Inr (''jwt.'' @ asString (field j ''email''))"
  using assms by (rule runServer_ok) (simp add: ex_jose_def)

lemma ex_server_Upsert_name:
  assumes "ex_runServer ex_server_world = (Inr (ex_server_cfg, D, sg), ex_server_world)"
    and "d_Upsert D ex_user ex_server_world = (Inr name, w1)"
  shows "name = ''ana''"
  using assms(1)
proof (rule runServer_ok)
  fix st p
  assume "D = (mainDeps server_kube server_waiter ex_lib ex_server_idp ex_rand ex_server_cfg st p)
      \<lparr>d_Sign := jl_Sign ex_jose (sg_key sg) (sg_kid sg)\<rparr>"
  with assms(2) ex_server_Upsert show ?thesis by auto
qed

text \<open>A verifier that reads the tokens of the example broker, and its proxy.\<close>

definition ex_email_verifier ::
  "string \<Rightarrow> string \<Rightarrow> string \<Rightarrow> string \<Rightarrow> proxy_world \<Rightarrow> ((string \<rightharpoonup> json) res) res \<times> proxy_world" where
  "ex_email_verifier issuer url clientID raw w =
     (if HasPrefix raw ''jwt.'' then Inr (Inr [''email'' \<mapsto> JStr (drop 4 raw)]) else Inl (Errorf ''oidc: malformed jwt''), w)"

definition ex_front :: "proxy_world Proxy" where
  "ex_front = wireProxy ex_email_verifier proxy_kube ''https'' ''10.0.0.1'' ex_settings"

lemma ex_front_mint:
  "\<exists>a x. cache_token (ps_cacheTTL ex_settings) (Mint proxy_kube (NewMinter (ps_namespace ex_settings) [] (ps_expSecs ex_settings)))
     ''ana'' ex_proxy_world = (Inr a, x)"
  using ex_mint by (simp add: ex_proxy_def wireProxy_def)

lemma asString_eq: "v \<noteq> [] \<Longrightarrow> asString x = v \<longleftrightarrow> x = Some (JStr v)"
  by (auto simp: asString_def split: option.splits json.splits)

end
