(* ===== verification/Provenance_Properties.thy ===== *)
theory Provenance_Properties
  imports Provenance System
begin

text \<open>
  Access comes from logins: the properties of the shared system, and the cluster in memory on
  which they are shown, from before the first login to the bindings of a user.
\<close>

section \<open>An example\<close>

definition ex_shared :: "mem \<Rightarrow> Identity set \<Rightarrow> mem sys_world" where
  "ex_shared m ids =
     \<lparr>m_now = 0, m_auth = Map.empty, m_codes = Map.empty, m_refresh = Map.empty, sy_cluster = m, sy_vouched = ids,
      sy_croles = set (mw_clusterroles m), sy_roles = set (mw_roles m)\<rparr>"

lemma ex_shared_sel [simp]:
  "m_refresh (ex_shared m ids) = Map.empty" "sy_cluster (ex_shared m ids) = m" "sy_vouched (ex_shared m ids) = ids"
  "sy_croles (ex_shared m ids) = set (mw_clusterroles m)" "sy_roles (ex_shared m ids) = set (mw_roles m)"
  by (simp_all add: ex_shared_def)

definition ex_empty :: mem where
  "ex_empty = (ex_world 0 [] ex_logged_in)\<lparr>mw_binds := []\<rparr>"

lemma ex_empty_sel [simp]:
  "mw_binds ex_empty = []" "mw_crbs ex_empty = []" "mw_rbs ex_empty = []"
  "mw_clusterroles ex_empty = mw_clusterroles (ex_world 0 [] ex_logged_in)" "mw_roles ex_empty = mw_roles (ex_world 0 [] ex_logged_in)"
  by (simp_all add: ex_empty_def)

definition ex_remote :: "mem sys_world idplib" where
  "ex_remote =
     \<lparr>il_NewProvider = \<lambda>iss w. (Inr iss, w), il_AuthCodeURL = \<lambda>c st n. st, il_Exchange = \<lambda>c code w. (Inr None, w),
      il_Verify = \<lambda>iss cid raw w. (Inl (Errorf []), w), il_ReadFile = \<lambda>f w. (Inl (Errorf []), w),
      il_DefaultCredentials = \<lambda>w. (Inr [], w), il_JWTConfig = \<lambda>k. None, il_NewService = \<lambda>k a w. (Inr a, w),
      il_Pages = \<lambda>d e n w. (([], None), w)\<rparr>"

definition ex_random :: "mem sys_world \<Rightarrow> byte list \<times> mem sys_world" where
  "ex_random w = (replicate 32 7, w)"

interpretation ex_remote: remote ex_remote ex_random
  by unfold_locales (simp_all add: ex_remote_def ex_random_def)


lemma ex_admitted: "ex_user \<in> admitted ex_lib ex_server_cfg (ex_shared m {ex_user})"
proof -
  have "cfg_AllowedDomains ex_server_cfg = [''acme.io'']"
    by (simp add: ex_server_cfg_def loadConfig_def ex_server_environ_def ex_environ_def env_def splitCSV_def TrimSpace_def
        decode_rune.simps IsSpace_def Let_def)
  then show ?thesis by (simp add: admitted_def ex_user_def AllowedDomain_def)
qed

lemma ex_traced_bind: "ex_user \<in> A \<Longrightarrow> bind_traced ex_lib ''kargus'' A ex_logged_in"
  unfolding bind_traced_def
  by (intro impI bexI [of _ ex_user])
    (simp_all add: ex_logged_in_def stamped_def ex_bind_def new_object_defs ex_user_def SanitizeName_Ana)

lemma ex_events:
  "event ex_lib ex_server_cfg mem_view (ex_shared ex_empty {}) (ex_shared ex_empty {ex_user})"
  "event ex_lib ex_server_cfg mem_view (ex_shared ex_empty {ex_user}) (ex_shared (ex_world 0 [] ex_logged_in) {ex_user})"
  using ex_traced_bind [OF ex_admitted]
  by (auto simp: event_def Let_def ex_role_def object_meta_def valid_ns_def split: if_splits)

lemma ex_pristine: "pristine ex_server_cfg mem_view (ex_shared ex_empty {})"
  by (auto simp: pristine_def)

definition ex_shared_jose :: "(string, mem sys_world) joselib" where
  "ex_shared_jose =
     \<lparr>jl_GenerateKey = \<lambda>w. (Inr ''key'', w), jl_PemDecode = \<lambda>_. None, jl_PKCS1 = \<lambda>_. Inl (Errorf []), jl_PKCS8 = \<lambda>_. Inr None,
      jl_Public = \<lambda>k. k, jl_Thumbprint = \<lambda>_. Inr [1, 2, 3], jl_NewSigner = \<lambda>k kid. None,
      jl_Sign = \<lambda>k kid j. Inr (''jwt.'' @ asString (field j ''email'')), jl_MarshalJWK = \<lambda>k. JStr (jwk_KeyID k)\<rparr>"

definition ex_shared_redis :: "redisOptions \<Rightarrow> mem sys_world redis" where
  "ex_shared_redis _ =
     \<lparr>r_Set = \<lambda>k v ttl w. (Some (Errorf ''down''), w), r_GetDel = \<lambda>k w. (Inl (Errorf ''down''), w),
      r_Ping = \<lambda>w. (Some (Errorf ''down''), w)\<rparr>"

abbreviation ex_steps :: "mem sys_world \<Rightarrow> mem sys_world \<Rightarrow> bool" where
  "ex_steps \<equiv> sys_step (mem_api False) mem_waiter mem_view ex_lib ex_remote ex_shared_jose ex_shared_redis ex_random
     ex_server_environ ex_server_cfg"



section \<open>The properties\<close>






text \<open>
  A run of \<open>Reconcile\<close> and a request served by the broker, with others acting between any two
  of their calls, are sequences of events: whatever they add to the cluster or to the store was
  accounted for when they added it.
\<close>

theorem runs_refine_events:
  assumes "cluster_api K W view" and "remote I rand" and "st_Backend (cfg_Store cfg) = ''memory''"
    and "traced L cfg view w" and "sys_step K W view L I J NewClient rand E cfg w w'"
  shows "(event L cfg view)\<^sup>*\<^sup>* w w'"
  using sys_step_evolves [OF assms(1-3,5,4)] by (simp add: evolves_def)

text \<open>Between the calls of the example's reconcile the provider vouches for one more user.\<close>

definition ex_bystander :: "mem sys_world \<Rightarrow> mem sys_world" where
  "ex_bystander w = w\<lparr>sy_vouched := insert (ex_user\<lparr>id_Email := ''Bo''\<rparr>) (sy_vouched w)\<rparr>"

lemma ex_bystander: "environment ex_lib ex_server_cfg mem_view ex_bystander"
proof (intro allI impI)
  fix w :: "mem sys_world"
  assume "traced ex_lib ex_server_cfg mem_view w"
  then have "evolves ex_lib ex_server_cfg mem_view w (ex_bystander w)"
    by (rule store_step) (auto simp: ex_bystander_def)
  then show "(event ex_lib ex_server_cfg mem_view)\<^sup>*\<^sup>* w (ex_bystander w)" by (simp add: evolves_def)
qed

theorem runs_refine_events_witness:
  "\<exists>r w'. Reconcile (interfered ex_bystander (sys_kube (mem_api False))) ex_lib ex_key
       (ex_shared (ex_world 0 [] ex_logged_in) {ex_user}) = (r, w') \<and>
     (event ex_lib ex_server_cfg mem_view)\<^sup>*\<^sup>* (ex_shared (ex_world 0 [] ex_logged_in) {ex_user}) w'"
proof -
  let ?w = "ex_shared (ex_world 0 [] ex_logged_in) {ex_user}"
  obtain r w' where r: "Reconcile (interfered ex_bystander (sys_kube (mem_api False))) ex_lib ex_key ?w = (r, w')" by fastforce
  have t: "traced ex_lib ex_server_cfg mem_view ?w"
    by (rule event_traced [OF event_traced [OF pristine_traced [OF ex_pristine] ex_events(1)] ex_events(2)])
  have "ex_steps ?w w'" by (rule sys_step.ran [OF ex_bystander r])
  from runs_refine_events [OF mem_cluster.cluster_api_axioms ex_remote.remote_axioms _ t this] r show ?thesis by auto
qed

end
