(* ===== verification/Concurrent_Reconcile.thy ===== *)
theory Concurrent_Reconcile
  imports Traced_Broker
begin

text \<open>
  Reconciles of different resources run at the same time, and everybody else acts meanwhile. The
  work queue runs at most one reconcile of a resource, so a run relies on the others to leave
  the finalizer, the phase and the owned bindings of its resource alone, and guarantees the same
  to the runs of other resources: \<open>leaves S\<close> is what the runs of the resources \<open>S\<close> rely on. The
  invariant of \<open>Controller_Steps\<close>, no owned binding without a resource that covers it, then holds
  under every interleaving of single calls.
\<close>

section \<open>What runs rely on\<close>

definition owned_keys :: "string \<Rightarrow> ('k \<rightharpoonup> Binding) \<Rightarrow> 'k set" where
  "owned_keys u m = {n. \<exists>x. m n = Some x \<and> owned_by u x}"

abbreviation ckeys :: "string \<Rightarrow> cluster \<Rightarrow> string set" where
  "ckeys u cl \<equiv> owned_keys u (cl_crbs cl)"

abbreviation rkeys :: "string \<Rightarrow> cluster \<Rightarrow> nsname set" where
  "rkeys u cl \<equiv> owned_keys u (cl_rbs cl)"

definition held :: "nsname \<Rightarrow> string \<Rightarrow> BindPhase \<Rightarrow> cluster \<Rightarrow> bool" where
  "held k u p cl \<longleftrightarrow>
     (\<exists>b. cl_binds cl k = Some b \<and> om_UID b = u \<and> finalizer \<in> set (om_Finalizers b) \<and> phase b = p)"

definition distinct_uids :: "cluster \<Rightarrow> bool" where
  "distinct_uids cl \<longleftrightarrow>
     (\<forall>k k' b b'. cl_binds cl k = Some b \<longrightarrow> cl_binds cl k' = Some b' \<longrightarrow> om_UID b = om_UID b' \<longrightarrow> k = k')"

definition sound :: "cluster \<Rightarrow> bool" where
  "sound cl \<longleftrightarrow> access_inv cl \<and> distinct_uids cl"

definition leaves :: "nsname set \<Rightarrow> cluster \<Rightarrow> cluster \<Rightarrow> bool" where
  "leaves S cl cl' \<longleftrightarrow> sound cl' \<and>
     (\<forall>k \<in> S. \<forall>u p. held k u p cl \<longrightarrow> held k u p cl' \<and> ckeys u cl' \<subseteq> ckeys u cl \<and> rkeys u cl' \<subseteq> rkeys u cl)"

lemma leaves_refl: "sound cl \<Longrightarrow> leaves S cl cl"
  by (simp add: leaves_def)

lemma leaves_trans: "leaves S a b \<Longrightarrow> leaves S b c \<Longrightarrow> leaves S a c"
  unfolding leaves_def by blast

lemma leaves_mono: "leaves S cl cl' \<Longrightarrow> S' \<subseteq> S \<Longrightarrow> leaves S' cl cl'"
  unfolding leaves_def by blast

lemma leaves_sound: "leaves S cl cl' \<Longrightarrow> sound cl'"
  by (simp add: leaves_def)

lemma owned_free_keys: "owned_free u cl \<longleftrightarrow> ckeys u cl = {} \<and> rkeys u cl = {}"
  by (auto simp: owned_free_def owned_keys_def)

lemma held_distinct:
  assumes "distinct_uids cl" and "held k u p cl" and "held k' u p' cl"
  shows "k' = k"
  using assms unfolding held_def distinct_uids_def by blast

lemma covers_held: "held k u p cl \<Longrightarrow> p \<in> access_phases \<Longrightarrow> covers u cl"
  by (auto simp: held_def intro: coversI)

section \<open>Single changes\<close>

lemma leaves_same:
  assumes "sound cl" and "cl_binds cl' = cl_binds cl"
    and "\<And>n x. cl_crbs cl' n = Some x \<Longrightarrow> cl_crbs cl n = Some x" and "\<And>n x. cl_rbs cl' n = Some x \<Longrightarrow> cl_rbs cl n = Some x"
  shows "leaves S cl cl'"
proof -
  have "access_inv cl'"
    using assms(1,3,4) covers_cong [OF assms(2)] unfolding access_inv_def sound_def by metis
  moreover have "ckeys u cl' \<subseteq> ckeys u cl" "rkeys u cl' \<subseteq> rkeys u cl" for u
    using assms(3,4) unfolding owned_keys_def by blast+
  ultimately show ?thesis using assms(1,2) by (simp add: leaves_def sound_def distinct_uids_def held_def)
qed

text \<open>A new binding, owned by the resource of the run.\<close>

lemma leaves_create:
  assumes s: "sound cl" and h: "held k u p cl" "p \<in> access_phases" and b: "cl_binds cl' = cl_binds cl"
    and c: "\<And>n x. cl_crbs cl' n = Some x \<Longrightarrow> cl_crbs cl n = Some x \<or> owned_by u x"
    and r: "\<And>n x. cl_rbs cl' n = Some x \<Longrightarrow> cl_rbs cl n = Some x \<or> owned_by u x"
  shows "leaves (- {k}) cl cl'" and "held k u p cl'"
proof -
  show "held k u p cl'" using h(1) b by (simp add: held_def)
  have one: "v = u" if "owned_by u x" "owned_by v x" for x v using that by (simp add: owned_by_def)
  have "access_inv cl'"
    unfolding access_inv_def covers_cong [OF b]
    using c r one covers_held [OF h] access_invD [of cl] s unfolding sound_def by blast
  moreover have "ckeys v cl' \<subseteq> ckeys v cl" "rkeys v cl' \<subseteq> rkeys v cl" if "v \<noteq> u" for v
    using c r one that unfolding owned_keys_def by blast+
  moreover have "v \<noteq> u" if "k' \<noteq> k" "held k' v q cl" for k' v q
    using held_distinct [of cl k u p k' q] that s h(1) by (auto simp: sound_def)
  ultimately show "leaves (- {k}) cl cl'" using s b by (simp add: leaves_def sound_def distinct_uids_def held_def)
qed

text \<open>A change of the run's own resource.\<close>

lemma leaves_put_bind:
  assumes s: "sound cl" and b: "cl_binds cl k = Some b" and v: "\<And>b'. v = Some b' \<Longrightarrow> om_UID b' = om_UID b"
    and keep: "owned_free (om_UID b) cl \<or> phase b \<notin> access_phases \<or>
      (\<exists>b'. v = Some b' \<and> om_UID b' = om_UID b \<and>
        (finalizer \<in> set (om_Finalizers b) \<longrightarrow> finalizer \<in> set (om_Finalizers b')) \<and> phase b' \<in> access_phases)"
  shows "leaves (- {k}) cl (put_bind k v cl)"
proof -
  have "access_inv (put_bind k v cl)" using s b keep unfolding sound_def by (intro access_inv_put_bind) auto
  moreover have "distinct_uids (put_bind k v cl)"
    using s b v unfolding sound_def distinct_uids_def by (auto split: if_splits)
  ultimately show ?thesis by (simp add: leaves_def sound_def held_def)
qed

text \<open>
  What a run of the resource \<open>k\<close> does with one call: remove bindings, add one that its resource
  owns and covers, or change its resource without uncovering a binding.
\<close>

inductive act :: "nsname \<Rightarrow> cluster \<Rightarrow> cluster \<Rightarrow> bool" for k where
  shrink: "sound cl \<Longrightarrow> cl_binds cl' = cl_binds cl \<Longrightarrow>
    (\<And>n x. cl_crbs cl' n = Some x \<Longrightarrow> cl_crbs cl n = Some x) \<Longrightarrow> (\<And>n x. cl_rbs cl' n = Some x \<Longrightarrow> cl_rbs cl n = Some x) \<Longrightarrow>
    act k cl cl'"
| grow: "sound cl \<Longrightarrow> held k u p cl \<Longrightarrow> p \<in> access_phases \<Longrightarrow> cl_binds cl' = cl_binds cl \<Longrightarrow>
    (\<And>n x. cl_crbs cl' n = Some x \<Longrightarrow> cl_crbs cl n = Some x \<or> owned_by u x) \<Longrightarrow>
    (\<And>n x. cl_rbs cl' n = Some x \<Longrightarrow> cl_rbs cl n = Some x \<or> owned_by u x) \<Longrightarrow> act k cl cl'"
| change: "sound cl \<Longrightarrow> cl_binds cl k = Some b \<Longrightarrow> (\<And>b'. v = Some b' \<Longrightarrow> om_UID b' = om_UID b) \<Longrightarrow>
    owned_free (om_UID b) cl \<or> phase b \<notin> access_phases \<or>
      (\<exists>b'. v = Some b' \<and> om_UID b' = om_UID b \<and>
        (finalizer \<in> set (om_Finalizers b) \<longrightarrow> finalizer \<in> set (om_Finalizers b')) \<and> phase b' \<in> access_phases) \<Longrightarrow>
    act k cl (put_bind k v cl)"

lemma act_leaves: "act k cl cl' \<Longrightarrow> leaves (- {k}) cl cl'"
  by (induction rule: act.induct) (blast intro: leaves_same leaves_create leaves_put_bind)+

lemma act_sound: "act k cl cl' \<Longrightarrow> sound cl'"
  by (rule leaves_sound [OF act_leaves])

text \<open>
  Everybody else: as in \<open>env_step\<close>, no two resources have the same UID, and nobody adds a binding
  in the name of a resource.
\<close>

definition outside :: "cluster \<Rightarrow> cluster \<Rightarrow> bool" where
  "outside cl cl' \<longleftrightarrow> env_step cl cl' \<and> distinct_uids cl' \<and>
     (\<forall>u. ckeys u cl' \<subseteq> ckeys u cl \<and> rkeys u cl' \<subseteq> rkeys u cl)"

lemma outside_same:
  assumes "sound cl" and "cl_binds cl' = cl_binds cl" "cl_crbs cl' = cl_crbs cl" "cl_rbs cl' = cl_rbs cl"
  shows "outside cl cl'"
proof -
  have "env_step cl cl'" unfolding env_step_def assms(2-4) by blast
  then show ?thesis using assms by (simp add: outside_def sound_def distinct_uids_def)
qed

lemma outside_leaves:
  assumes "sound cl" and "outside cl cl'"
  shows "leaves S cl cl'"
proof -
  have e: "env_step cl cl'" "distinct_uids cl'" using assms(2) by (simp_all add: outside_def)
  have "sound cl'" using assms(1) e by (auto simp: sound_def intro: access_inv_env_step)
  moreover have "held k u p cl'" if "held k u p cl" for k u p
    using that e(1) unfolding held_def env_step_def by metis
  ultimately show ?thesis using assms(2) by (simp add: leaves_def outside_def)
qed

text \<open>What happens between two calls of a run of \<open>k\<close>: steps of everybody else and calls of runs of other resources.\<close>

definition others :: "nsname \<Rightarrow> cluster \<Rightarrow> cluster \<Rightarrow> bool" where
  "others k cl cl' \<longleftrightarrow> outside cl cl' \<or> (\<exists>k'. k' \<noteq> k \<and> act k' cl cl')"

lemma others_leaves: "sound cl \<Longrightarrow> others k cl cl' \<Longrightarrow> leaves {k} cl cl'"
  unfolding others_def using outside_leaves act_leaves leaves_mono [of _ cl cl' "{k}"] by blast

lemma others_steps_leave: "(others k)\<^sup>*\<^sup>* cl cl' \<Longrightarrow> sound cl \<Longrightarrow> leaves {k} cl cl'"
proof (induction rule: rtranclp_induct)
  case base
  then show ?case by (rule leaves_refl)
next
  case (step y z)
  then have "leaves {k} cl y" by simp
  with others_leaves [OF leaves_sound [OF this] step.hyps(2)] show ?case by (blast intro: leaves_trans)
qed

section \<open>Deleting what others may delete too\<close>

context binding_kind
begin

lemma delete_keys:
  assumes c: "delete b w = (e, w')"
  shows "owned_keys u (objs w') \<subseteq> owned_keys u (objs w) \<and>
    (e = None \<or> (\<exists>x. e = Some x \<and> errors_Is x ApiNotFound) \<longrightarrow> key b \<notin> owned_keys u (objs w'))"
proof -
  have "objs w' (key b) = None" if "e = None \<or> (\<exists>x. e = Some x \<and> errors_Is x ApiNotFound)"
    using that c delete_ok [of b w w'] delete_err [of b w _ w'] by auto
  then show ?thesis using delete_origin(2) [OF c] unfolding owned_keys_def by fastforce
qed

lemma list_keys:
  assumes c: "list ownerLabel u w = (r, w')"
  shows "owned_keys u (objs w') = owned_keys u (objs w) \<and>
    (\<forall>bs. r = Inr bs \<longrightarrow> owned_keys u (objs w') \<subseteq> key ` set bs)"
proof -
  have same: "objs w' = objs w" using list_same [OF c] by simp
  have "owned_keys u (objs w') \<subseteq> key ` set bs" if "r = Inr bs" for bs
  proof
    fix n
    assume "n \<in> owned_keys u (objs w')"
    then obtain x where x: "objs w n = Some x" "owned_by u x" unfolding owned_keys_def same by blast
    then have "x \<in> set bs" using list_ok [OF c [unfolded that]] unfolding owned_by_def by blast
    with objs_key [OF x(1)] show "n \<in> key ` set bs" by blast
  qed
  with same show ?thesis by simp
qed

end

context guarantee
begin

text \<open>
  \<open>keys\<close> are the objects to go: nobody adds to them, and a delete that reports success, or that
  there was nothing, leaves its object gone.
\<close>

lemma prune_clears:
  assumes del: "\<And>b w r w'. inv w \<Longrightarrow> delete b w = (r, w') \<Longrightarrow> G w w' \<and> keys w' \<subseteq> keys w \<and>
      (r = None \<or> (\<exists>e. r = Some e \<and> errors_Is e ApiNotFound) \<longrightarrow> key b \<notin> keys w')"
  shows "inv w \<Longrightarrow> keys w \<subseteq> key ` set bs \<Longrightarrow> pruneBindings delete (\<lambda>_. False) msg bs w = (r, w') \<Longrightarrow>
    keys w' \<subseteq> keys w \<and> (r = None \<longrightarrow> keys w' = {})"
proof (induction bs arbitrary: w)
  case (Cons b bs)
  obtain e w1 where d: "delete b w = (e, w1)" by fastforce
  note g = del [OF Cons.prems(1) d]
  have i: "inv w1" using g G_inv by blast
  show ?case
  proof (cases "e = None \<or> (\<exists>x. e = Some x \<and> errors_Is x ApiNotFound)")
    case True
    then have "pruneBindings delete (\<lambda>_. False) msg bs w1 = (r, w')" using Cons.prems(3) d by (auto split: if_splits)
    moreover have "keys w1 \<subseteq> key ` set bs" using g True Cons.prems(2) by auto
    ultimately show ?thesis using Cons.IH [OF i] g by blast
  next
    case False
    then have "w' = w1" "r \<noteq> None" using Cons.prems(3) d by (auto split: if_splits option.splits)
    with g show ?thesis by auto
  qed
qed auto

lemma deleteKind_clears:
  assumes del: "\<And>b w r w'. inv w \<Longrightarrow> delete b w = (r, w') \<Longrightarrow> G w w' \<and> keys w' \<subseteq> keys w \<and>
      (r = None \<or> (\<exists>e. r = Some e \<and> errors_Is e ApiNotFound) \<longrightarrow> key b \<notin> keys w')"
    and lst: "\<And>w x w'. inv w \<Longrightarrow> list ownerLabel uid w = (x, w') \<Longrightarrow> G w w' \<and> keys w' \<subseteq> keys w \<and>
      (\<forall>bs. x = Inr bs \<longrightarrow> keys w' \<subseteq> key ` set bs)"
    and w: "inv w" and run: "deleteKind list delete lm dm uid w = (r, w')"
  shows "keys w' \<subseteq> keys w \<and> (r = None \<longrightarrow> keys w' = {})"
proof -
  obtain x w1 where l: "list ownerLabel uid w = (x, w1)" by fastforce
  note g = lst [OF w l]
  show ?thesis
  proof (cases x)
    case (Inl e)
    with run l g show ?thesis by (auto simp: deleteKind_def)
  next
    case (Inr bs)
    with run l have p: "pruneBindings delete (\<lambda>_. False) dm bs w1 = (r, w')" by (simp add: deleteKind_def)
    have i: "inv w1" using g G_inv by blast
    have "keys w1 \<subseteq> key ` set bs" using g Inr by blast
    with prune_clears [where keys = keys and key = key, OF del i _ p] g show ?thesis by blast
  qed
qed

end

section \<open>A run among others\<close>

text \<open>
  \<open>adv\<close> is what the others do before a call of the run. \<open>in_phase\<close>: the resource of the run holds
  the finalizer, with this UID and in this phase.
\<close>

definition in_phase :: "('w \<Rightarrow> cluster) \<Rightarrow> nsname \<Rightarrow> string \<Rightarrow> BindPhase \<Rightarrow> 'w \<Rightarrow> bool" where
  "in_phase view k u p w \<longleftrightarrow> sound (view w) \<and> held k u p (view w)"

definition keeps_phase ::
  "('w \<Rightarrow> cluster) \<Rightarrow> (cluster \<Rightarrow> cluster \<Rightarrow> bool) \<Rightarrow> nsname \<Rightarrow> string \<Rightarrow> BindPhase \<Rightarrow> 'w \<Rightarrow> 'w \<Rightarrow> bool" where
  "keeps_phase view A k u p w w' \<longleftrightarrow> in_phase view k u p w' \<and> A (view w) (view w')"

locale shared_run = operator_api K view
  for K :: "('w, 'a) kube_scheme" and view :: "'w \<Rightarrow> cluster" +
  fixes adv :: "'w \<Rightarrow> 'w" and k :: nsname and A :: "cluster \<Rightarrow> cluster \<Rightarrow> bool"
  assumes adv: "sound (view w) \<Longrightarrow> leaves {k} (view w) (view (adv w))"
    and A_adv: "sound (view w) \<Longrightarrow> A (view w) (view (adv w))"
    and A_act: "act k cl cl' \<Longrightarrow> A cl cl'"
    and A_refl: "sound cl \<Longrightarrow> A cl cl"
    and A_trans: "A a b \<Longrightarrow> A b c \<Longrightarrow> A a c"
    and A_sound: "A cl cl' \<Longrightarrow> sound cl'"

sublocale shared_run \<subseteq> ph: guarantee "in_phase view k u p" "keeps_phase view A k u p" for u p
  by unfold_locales (auto simp: keeps_phase_def in_phase_def intro: A_refl A_trans)

context shared_run
begin

lemma adv_phase:
  assumes "in_phase view k u p w"
  shows "in_phase view k u p (adv w)" and "ckeys u (view (adv w)) \<subseteq> ckeys u (view w)" and "rkeys u (view (adv w)) \<subseteq> rkeys u (view w)"
  using adv [of w] assms unfolding in_phase_def leaves_def by blast+

lemma call_phase:
  assumes "in_phase view k u p w" and "act k (view (adv w)) (view w')" and "held k u p (view w')"
  shows "keeps_phase view A k u p w w'"
proof -
  have s: "sound (view w)" using assms(1) by (simp add: in_phase_def)
  from A_trans [OF A_adv [OF s] A_act [OF assms(2)]] assms(3) act_sound [OF assms(2)] show ?thesis
    by (simp add: keeps_phase_def in_phase_def)
qed

lemma same_phase:
  assumes i: "in_phase view k u p w" and b: "cl_binds (view w') = cl_binds (view (adv w))"
    and "\<And>n x. cl_crbs (view w') n = Some x \<Longrightarrow> cl_crbs (view (adv w)) n = Some x"
    and "\<And>n x. cl_rbs (view w') n = Some x \<Longrightarrow> cl_rbs (view (adv w)) n = Some x"
  shows "keeps_phase view A k u p w w'"
proof (rule call_phase [OF i])
  have "sound (view (adv w))" using adv_phase(1) [OF i] by (simp add: in_phase_def)
  from act.shrink [OF this assms(2-4)] show "act k (view (adv w)) (view w')" .
  show "held k u p (view w')" using adv_phase(1) [OF i] b by (simp add: in_phase_def held_def)
qed

lemma crb_rest:
  assumes "(view w')\<lparr>cl_crbs := Map.empty\<rparr> = (view w)\<lparr>cl_crbs := Map.empty\<rparr>"
  shows "cl_binds (view w') = cl_binds (view w)" and "cl_rbs (view w') = cl_rbs (view w)"
  using arg_cong [OF assms, of cl_binds] arg_cong [OF assms, of cl_rbs] by simp_all

lemma rb_rest:
  assumes "(view w')\<lparr>cl_rbs := Map.empty\<rparr> = (view w)\<lparr>cl_rbs := Map.empty\<rparr>"
  shows "cl_binds (view w') = cl_binds (view w)" and "cl_crbs (view w') = cl_crbs (view w)"
  using arg_cong [OF assms, of cl_binds] arg_cong [OF assms, of cl_crbs] by simp_all

lemma interfered_sel [simp]:
  "k_now (interfered adv K) = k_now K"
  "k_getBind (interfered adv K) req w = k_getBind K req (adv w)"
  "k_updateBind (interfered adv K) b w = k_updateBind K b (adv w)"
  "k_patchStatus (interfered adv K) b b' w = k_patchStatus K b b' (adv w)"
  "k_createOrUpdateSA (interfered adv K) kk f w = k_createOrUpdateSA K kk f (adv w)"
  "k_listClusterRoles (interfered adv K) w = k_listClusterRoles K (adv w)"
  "k_listRoles (interfered adv K) w = k_listRoles K (adv w)"
  "k_createCRB (interfered adv K) d w = k_createCRB K d (adv w)"
  "k_listCRBs (interfered adv K) l v w = k_listCRBs K l v (adv w)"
  "k_deleteCRB (interfered adv K) d w = k_deleteCRB K d (adv w)"
  "k_createRB (interfered adv K) d w = k_createRB K d (adv w)"
  "k_listRBs (interfered adv K) l v w = k_listRBs K l v (adv w)"
  "k_deleteRB (interfered adv K) d w = k_deleteRB K d (adv w)"
  "k_addFinalizer (interfered adv K) = k_addFinalizer K" "k_removeFinalizer (interfered adv K) = k_removeFinalizer K"
  "k_containsFinalizer (interfered adv K) = k_containsFinalizer K"
  "k_setControllerReference (interfered adv K) = k_setControllerReference K"
  "k_setStatusCondition (interfered adv K) = k_setStatusCondition K"
  by (simp_all add: interfered_def)

lemma crb_calls:
  assumes i: "in_phase view k u p w"
  shows "p \<in> access_phases \<Longrightarrow> owned_by u d \<Longrightarrow> k_createCRB K d (adv w) = (e, w') \<Longrightarrow> keeps_phase view A k u p w w'"
    and "k_listCRBs K l v (adv w) = (x, w') \<Longrightarrow> keeps_phase view A k u p w w'"
    and "k_deleteCRB K d (adv w) = (e, w') \<Longrightarrow> keeps_phase view A k u p w w'"
proof -
  have a: "sound (view (adv w))" "held k u p (view (adv w))" using adv_phase(1) [OF i] by (simp_all add: in_phase_def)
  show "keeps_phase view A k u p w w'" if "p \<in> access_phases" "owned_by u d" and c: "k_createCRB K d (adv w) = (e, w')"
  proof -
    note rest = crb_rest [OF crb.create_grown [OF c, THEN conjunct1]]
    have "cl_crbs (view (adv w)) n = Some y \<or> owned_by u y" if "cl_crbs (view w') n = Some y" for n y
      using crb.create_origin [OF c that] \<open>owned_by u d\<close> same_binding_owned by blast
    then show ?thesis
      using act.grow [OF a that(1) rest(1)] rest a(2) by (intro call_phase [OF i]) (simp_all add: held_def)
  qed
  show "keeps_phase view A k u p w w'" if c: "k_listCRBs K l v (adv w) = (x, w')"
    using crb.list_same [OF c] crb_rest [of w' "adv w"] by (intro same_phase [OF i]) simp_all
  show "keeps_phase view A k u p w w'" if c: "k_deleteCRB K d (adv w) = (e, w')"
    using crb_rest [OF crb.delete_origin(1) [OF c]] crb.delete_origin(2) [OF c] by (intro same_phase [OF i]) simp_all
qed

lemma rb_calls:
  assumes i: "in_phase view k u p w"
  shows "p \<in> access_phases \<Longrightarrow> owned_by u d \<Longrightarrow> k_createRB K d (adv w) = (e, w') \<Longrightarrow> keeps_phase view A k u p w w'"
    and "k_listRBs K l v (adv w) = (x, w') \<Longrightarrow> keeps_phase view A k u p w w'"
    and "k_deleteRB K d (adv w) = (e, w') \<Longrightarrow> keeps_phase view A k u p w w'"
proof -
  have a: "sound (view (adv w))" "held k u p (view (adv w))" using adv_phase(1) [OF i] by (simp_all add: in_phase_def)
  show "keeps_phase view A k u p w w'" if "p \<in> access_phases" "owned_by u d" and c: "k_createRB K d (adv w) = (e, w')"
  proof -
    note rest = rb_rest [OF rb.create_grown [OF c, THEN conjunct1]]
    have "cl_rbs (view (adv w)) n = Some y \<or> owned_by u y" if "cl_rbs (view w') n = Some y" for n y
      using rb.create_origin [OF c that] \<open>owned_by u d\<close> same_binding_owned by blast
    then show ?thesis
      using act.grow [OF a that(1) rest(1)] rest a(2) by (intro call_phase [OF i]) (simp_all add: held_def)
  qed
  show "keeps_phase view A k u p w w'" if c: "k_listRBs K l v (adv w) = (x, w')"
    using rb.list_same [OF c] rb_rest [of w' "adv w"] by (intro same_phase [OF i]) simp_all
  show "keeps_phase view A k u p w w'" if c: "k_deleteRB K d (adv w) = (e, w')"
    using rb_rest [OF rb.delete_origin(1) [OF c]] rb.delete_origin(2) [OF c] by (intro same_phase [OF i]) simp_all
qed

lemma crb_keys:
  assumes i: "in_phase view k u p w"
  shows "k_deleteCRB K d (adv w) = (e, w') \<Longrightarrow> ckeys u (view w') \<subseteq> ckeys u (view w) \<and>
      (e = None \<or> (\<exists>x. e = Some x \<and> errors_Is x ApiNotFound) \<longrightarrow> om_Name d \<notin> ckeys u (view w'))"
    and "k_listCRBs K ownerLabel u (adv w) = (r, w') \<Longrightarrow> ckeys u (view w') \<subseteq> ckeys u (view w) \<and>
      (\<forall>bs. r = Inr bs \<longrightarrow> ckeys u (view w') \<subseteq> om_Name ` set bs)"
  using crb.delete_keys [of d "adv w" e w' u] crb.list_keys [of u "adv w" r w'] adv_phase(2) [OF i] by blast+

lemma rb_keys:
  assumes i: "in_phase view k u p w"
  shows "k_deleteRB K d (adv w) = (e, w') \<Longrightarrow> rkeys u (view w') \<subseteq> rkeys u (view w) \<and>
      (e = None \<or> (\<exists>x. e = Some x \<and> errors_Is x ApiNotFound) \<longrightarrow> nsname_of d \<notin> rkeys u (view w'))"
    and "k_listRBs K ownerLabel u (adv w) = (r, w') \<Longrightarrow> rkeys u (view w') \<subseteq> rkeys u (view w) \<and>
      (\<forall>bs. r = Inr bs \<longrightarrow> rkeys u (view w') \<subseteq> nsname_of ` set bs)"
  using rb.delete_keys [of d "adv w" e w' u] rb.list_keys [of u "adv w" r w'] adv_phase(3) [OF i] by blast+

text \<open>The calls on RoleBindings do not add ClusterRoleBindings.\<close>

lemma rb_ckeys:
  assumes i: "in_phase view k u p w"
  shows "k_listRBs K l v (adv w) = (x, w') \<Longrightarrow> ckeys u (view w') \<subseteq> ckeys u (view w)"
    and "k_deleteRB K d (adv w) = (e, w') \<Longrightarrow> ckeys u (view w') \<subseteq> ckeys u (view w)"
  using adv_phase(2) [OF i] rb_rest(2) [of w' "adv w"] rb.list_same [of l v "adv w" x w'] rb.delete_origin(1) [of d "adv w" e w']
  by auto

lemma deleteOwned_phase:
  assumes i: "in_phase view k u p w" and run: "deleteOwned (interfered adv K) u w = (r, w')"
  shows "keeps_phase view A k u p w w'" and "r = None \<Longrightarrow> owned_free u (view w')"
proof -
  let ?K = "interfered adv K"
  obtain e w1 where c: "deleteKind (k_listCRBs ?K) (k_deleteCRB ?K) ''listing owned ClusterRoleBindings''
      ''deleting ClusterRoleBinding'' u w = (e, w1)" by (rule prod.exhaust)
  have g1: "keeps_phase view A k u p w w1"
    by (rule ph.deleteKind_G [OF _ _ i c]) (simp_all add: crb_calls)
  have i1: "in_phase view k u p w1" by (rule ph.G_inv [OF g1])
  have c1: "e = None \<longrightarrow> ckeys u (view w1) = {}"
    by (rule ph.deleteKind_clears [where key = om_Name and keys = "\<lambda>w. ckeys u (view w)", OF _ _ i c, THEN conjunct2])
      (simp_all add: crb_calls crb_keys)
  obtain e2 w2 where d: "deleteKind (k_listRBs ?K) (k_deleteRB ?K) ''listing owned RoleBindings''
      ''deleting RoleBinding'' u w1 = (e2, w2)" by (rule prod.exhaust)
  have g2: "keeps_phase view A k u p w1 w2"
    by (rule ph.deleteKind_G [OF _ _ i1 d]) (simp_all add: rb_calls)
  have r2: "e2 = None \<longrightarrow> rkeys u (view w2) = {}"
    by (rule ph.deleteKind_clears [where key = nsname_of and keys = "\<lambda>w. rkeys u (view w)", OF _ _ i1 d, THEN conjunct2])
      (simp_all add: rb_calls rb_keys)
  have "guarantee (in_phase view k u p) (\<lambda>w w'. keeps_phase view A k u p w w' \<and> ckeys u (view w') \<subseteq> ckeys u (view w))"
    by unfold_locales (auto intro: ph.G_refl ph.G_trans ph.G_inv)
  from guarantee.deleteKind_G [OF this _ _ i1 d] have c2: "ckeys u (view w2) \<subseteq> ckeys u (view w1)"
    by (simp add: rb_calls rb_ckeys)
  show "keeps_phase view A k u p w w'"
    using run c d g1 ph.G_trans [OF g1 g2] by (auto simp: deleteOwned_def split: option.splits)
  show "owned_free u (view w')" if "r = None"
    using run c d that c1 c2 r2 by (auto simp: deleteOwned_def owned_free_keys split: option.splits)
qed

lemma sync_phase:
  assumes i: "in_phase view k u p w" and p: "p \<in> access_phases" and b: "om_UID b = u"
    and run: "syncBindings (interfered adv K) b sa w = (r, w')"
  shows "keeps_phase view A k u p w w'"
proof -
  let ?K = "interfered adv K"
  have roles: "keeps_phase view A k u p x y" if "in_phase view k u p x" "view y = view (adv x)" for x y
    using that by (intro same_phase) simp_all
  have own: "\<forall>d \<in> set (desiredCRBs b (subject_of sa) rs). owned_by u d" "\<forall>d \<in> set (desiredRBs b (subject_of sa) rs). owned_by u d" for rs
    by (auto simp: desiredCRBs_def desiredRBs_def owned_by_def b Let_def)
  have crb: "keeps_phase view A k u p x y"
    if "in_phase view k u p x" "syncClusterRoleBindings ?K (om_UID b) (desiredCRBs b (subject_of sa) rs) x = (z, y)" for x y z rs
    by (rule ph.syncKind_G [where P = "\<lambda>w. owned_by u", OF _ _ _ _ that(1) own(1) that(2) [unfolded syncClusterRoleBindings_def]])
      (simp_all add: crb_calls p)
  have rb: "keeps_phase view A k u p x y"
    if "in_phase view k u p x" "syncRoleBindings ?K (om_UID b) (desiredRBs b (subject_of sa) rs) x = (z, y)" for x y z rs
    by (rule ph.syncKind_G [where P = "\<lambda>w. owned_by u", OF _ _ _ _ that(1) own(2) that(2) [unfolded syncRoleBindings_def]])
      (simp_all add: rb_calls p)
  obtain l w1 where l: "k_listClusterRoles K (adv w) = (l, w1)" by fastforce
  note g1 = roles [OF i listClusterRoles_view [OF l]]
  show ?thesis
  proof (cases l)
    case (Inl e)
    with run l g1 show ?thesis by (simp add: syncBindings_def)
  next
    case (Inr rs)
    obtain e w2 where c: "syncClusterRoleBindings ?K (om_UID b) (desiredCRBs b (subject_of sa) rs) w1 = (e, w2)" by fastforce
    note g2 = ph.G_trans [OF g1 crb [OF ph.G_inv [OF g1] c]]
    obtain m w3 where m: "k_listRoles K (adv w2) = (m, w3)" by fastforce
    note g3 = ph.G_trans [OF g2 roles [OF ph.G_inv [OF g2] listRoles_view [OF m]]]
    have "w' = w2 \<or> w' = w3 \<or> (\<exists>qs. syncRoleBindings ?K (om_UID b) (desiredRBs b (subject_of sa) qs) w3 = (r, w'))"
      using run l Inr c m by (auto simp: syncBindings_def split: option.splits sum.splits)
    with g2 g3 ph.G_trans [OF g3 rb [OF ph.G_inv [OF g3]]] show ?thesis by blast
  qed
qed

lemma adv_free: "in_phase view k u p w \<Longrightarrow> owned_free u (view w) \<Longrightarrow> owned_free u (view (adv w))"
  using adv_phase(2,3) [of u p w] by (auto simp: owned_free_keys)

lemma A_call: "sound (view w) \<Longrightarrow> act k (view (adv w)) (view w') \<Longrightarrow> A (view w) (view w')"
  by (rule A_trans [OF A_adv A_act])

text \<open>
  A status patch of the run's resource: the phase may change when the new one keeps access, when
  the old one had none, or when no binding is left.
\<close>

lemma patch_phase:
  assumes i: "in_phase view k u p w" and n: "nsname_of new = k" and p': "p' = merged (phase orig) (phase new) p"
    and keep: "p' \<in> access_phases \<or> p \<notin> access_phases \<or> owned_free u (view w)"
    and run: "k_patchStatus K orig new (adv w) = (r, w')"
  shows "A (view w) (view w')"
    and "r = Inr b \<Longrightarrow> in_phase view k u p' w' \<and> om_UID b = u \<and> nsname_of b = k"
proof -
  have s: "sound (view w)" using i by (simp add: in_phase_def)
  have a: "sound (view (adv w))" using adv_phase(1) [OF i] by (simp add: in_phase_def)
  obtain cur where cur: "cl_binds (view (adv w)) k = Some cur" "om_UID cur = u" "finalizer \<in> set (om_Finalizers cur)" "phase cur = p"
    using adv_phase(1) [OF i] unfolding in_phase_def held_def by blast
  let ?b = "patched orig new cur"
  have l: "act k (view (adv w)) (put_bind k (Some ?b) (view (adv w)))"
    using keep adv_free [OF i] cur by (intro act.change [OF a cur(1)]) (auto simp: p')
  have "view w' = view (adv w) \<or> view w' = put_bind k (Some ?b) (view (adv w))"
    using run patchStatus_ok [of orig new "adv w" _ w'] patchStatus_err [of orig new "adv w" _ w'] n cur(1) by (cases r) auto
  with A_call [OF s] l A_adv [OF s] show g: "A (view w) (view w')" by metis
  show "in_phase view k u p' w' \<and> om_UID b = u \<and> nsname_of b = k" if "r = Inr b"
  proof -
    have b: "b = ?b" "view w' = put_bind k (Some b) (view (adv w))"
      using run that patchStatus_ok [of orig new "adv w" b w'] n cur(1) by auto
    with cur bind_key [OF cur(1)] A_sound [OF g] show ?thesis by (auto simp: in_phase_def held_def p')
  qed
qed

lemma updatePhase_phase:
  assumes i: "in_phase view k u p w" and n: "nsname_of b = k" and p': "p' = merged (phase orig) ph p"
    and keep: "p' \<in> access_phases \<or> p \<notin> access_phases \<or> owned_free u (view w)"
    and run: "updatePhase (interfered adv K) orig b ph c rs m w = ((e, b'), w')"
  shows "A (view w) (view w')"
    and "e = None \<Longrightarrow> in_phase view k u p' w' \<and> om_UID b' = u \<and> nsname_of b' = k"
proof -
  let ?b = "set_phase (interfered adv K) b ph c rs m (k_now K w)"
  obtain x w1 where x: "k_patchStatus K orig ?b (adv w) = (x, w1)" by fastforce
  have nb: "nsname_of ?b = k" "p' = merged (phase orig) (phase ?b) p" using n p' by simp_all
  note pp = patch_phase [OF i nb keep x]
  show "A (view w) (view w')"
    using run x pp(1) by (auto simp: updatePhase_def Let_def split: sum.splits)
  show "in_phase view k u p' w' \<and> om_UID b' = u \<and> nsname_of b' = k" if "e = None"
    using run x pp(2) that by (auto simp: updatePhase_def Let_def split: sum.splits)
qed

lemma finish_phase:
  assumes i: "in_phase view k u p w" and n: "nsname_of b = k"
    and keep: "merged (phase orig) ph p \<in> access_phases \<or> p \<notin> access_phases \<or> owned_free u (view w)"
    and run: "finish_with (interfered adv K) orig b ph c rs m w = (r, w')"
  shows "A (view w) (view w')"
proof -
  obtain e b' w1 where x: "updatePhase (interfered adv K) orig b ph c rs m w = ((e, b'), w1)" by (metis prod.exhaust)
  with run updatePhase_phase(1) [OF i n refl keep x] show ?thesis by (simp add: finish_with_def)
qed

lemma access: "BindBinding \<in> access_phases" "BindBinded \<in> access_phases" "BindFailed \<in> access_phases"
  by (simp_all add: access_phases_def)

lemma keeps_A: "keeps_phase view A k u p w w' \<Longrightarrow> A (view w) (view w')"
  by (simp add: keeps_phase_def)

lemma reconcileSync_run:
  assumes i: "in_phase view k u p w" and p: "p \<in> access_phases" and b: "om_UID b = u" "nsname_of b = k"
    and run: "reconcileSync (interfered adv K) orig b sa t w = (r, w')"
  shows "A (view w) (view w')"
proof -
  obtain e w1 where s: "syncBindings (interfered adv K) b sa w = (e, w1)" by fastforce
  note g = sync_phase [OF i p b(1) s]
  have keep: "merged x ph p \<in> access_phases" if "ph \<in> access_phases" for x ph using that p by (simp add: merged_def)
  show ?thesis
  proof (cases e)
    case (Some x)
    with run s have "finish_with (interfered adv K) orig b BindFailed ConditionFalse ''BindFailed'' (errText x) w1 = (r, w')"
      by (simp add: reconcileSync_def)
    from A_trans [OF keeps_A [OF g] finish_phase [OF ph.G_inv [OF g] b(2) disjI1 [OF keep [OF access(3)]] this]]
    show ?thesis .
  next
    case None
    let ?b = "set_ref_expiry (om_UID sa) t b"
    obtain x y w2 where u: "updatePhase (interfered adv K) orig ?b BindBinded ConditionTrue ''Bound'' (bound_message b) w1
        = ((x, y), w2)" by (metis prod.exhaust)
    have "nsname_of ?b = k" using b(2) by simp
    from updatePhase_phase(1) [OF ph.G_inv [OF g] this refl disjI1 [OF keep [OF access(2)]] u]
    have "A (view w1) (view w2)" .
    moreover have "w' = w1 \<or> w' = w2"
      using run s None u by (auto simp: reconcileSync_def Let_def split: if_splits option.splits)
    ultimately show ?thesis using keeps_A [OF g] by (auto intro: A_trans)
  qed
qed

lemma reconcileActive_run:
  assumes i: "in_phase view k u (phase b) w" and b: "om_UID b = u" "nsname_of b = k"
    and run: "reconcileActive (interfered adv K) b t w = (r, w')"
  shows "A (view w) (view w')"
proof -
  obtain x w1 where s: "ensureServiceAccount (interfered adv K) b w = (x, w1)" by fastforce
  have "view w1 = view (adv w) \<or> (\<exists>n v. view w1 = put_sa n v (view (adv w)))"
    using s createOrUpdateSA_ok [of _ _ "adv w" _ w1] createOrUpdateSA_err [of _ _ "adv w" _ w1]
    unfolding ensureServiceAccount_def interfered_sel by (cases x) blast+
  then have g: "keeps_phase view A k u (phase b) w w1" by (intro same_phase [OF i]) auto
  note i1 = ph.G_inv [OF g] and l1 = keeps_A [OF g]
  show ?thesis
  proof (cases x)
    case (Inl e)
    with run s have f: "finish_with (interfered adv K) b b BindFailed ConditionFalse ''ServiceAccountFailed'' (errText e) w1 = (r, w')"
      by (simp add: reconcileActive_def)
    have "merged (phase b) BindFailed (phase b) \<in> access_phases" by (simp add: merged_def access)
    from A_trans [OF l1 finish_phase [OF i1 b(2) disjI1 [OF this] f]] show ?thesis .
  next
    case (Inr sa)
    show ?thesis
    proof (cases "phase b = BindBinded")
      case True
      with run s Inr have "reconcileSync (interfered adv K) b b sa t w1 = (r, w')" by (simp add: reconcileActive_def)
      from A_trans [OF l1 reconcileSync_run [OF i1 _ b this]] True show ?thesis by (simp add: access)
    next
      case False
      let ?b = "set_ref (om_UID sa) b"
      obtain y z w2 where u: "updatePhase (interfered adv K) b ?b BindBinding ConditionUnknown ''Syncing''
          ''Syncing RBAC bindings'' w1 = ((y, z), w2)" by (metis prod.exhaust)
      have n: "nsname_of ?b = k" using b(2) by simp
      have m: "BindBinding = merged (phase b) BindBinding (phase b)" by (simp add: merged_def)
      note up = updatePhase_phase [OF i1 n m disjI1 [OF access(1)] u]
      note l2 = A_trans [OF l1 up(1)]
      show ?thesis
      proof (cases y)
        case None
        with run s Inr False u have "reconcileSync (interfered adv K) b z sa t w2 = (r, w')" by (simp add: reconcileActive_def)
        from A_trans [OF l2 reconcileSync_run [OF _ access(1) _ _ this]] up(2) [OF None] show ?thesis by blast
      qed (use run s Inr False u l2 in \<open>simp add: reconcileActive_def\<close>)
    qed
  qed
qed

lemma reconcileExpired_run:
  assumes i: "in_phase view k u (phase b) w" and b: "om_UID b = u" "nsname_of b = k"
    and run: "reconcileExpired (interfered adv K) b w = (r, w')"
  shows "A (view w) (view w')"
proof (cases "phase b = BindUnbound")
  case True
  with run i show ?thesis by (simp add: reconcileExpired_def in_phase_def A_refl)
next
  case False
  obtain e w1 where d: "deleteOwned (interfered adv K) u w = (e, w1)" by fastforce
  note del = deleteOwned_phase [OF i d]
  show ?thesis
  proof (cases e)
    case None
    with run False d b(1) have f: "finish_with (interfered adv K) b b BindUnbound ConditionFalse ''Expired'' ''TTL elapsed'' w1 = (r, w')"
      by (simp add: reconcileExpired_def)
    from A_trans [OF keeps_A [OF del(1)] finish_phase [OF ph.G_inv [OF del(1)] b(2) _ f]] del(2) [OF None]
    show ?thesis by simp
  qed (use run False d b(1) keeps_A [OF del(1)] in \<open>simp add: reconcileExpired_def\<close>)
qed

lemma reconcileBind_run:
  assumes i: "in_phase view k u (phase b) w" and b: "om_UID b = u" "nsname_of b = k"
    and run: "reconcileBind (interfered adv K) L b w = (r, w')"
  shows "A (view w) (view w')"
proof (cases "phase b = BindUnset")
  case True
  obtain x y w2 where u: "updatePhase (interfered adv K) b b BindPending ConditionUnknown ''Accepted''
      ''Bind accepted, pending sync'' w = ((x, y), w2)" by (metis prod.exhaust)
  with run True have "w' = w2" by (auto simp: reconcileBind_def split: option.splits)
  moreover have "phase b \<notin> access_phases" using True by (simp add: access_phases_def)
  ultimately show ?thesis using updatePhase_phase(1) [OF i b(2) refl _ u] by simp
next
  case False
  have "merged (phase b) BindFailed (phase b) \<in> access_phases" by (simp add: merged_def access)
  note f = finish_phase [OF i b(2) disjI1 [OF this]]
  from False run f reconcileExpired_run [OF i b] reconcileActive_run [OF i b] show ?thesis
    by (auto simp: reconcileBind_def split: sum.splits if_splits)
qed

lemma reconcileDelete_run:
  assumes i: "in_phase view k u (phase b) w" and b: "om_UID b = u" "nsname_of b = k"
    and run: "reconcileDelete (interfered adv K) b w = (r, w')"
  shows "A (view w) (view w')"
proof -
  obtain e w1 where d: "deleteOwned (interfered adv K) u w = (e, w1)" by fastforce
  note del = deleteOwned_phase [OF i d]
  note i1 = ph.G_inv [OF del(1)]
  let ?b = "b\<lparr>om_Finalizers := k_removeFinalizer K finalizer (om_Finalizers b)\<rparr>"
  obtain x w2 where u: "k_updateBind K ?b (adv w1) = (x, w2)" by fastforce
  have "A (view w1) (view w2)" if "e = None"
  proof -
    have s: "sound (view w1)" using i1 by (simp add: in_phase_def)
    have a: "sound (view (adv w1))" using adv_phase(1) [OF i1] by (simp add: in_phase_def)
    have n: "nsname_of ?b = k" using b(2) by simp
    have fr: "owned_free u (view (adv w1))" by (rule adv_free [OF i1 del(2) [OF that]])
    obtain cur where cur: "cl_binds (view (adv w1)) k = Some cur" "om_UID cur = u"
      using adv_phase(1) [OF i1] unfolding in_phase_def held_def by blast
    have "act k (view (adv w1)) (put_bind k (stored (updated cur ?b)) (view (adv w1)))"
      using fr cur by (intro act.change [OF a cur(1)]) (auto dest: stored_Some simp: updated_def)
    moreover have "view w2 = view (adv w1) \<or> view w2 = put_bind k (stored (updated cur ?b)) (view (adv w1))"
      using u updateBind_ok [of ?b "adv w1" _ w2] updateBind_err [of ?b "adv w1" _ w2] n cur(1) by (cases x) auto
    ultimately show ?thesis using A_call [OF s] A_adv [OF s] by metis
  qed
  moreover have "w' = w \<or> w' = w1 \<or> e = None \<and> w' = w2"
    using run d u b(1) by (auto simp: reconcileDelete_def split: if_splits option.splits sum.splits)
  ultimately show ?thesis
    using keeps_A [OF del(1)] i by (auto intro: A_trans A_refl simp: in_phase_def)
qed

lemma add_finalizer_run:
  assumes s: "sound (view w)" and b: "nsname_of b = k" "finalizer \<in> set (om_Finalizers b)"
    and run: "k_updateBind K b (adv w) = (x, w')"
  shows "A (view w) (view w')"
proof -
  have a: "sound (view (adv w))" by (rule A_sound [OF A_adv [OF s]])
  have "act k (view (adv w)) (put_bind k (stored (updated cur b)) (view (adv w)))"
    if cur: "cl_binds (view (adv w)) k = Some cur" for cur
  proof -
    have st: "stored (updated cur b) = Some (updated cur b)" using b(2) by (auto simp: stored_def updated_def)
    show ?thesis unfolding st using b(2) by (intro act.change [OF a cur]) (auto simp: updated_def)
  qed
  note own = this
  have "view w' = view (adv w) \<or> (\<exists>cur. cl_binds (view (adv w)) k = Some cur \<and>
      view w' = put_bind k (stored (updated cur b)) (view (adv w)))"
    using run updateBind_ok [of b "adv w" _ w'] updateBind_err [of b "adv w" _ w'] b(1) by (cases x) auto
  then show ?thesis
  proof (elim disjE exE conjE)
    assume "view w' = view (adv w)"
    then show ?thesis using A_adv [OF s] by (rule ssubst)
  next
    fix cur
    assume cur: "cl_binds (view (adv w)) k = Some cur" and v: "view w' = put_bind k (stored (updated cur b)) (view (adv w))"
    show ?thesis by (rule A_call [OF s]) (simp only: v own [OF cur])
  qed
qed

text \<open>A run of \<open>Reconcile\<close> among others keeps the invariant and leaves to other runs what they rely on.\<close>

lemma Reconcile_run:
  assumes s: "sound (view w)" and run: "Reconcile (interfered adv K) L k w = (r, w')"
  shows "A (view w) (view w')"
proof -
  obtain g w1 where g: "k_getBind K k (adv w) = (g, w1)" by fastforce
  have v: "view w1 = view (adv w)" using g by (rule getBind_view)
  have l1: "A (view w) (view w1)" unfolding v by (rule A_adv [OF s])
  note s1 = A_sound [OF l1]
  show ?thesis
  proof (cases g)
    case (Inl e)
    with run g l1 show ?thesis by (simp add: Reconcile_def)
  next
    case (Inr b)
    have b: "cl_binds (view w1) k = Some b" using getBind_ok g Inr v by simp
    then have n: "nsname_of b = k" by (rule bind_key)
    let ?b = "b\<lparr>om_Finalizers := om_Finalizers b @ [finalizer]\<rparr>"
    have "A (view w1) (view w')"
    proof (cases "finalizer \<in> set (om_Finalizers b)")
      case True
      then have i: "in_phase view k (om_UID b) (phase b) w1" using s1 b by (auto simp: in_phase_def held_def)
      from run g Inr True reconcileDelete_run [OF i refl n] reconcileBind_run [OF i refl n] show ?thesis
        by (auto simp: Reconcile_def addFinalizer split: if_splits)
    next
      case False
      obtain x w2 where u: "k_updateBind K ?b (adv w1) = (x, w2)" by fastforce
      have nb: "nsname_of ?b = k" using n by simp
      have "A (view w1) (view w2)" by (rule add_finalizer_run [OF s1 nb _ u]) simp
      with run g Inr False u A_refl [OF s1] show ?thesis
        by (auto simp: Reconcile_def reconcileDelete_def addFinalizer containsFinalizer split: if_splits sum.splits)
    qed
    with l1 show ?thesis by (rule A_trans)
  qed
qed

end

section \<open>Concurrent runs\<close>

text \<open>
  A step of the system: one of everybody else, or a run of \<open>Reconcile\<close> of some resource with
  anything of the others between its calls.
\<close>

abbreviation among :: "('w \<Rightarrow> cluster) \<Rightarrow> nsname \<Rightarrow> ('w \<Rightarrow> 'w) \<Rightarrow> bool" where
  "among view k adv \<equiv> \<forall>v. sound (view v) \<longrightarrow> (others k)\<^sup>*\<^sup>* (view v) (view (adv v))"

inductive concurrent_step ::
  "('w, 'a) kube_scheme \<Rightarrow> ('w \<Rightarrow> cluster) \<Rightarrow> 'l golib_scheme \<Rightarrow> 'w \<Rightarrow> 'w \<Rightarrow> bool"
  for K view L where
  elsewhere: "outside (view w) (view w') \<Longrightarrow> concurrent_step K view L w w'"
| run: "among view k adv \<Longrightarrow> Reconcile (interfered adv K) L k w = (r, w') \<Longrightarrow> concurrent_step K view L w w'"

text \<open>A run is made of its own calls and what the others do in between.\<close>

lemma Reconcile_acts:
  assumes "operator_api K view" and "among view k adv" and "sound (view w)"
    and "Reconcile (interfered adv K) L k w = (r, w')"
  shows "(\<lambda>cl cl'. act k cl cl' \<or> others k cl cl')\<^sup>*\<^sup>* (view w) (view w') \<and> sound (view w')"
proof -
  let ?s = "\<lambda>cl cl'. act k cl cl' \<or> others k cl cl'" and ?A = "\<lambda>cl cl'. (\<lambda>cl cl'. act k cl cl' \<or> others k cl cl')\<^sup>*\<^sup>* cl cl' \<and> sound cl'"
  have adv: "leaves {k} (view v) (view (adv v))" if "sound (view v)" for v
    using assms(2) that others_steps_leave by blast
  have "?A (view v) (view (adv v))" if "sound (view v)" for v
  proof -
    have "(others k)\<^sup>*\<^sup>* (view v) (view (adv v))" using assms(2) that by blast
    then have "?s\<^sup>*\<^sup>* (view v) (view (adv v))" by (rule rtranclp_mono [THEN predicate2D, rotated]) blast
    with leaves_sound [OF adv [OF that]] show ?thesis by simp
  qed
  with adv have "shared_run K view adv k ?A"
    by (intro shared_run.intro assms(1) shared_run_axioms.intro) (auto dest: act_sound)
  from shared_run.Reconcile_run [OF this assms(3,4)] show ?thesis .
qed

lemma concurrent_step_sound:
  assumes "operator_api K view" and "concurrent_step K view L w w'" and "sound (view w)"
  shows "sound (view w')"
  using assms(2)
proof cases
  case elsewhere
  from leaves_sound [OF outside_leaves [OF assms(3) this]] show ?thesis .
next
  case (run k adv r)
  from Reconcile_acts [OF assms(1) run(1) assms(3) run(2)] show ?thesis by simp
qed

lemma concurrent_steps_sound:
  assumes "operator_api K view" and "sound (view w)"
  shows "(concurrent_step K view L)\<^sup>*\<^sup>* w w' \<Longrightarrow> sound (view w')"
  by (induction rule: rtranclp_induct) (auto intro: concurrent_step_sound [OF assms(1)] assms(2))

end
