(* ===== verification/Concurrent_Properties.thy ===== *)
theory Concurrent_Properties
  imports Concurrent_Reconcile Operator_Properties
begin

text \<open>
  The operator with reconciles of different resources at the same time, and everybody else in
  between, on the cluster in memory of \<open>Operator_Properties\<close>.
\<close>

text \<open>The example's world is sound: one resource, and no binding yet.\<close>

lemma ex_sound: "sound (mem_view (ex_world c fl (ex_bind fins p)))"
  by (auto simp: sound_def access_inv_def distinct_uids_def ex_key_def split: if_splits)

text \<open>
  C3. However the single calls of reconciles of different resources, with any failures, interleave
  with each other and with what everybody else does in the cluster, an owned binding exists only
  while a resource with that UID still holds the finalizer and is in phase \<open>binding\<close>, \<open>binded\<close> or
  \<open>failed\<close>: never for a deleted resource, never for one that is pending or unbound.
\<close>

theorem concurrent_no_dangling_access:
  assumes "operator_api K view" and "(concurrent_step K view L)\<^sup>*\<^sup>* w w'" and "access_inv (view w)" "distinct_uids (view w)"
    and "cl_crbs (view w') n = Some x \<or> cl_rbs (view w') m = Some x" and "owned_by uid x"
  shows "\<exists>k b. cl_binds (view w') k = Some b \<and> om_UID b = uid \<and> finalizer \<in> set (om_Finalizers b) \<and>
    phase b \<in> {BindBinding, BindBinded, BindFailed}"
proof -
  have "sound (view w)" using assms(3,4) by (simp add: sound_def)
  from concurrent_steps_sound [OF assms(1) this assms(2)] have "access_inv (view w')" by (simp add: sound_def)
  then have "covers uid (view w')" using assms(5,6) access_invD by blast
  then show ?thesis by (simp add: covers_def access_phases_def)
qed

theorem concurrent_no_dangling_access_witness:
  "\<exists>w' n x. (concurrent_step (mem_api False) mem_view ex_lib)\<^sup>*\<^sup>* (ex_world 0 [] (ex_bind [finalizer] BindPending)) w' \<and>
     cl_crbs (mem_view w') n = Some x \<and> owned_by ''u1'' x \<and>
     (\<exists>k b. cl_binds (mem_view w') k = Some b \<and> om_UID b = ''u1'' \<and> finalizer \<in> set (om_Finalizers b) \<and>
        phase b \<in> {BindBinding, BindBinded, BindFailed})"
proof -
  let ?w = "ex_world 0 [] (ex_bind [finalizer] BindPending)"
  obtain res w' b' where r: "Reconcile (mem_api False) ex_lib ex_key ?w = (Inr res, w')"
    and b': "cl_binds (mem_view w') ex_key = Some b'" "phase b' = BindBinded"
    using ex_binds [of BindPending] by auto
  have "''view'' \<in> granted_cluster_roles ''u1'' (bind_subject (ex_bind [finalizer] BindPending)) (mem_view w')"
    using mem.Reconcile_binded_grants(1) [OF r _ _ _ b', of "ex_bind [finalizer] BindPending"]
    unfolding ex_entitled by simp
  then obtain n x where x: "cl_crbs (mem_view w') n = Some x" "owned_by ''u1'' x"
    by (rule granted_cluster_roleE)
  have "concurrent_step (mem_api False) mem_view ex_lib ?w w'"
    by (rule concurrent_step.run [where adv = "\<lambda>w. w" and k = ex_key and r = "Inr res"]) (simp_all add: r)
  then have s: "(concurrent_step (mem_api False) mem_view ex_lib)\<^sup>*\<^sup>* ?w w'" by (rule r_into_rtranclp)
  have i: "access_inv (mem_view ?w)" "distinct_uids (mem_view ?w)" using ex_sound by (simp_all add: sound_def)
  note cov = concurrent_no_dangling_access [OF mem.operator_api_axioms s i disjI1 [OF x(1)] x(2)]
  show ?thesis by (rule exI [of _ w'], rule exI [of _ n], rule exI [of _ x]) (intro conjI s x cov)
qed





end
