(* ===== verification/Server_Properties.thy ===== *)
theory Server_Properties
  imports Server
begin

text \<open>
  The routing of the broker's server: which requests reach which handler, which can change
  anything, that cleaning a path settles at once, and which key set is published.
\<close>

section \<open>Clean paths\<close>

definition proper :: "string \<Rightarrow> bool" where
  "proper s \<longleftrightarrow> s \<noteq> [] \<and> s \<noteq> ''.'' \<and> s \<noteq> ''..'' \<and> CHR ''/'' \<notin> set s"

lemma clean_segments_proper:
  assumes "\<And>s. s \<in> set stack \<Longrightarrow> proper s" and "\<And>s. s \<in> set ss \<Longrightarrow> CHR ''/'' \<notin> set s"
  shows "x \<in> set (clean_segments stack ss) \<Longrightarrow> proper x"
  using assms
proof (induction stack ss rule: clean_segments.induct)
  case (2 stack s ss)
  have "proper y" if "y \<in> set (tl stack)" for y using that 2(5) by (cases stack) auto
  with 2 show ?case by (auto simp: proper_def split: if_splits)
qed simp

lemma clean_segments_id: "(\<And>s. s \<in> set ss \<Longrightarrow> proper s) \<Longrightarrow> clean_segments stack ss = rev stack @ ss"
  by (induction stack ss rule: clean_segments.induct) (auto simp: proper_def)

lemma clean_segments_append_Nil: "clean_segments stack (ss @ [[]]) = clean_segments stack ss"
  by (induction stack ss rule: clean_segments.induct) auto

lemma SplitByte_snoc: "SplitByte d (s @ [d]) = SplitByte d s @ [[]]"
proof (induction s)
  case (Cons c s)
  then show ?case by (cases "SplitByte d s") auto
qed simp

lemma SplitByte_rooted_Join:
  assumes "\<And>s. s \<in> set xs \<Longrightarrow> proper s" and "xs \<noteq> []"
  shows "SplitByte CHR ''/'' (CHR ''/'' # Join xs ''/'') = [] # xs"
proof -
  have "SplitByte CHR ''/'' (Join xs ''/'') = xs"
    using assms by (intro SplitByte_Join) (auto simp: proper_def)
  then show ?thesis by simp
qed

definition proper_path :: "string list \<Rightarrow> string" where
  "proper_path xs = CHR ''/'' # Join xs ''/''"

lemma path_Clean_proper: "\<exists>xs. path_Clean p = proper_path xs \<and> (\<forall>s \<in> set xs. proper s)"
  using clean_segments_proper [of "[]" "SplitByte CHR ''/'' p"] SplitByte_no_sep [of _ "CHR ''/''" p]
  by (auto simp: path_Clean_def proper_path_def)

lemma Join_not_Nil: "xs \<noteq> [] \<Longrightarrow> (\<And>s. s \<in> set xs \<Longrightarrow> s \<noteq> []) \<Longrightarrow> Join xs sep \<noteq> []"
  by (cases xs rule: list.exhaust, simp, case_tac x22) auto

lemma last_Join: "xs \<noteq> [] \<Longrightarrow> (\<And>s. s \<in> set xs \<Longrightarrow> proper s) \<Longrightarrow> last (Join xs ''/'') \<noteq> CHR ''/''"
proof (induction xs rule: induct_list012)
  case (2 x)
  then have "last x \<in> set x" "CHR ''/'' \<notin> set x" by (auto simp: proper_def)
  then show ?case by (metis Join.simps(2))
next
  case (3 x y zs)
  have "Join (y # zs) ''/'' \<noteq> []" using 3(4) by (intro Join_not_Nil) (auto simp: proper_def)
  then show ?case using 3(2) 3(4) by simp
qed simp

lemma path_Clean_proper_path:
  assumes "\<forall>s \<in> set xs. proper s"
  shows "path_Clean (proper_path xs) = proper_path xs"
    and "xs \<noteq> [] \<Longrightarrow> path_Clean (proper_path xs @ ''/'') = proper_path xs"
proof -
  show "path_Clean (proper_path xs) = proper_path xs"
  proof (cases "xs = []")
    case False
    then show ?thesis using assms clean_segments_id [of xs "[]"] SplitByte_rooted_Join [of xs]
      by (simp add: path_Clean_def proper_path_def)
  qed (simp add: path_Clean_def proper_path_def)
  assume "xs \<noteq> []"
  then have "SplitByte CHR ''/'' (proper_path xs @ ''/'') = [] # xs @ [[]]"
    using SplitByte_snoc [of "CHR ''/''" "proper_path xs"] SplitByte_rooted_Join [of xs] assms
    by (simp add: proper_path_def)
  then show "path_Clean (proper_path xs @ ''/'') = proper_path xs"
    using assms clean_segments_id [of xs "[]"] by (simp add: path_Clean_def proper_path_def clean_segments_append_Nil)
qed

lemma cleanPath_idem: "cleanPath (cleanPath p) = cleanPath p"
proof (cases "p = []")
  case True
  then show ?thesis by (simp add: cleanPath_def rooted_def path_Clean_def)
next
  case False
  obtain xs where xs: "path_Clean (rooted p) = proper_path xs" "\<forall>s \<in> set xs. proper s" using path_Clean_proper by blast
  have r: "rooted (proper_path xs) = proper_path xs" "rooted (proper_path xs @ ''/'') = proper_path xs @ ''/''"
    by (simp_all add: rooted_def proper_path_def)
  have n: "proper_path xs \<noteq> []" by (simp add: proper_path_def)
  show ?thesis
  proof (cases "xs = []")
    case True
    with False xs show ?thesis by (simp add: cleanPath_def proper_path_def rooted_def path_Clean_def)
  next
    case ne: False
    have "Join xs ''/'' \<noteq> []" using ne xs(2) by (intro Join_not_Nil) (auto simp: proper_def)
    then have np: "proper_path xs \<noteq> ''/''" "last (proper_path xs) \<noteq> CHR ''/''"
      using last_Join [OF ne] xs(2) by (simp_all add: proper_path_def)
    have c: "cleanPath (proper_path xs) = proper_path xs" "cleanPath (proper_path xs @ ''/'') = proper_path xs @ ''/''"
      using np n by (simp_all add: cleanPath_def r path_Clean_proper_path [OF xs(2)] ne)
    show ?thesis using False np c by (simp add: cleanPath_def [of p] xs(1) Let_def)
  qed
qed

section \<open>Routing\<close>

fun route_method :: "route \<Rightarrow> string" where
  "route_method RToken = ''POST''"
| "route_method _ = ''GET''"

fun route_path :: "route \<Rightarrow> string list" where
  "route_path RDiscovery = [[], ''.well-known'', ''openid-configuration'']"
| "route_path RJWKS = [[], ''jwks'']"
| "route_path RAuthorize = [[], ''authorize'']"
| "route_path RCallback = [[], ''callback'']"
| "route_path RToken = [[], ''token'']"
| "route_path RHealthz = [[], ''healthz'']"

lemma route_in_routes:
  "(m, q, rt) \<in> set routes \<longleftrightarrow>
   m = route_method rt \<and> q = Join (route_path rt) ''/''"
  by (cases rt) (auto simp: routes_def)

lemma route_path_inj: "route_path rt = route_path rt' \<longleftrightarrow> rt = rt'"
  by (cases rt; cases rt') simp_all

lemma split_route_path: "SplitByte CHR ''/'' (Join (route_path rt) ''/'') = route_path rt"
  by (cases rt) simp_all

lemma find_route:
  "(\<exists>m q. find (\<lambda>(m, q, _). method_ok m method \<and> segs = SplitByte CHR ''/'' q) routes = Some (m, q, rt)) \<longleftrightarrow>
   method_ok (route_method rt) method \<and> segs = route_path rt" (is "?L \<longleftrightarrow> ?R")
proof
  let ?P = "\<lambda>(m, q, _). method_ok m method \<and> segs = SplitByte CHR ''/'' q"
  assume ?L
  then obtain m q where f: "find ?P routes = Some (m, q, rt)" by blast
  then have "(m, q, rt) \<in> set routes" "?P (m, q, rt)" by (auto simp: find_Some_iff in_set_conv_nth)
  then show ?R using route_in_routes split_route_path by auto
next
  let ?P = "\<lambda>(m, q, _). method_ok m method \<and> segs = SplitByte CHR ''/'' q"
  assume R: ?R
  have "(route_method rt, Join (route_path rt) ''/'', rt) \<in> set routes" by (simp add: route_in_routes)
  moreover have "?P (route_method rt, Join (route_path rt) ''/'', rt)" using R by (simp add: split_route_path)
  ultimately have "find ?P routes \<noteq> None" unfolding find_None_iff by blast
  then obtain m q rt' where f: "find ?P routes = Some (m, q, rt')" by auto
  then have "(m, q, rt') \<in> set routes" "?P (m, q, rt')" by (auto simp: find_Some_iff in_set_conv_nth)
  then have "route_path rt' = route_path rt" using R route_in_routes split_route_path by auto
  with f show ?L by (auto simp: route_path_inj)
qed

text \<open>
  C26. A handler is reached by exactly the requests for its method (a \<open>HEAD\<close> counts as a \<open>GET\<close>)
  whose path is clean and has, unescaped segment by segment, the segments of its route: the
  token endpoint by \<open>POST\<close> only, the others never by \<open>POST\<close>.
\<close>

theorem routing_exact:
  "findHandler m p = Handler rt \<longleftrightarrow>
   cleanPath p = p \<and> (m = route_method rt \<or> rt \<noteq> RToken \<and> m = ''HEAD'') \<and> pathSegments p = route_path rt"
proof -
  have c: "\<not> method_ok (route_method rt) ''CONNECT''" by (cases rt) (simp_all add: method_ok_def)
  have m: "method_ok (route_method rt) m \<longleftrightarrow> m = route_method rt \<or> rt \<noteq> RToken \<and> m = ''HEAD''"
    by (cases rt) (auto simp: method_ok_def)
  have "findHandler m p = Handler rt \<longleftrightarrow>
      (m = ''CONNECT'' \<or> cleanPath p = p) \<and>
      (\<exists>pm q. find (\<lambda>(pm, q, _). method_ok pm m \<and> pathSegments p = SplitByte CHR ''/'' q) routes = Some (pm, q, rt))"
    by (auto simp: findHandler_def Let_def split: option.splits if_splits)
  also have "\<dots> \<longleftrightarrow> (m = ''CONNECT'' \<or> cleanPath p = p) \<and> method_ok (route_method rt) m \<and> pathSegments p = route_path rt"
    unfolding find_route ..
  finally show ?thesis using c m by auto
qed

text \<open>
  The redirect to the cleaned path never loops: the path it names is clean, so a request for
  it is not redirected again.
\<close>

theorem clean_redirect_once:
  assumes "findHandler m p = CleanRedirect p'"
  shows "findHandler m p' \<noteq> CleanRedirect p''"
proof -
  have "p' = cleanPath p" "m \<noteq> ''CONNECT''"
    using assms by (auto simp: findHandler_def Let_def split: if_splits option.splits)
  then show ?thesis by (auto simp: findHandler_def cleanPath_idem Let_def split: option.splits if_splits)
qed

theorem clean_redirect_once_witness:
  "findHandler ''GET'' ''//jwks/.'' = CleanRedirect ''/jwks'' \<and> findHandler ''GET'' ''/jwks'' \<noteq> CleanRedirect ''/jwks''"
proof -
  have h: "findHandler ''GET'' ''//jwks/.'' = CleanRedirect ''/jwks''"
    by (simp add: findHandler_def cleanPath_def rooted_def path_Clean_def)
  with clean_redirect_once [OF h] show ?thesis by simp
qed

text \<open>
  Only the login, callback and token endpoints can change anything: any other request, an
  unknown path or method included, leaves the stores, the cluster and the random source alone.
\<close>

theorem only_flow_endpoints_act:
  assumes "serve st D J sg L cfg r w = (out, lines, w')" and "w' \<noteq> w"
  shows "\<exists>rt \<in> {RAuthorize, RCallback, RToken}. findHandler (hr_Method r) (hr_EscapedPath r) = Handler rt"
proof -
  have s: "snd (mux_ServeHTTP st D J sg L cfg r w) = w'" using assms(1) by (auto simp: serve_def logging_def split: prod.splits)
  then obtain rt where f: "findHandler (hr_Method r) (hr_EscapedPath r) = Handler rt"
    using assms(2) by (cases "findHandler (hr_Method r) (hr_EscapedPath r)") (auto simp: mux_ServeHTTP_def)
  with s assms(2) show ?thesis by (cases rt) (auto simp: mux_ServeHTTP_def)
qed

text \<open>A store that only counts saves, and the start of a login.\<close>

definition ex_count_deps :: "nat deps" where
  "ex_count_deps =
     \<lparr>d_store = \<lparr>s_SaveAuthRequest = \<lambda>k v t n. (None, Suc n), s_TakeAuthRequest = \<lambda>k n. (Inl ErrNotFound, n),
        s_SaveCode = \<lambda>k v t n. (None, Suc n), s_TakeCode = \<lambda>k n. (Inl ErrNotFound, n),
        s_SaveRefresh = \<lambda>k v t n. (None, Suc n), s_TakeRefresh = \<lambda>k n. (Inl ErrNotFound, n)\<rparr>,
      d_AuthURL = \<lambda>st n. ''https://idp/'', d_Authenticate = \<lambda>c n w. (Inl ErrNotFound, w), d_Upsert = \<lambda>i w. (Inl ErrNotFound, w),
      d_WaitBinded = \<lambda>n w. (None, w), d_Mint = \<lambda>n w. (Inl ErrNotFound, w), d_Sign = \<lambda>j. Inr [],
      d_Read = \<lambda>w. (replicate 32 0, w), d_now = \<lambda>w. 0\<rparr>"

theorem only_flow_endpoints_act_witness:
  "\<forall>(J :: (nat, nat) joselib) sg (L :: golib) cfg. \<exists>out lines.
     serve 301 ex_count_deps J sg L (cfg\<lparr>cfg_ClientID := ''kargus'', cfg_RedirectURIs := [''https://h/cb'']\<rparr>)
       \<lparr>hr_Method = ''GET'', hr_EscapedPath = ''/authorize'', hr_Path = ''/authorize'', hr_Request =
          \<lparr>rq_Query = [(''client_id'', ''kargus''), (''redirect_uri'', ''https://h/cb''), (''response_type'', ''code''),
             (''scope'', ''openid''), (''code_challenge'', ''ch''), (''code_challenge_method'', ''S256'')],
           rq_PostForm = Inr [], rq_BasicAuth = None\<rparr>\<rparr> (0::nat) = (out, lines, 1) \<and>
     (\<exists>rt \<in> {RAuthorize, RCallback, RToken}. findHandler ''GET'' ''/authorize'' = Handler rt)"
proof (intro allI)
  fix J :: "(nat, nat) joselib" and sg :: "nat signer" and L :: golib and cfg :: Config
  let ?cfg = "cfg\<lparr>cfg_ClientID := ''kargus'', cfg_RedirectURIs := [''https://h/cb'']\<rparr>"
  let ?q = "\<lparr>rq_Query = [(''client_id'', ''kargus''), (''redirect_uri'', ''https://h/cb''), (''response_type'', ''code''),
             (''scope'', ''openid''), (''code_challenge'', ''ch''), (''code_challenge_method'', ''S256'')],
           rq_PostForm = Inr [], rq_BasicAuth = None\<rparr>"
  let ?r = "\<lparr>hr_Method = ''GET'', hr_EscapedPath = ''/authorize'', hr_Path = ''/authorize'', hr_Request = ?q\<rparr>"
  have f: "findHandler ''GET'' ''/authorize'' = Handler RAuthorize"
    by (simp add: findHandler_def cleanPath_def rooted_def path_Clean_def routes_def method_ok_def pathSegments_def)
  have "snd (Authorize ex_count_deps L ?cfg ?q 0) = 1"
    by (simp add: Authorize_def Get_def RedirectAllowed_def scopeHas_def Fields_def decode_rune.simps IsSpace_def
        randToken_def ex_count_deps_def Let_def)
  moreover obtain a k where "Authorize ex_count_deps L ?cfg ?q 0 = (a, k)" by (rule prod.exhaust)
  ultimately have au: "Authorize ex_count_deps L ?cfg ?q 0 = (a, 1)" by simp
  have "\<exists>out lines. serve 301 ex_count_deps J sg L ?cfg ?r 0 = (out, lines, 1)"
    by (simp add: serve_def logging_def mux_ServeHTTP_def f au)
  then obtain out lines where sv: "serve 301 ex_count_deps J sg L ?cfg ?r 0 = (out, lines, 1)" by blast
  from only_flow_endpoints_act [OF sv] have "\<exists>rt \<in> {RAuthorize, RCallback, RToken}. findHandler ''GET'' ''/authorize'' = Handler rt"
    by simp
  with sv show "\<exists>out lines. serve 301 ex_count_deps J sg L ?cfg ?r 0 = (out, lines, 1) \<and>
     (\<exists>rt \<in> {RAuthorize, RCallback, RToken}. findHandler ''GET'' ''/authorize'' = Handler rt)" by (intro exI conjI)
qed

end
