(* ===== verification/Store_Properties.thy ===== *)
theory Store_Properties
  imports Store_Redis
begin

text \<open>
  The properties of the stores: no entry is handed out twice, in either backend; the
  background sweep is invisible; Redis gives back what was saved, up to invalid UTF-8.
\<close>

section \<open>The sweep is invisible\<close>

text \<open>Two stores that differ only in entries that have expired.\<close>

definition same_visible :: "memory \<Rightarrow> memory \<Rightarrow> bool" where
  "same_visible m m' \<longleftrightarrow>
     m_now m' = m_now m \<and>
     swept (m_now m) (m_auth m') = swept (m_now m) (m_auth m) \<and>
     swept (m_now m) (m_codes m') = swept (m_now m) (m_codes m) \<and>
     swept (m_now m) (m_refresh m') = swept (m_now m) (m_refresh m)"

lemma swept_swept: "t \<le> now \<Longrightarrow> swept now (swept t e) = swept now e"
  by (auto simp: swept_def fun_eq_iff split: option.splits)

lemma swept_upd [simp]:
  "swept now (e(k := None)) = (swept now e)(k := None)"
  "swept now (e(k \<mapsto> (v, x))) = (swept now e)(k := if x < now then None else Some (v, x))"
  by (auto simp: swept_def fun_eq_iff)

lemma swept_later:
  assumes "swept now e' = swept now e" and "now \<le> now'"
  shows "swept now' e' = swept now' e"
  using swept_swept [OF assms(2), of e] swept_swept [OF assms(2), of e'] assms(1) by simp

text \<open>What a take returns depends on the entries that are left after a sweep.\<close>

definition taken :: "time \<Rightarrow> (string \<rightharpoonup> 'v \<times> time) \<Rightarrow> string \<Rightarrow> 'v res" where
  "taken now e k = (case swept now e k of None \<Rightarrow> Inl ErrNotFound | Some (v, _) \<Rightarrow> Inr v)"

lemma take_taken:
  "mem_TakeAuthRequest k m = (taken (m_now m) (m_auth m) k, m\<lparr>m_auth := (m_auth m)(k := None)\<rparr>)"
  "mem_TakeCode k m = (taken (m_now m) (m_codes m) k, m\<lparr>m_codes := (m_codes m)(k := None)\<rparr>)"
  "mem_TakeRefresh k m = (taken (m_now m) (m_refresh m) k, m\<lparr>m_refresh := (m_refresh m)(k := None)\<rparr>)"
  by (auto simp: store_defs taken_def swept_def split: option.splits prod.splits)

lemma mem_event_same:
  assumes "same_visible m m'"
  shows "fst (mem_event e m') = fst (mem_event e m) \<and> same_visible (snd (mem_event e m)) (snd (mem_event e m'))"
  using assms
  by (cases e) (auto simp: same_visible_def take_taken taken_def mem_SaveAuthRequest_def mem_SaveCode_def
      mem_SaveRefresh_def swept_swept intro: swept_later)

lemma sweep_same: "t \<le> m_now m \<Longrightarrow> same_visible (sweep t m) m"
  by (simp add: same_visible_def swept_swept)

fun is_sweep :: "store_event \<Rightarrow> bool" where
  "is_sweep (EvSweep _) = True"
| "is_sweep _ = False"

lemma sweep_event_same: "is_sweep e \<Longrightarrow> same_visible (snd (mem_event e m)) m"
  by (cases e) (auto intro: sweep_same)

lemma same_visible_trans: "same_visible a b \<Longrightarrow> same_visible b c \<Longrightarrow> same_visible a c"
  by (simp add: same_visible_def)

lemma same_visible_refl: "same_visible m m"
  by (simp add: same_visible_def)

lemma history_without_sweeps:
  "same_visible m m' \<Longrightarrow>
   fst (mem_history (filter (\<lambda>e. \<not> is_sweep e) es) m') =
   filter (\<lambda>(e, _). \<not> is_sweep e) (fst (mem_history es m))"
proof (induction es arbitrary: m m')
  case (Cons e es)
  show ?case
  proof (cases "is_sweep e")
    case True
    from Cons.IH [OF same_visible_trans [OF sweep_event_same [OF True, of m] Cons.prems]] True
    show ?thesis by (simp split: prod.splits)
  next
    case False
    from mem_event_same [OF Cons.prems, of e] Cons.IH [of "snd (mem_event e m)" "snd (mem_event e m')"] False
    show ?thesis by (simp split: prod.splits) (metis fst_conv snd_conv)
  qed
qed simp

section \<open>Properties\<close>

text \<open>
  C9. In any history of the in-process store, with requests, clock and sweep interleaved
  freely, no authorization code and no refresh token is handed out more often than it was
  saved: a code that was saved once is exchanged at most once.
\<close>

theorem memory_one_shot:
  "count (takes_of c) (map code_shot (fst (mem_history es (newMemory now)))) \<le>
     count (saves_of c) (map code_shot (fst (mem_history es (newMemory now)))) \<and>
   count (takes_of t) (map refresh_shot (fst (mem_history es (newMemory now)))) \<le>
     count (saves_of t) (map refresh_shot (fst (mem_history es (newMemory now))))"
proof -
  obtain tr m' where h: "mem_history es (newMemory now) = (tr, m')" by fastforce
  have "shots mem_SaveCode mem_TakeCode live_codes (newMemory now) (map code_shot tr) m'"
    using mem_history_shots(1) [OF h shots.start] by simp
  from mem_codes.takes_le_saves [OF this, of c]
  have "count (takes_of c) (map code_shot tr) \<le> count (saves_of c) (map code_shot tr)"
    by (simp add: newMemory_def unexpired_def)
  moreover have "shots mem_SaveRefresh mem_TakeRefresh live_refresh (newMemory now) (map refresh_shot tr) m'"
    using mem_history_shots(2) [OF h shots.start] by simp
  from mem_refresh.takes_le_saves [OF this, of t]
  have "count (takes_of t) (map refresh_shot tr) \<le> count (saves_of t) (map refresh_shot tr)"
    by (simp add: newMemory_def unexpired_def)
  ultimately show ?thesis by (simp add: h)
qed

text \<open>
  C24. The background sweep changes nothing that a request can see: leaving all sweeps out of a
  history leaves the outcome of every other event as it was.
\<close>

theorem sweep_unobservable:
  "fst (mem_history (filter (\<lambda>e. \<not> is_sweep e) es) m) =
   filter (\<lambda>(e, _). \<not> is_sweep e) (fst (mem_history es m))"
  by (rule history_without_sweeps [OF same_visible_refl])

text \<open>
  Redis: whatever requests of whatever replicas and whatever failures interleave, no code
  is handed out more often than it was saved, and one that is handed out was saved under that
  name.
\<close>

theorem redis_one_shot:
  assumes "redis_client R db"
    and "shots (s_SaveCode (redisStore R)) (s_TakeCode (redisStore R)) (\<lambda>w. redis_codes (db w)) w tr w'"
    and "redis_codes (db w) c = None"
  shows "count (takes_of c) tr \<le> count (saves_of c) tr \<and>
    (Took c g \<in> set tr \<longrightarrow> (\<exists>g'. Saved c g' \<in> set tr \<and> coerceCodeGrant g' = g))"
  using redis_client.code_once [OF assms] by blast

theorem redis_one_shot_witness:
  "\<exists>g w'. shots (s_SaveCode (redisStore rs_client)) (s_TakeCode (redisStore rs_client))
      (\<lambda>w. redis_codes (rs_live w)) \<lparr>rs_now = 0, rs_faults = [], rs_db = Map.empty\<rparr>
      [Saved ''c'' g, Took ''c'' (coerceCodeGrant g), Refused ''c''] w' \<and>
    count (takes_of ''c'') [Saved ''c'' g, Took ''c'' (coerceCodeGrant g), Refused ''c''] \<le>
    count (saves_of ''c'') [Saved ''c'' g, Took ''c'' (coerceCodeGrant g), Refused ''c'']"
proof -
  define g :: CodeGrant where "g = \<lparr>cg_ClientID = ''kargus'', cg_RedirectURI = [], cg_CodeChallenge = [],
    cg_Nonce = [], cg_Subject = [], cg_AccessToken = ''t'', cg_IDToken = [], cg_RefreshToken = [], cg_ExpiresIn = 600\<rparr>"
  let ?R = "redisStore rs_client" and ?w = "\<lparr>rs_now = 0, rs_faults = [], rs_db = Map.empty\<rparr>"
  let ?w1 = "?w\<lparr>rs_db := [''code:c'' \<mapsto> (marshalCodeGrant g, Some Minute)]\<rparr>"
  have 1: "s_SaveCode ?R ''c'' g Minute ?w = (None, ?w1)"
    by (simp add: redisStore_sel redis_save_def rs_client_def rs_call_def)
  have 2: "s_TakeCode ?R ''c'' ?w1 = (Inr (coerceCodeGrant g), ?w)"
    by (simp add: redisStore_sel redis_take_def rs_client_def rs_call_def rs_live_def unmarshal_marshal)
  have 3: "s_TakeCode ?R ''c'' ?w = (Inl ErrNotFound, ?w)"
    by (simp add: redisStore_sel redis_take_def rs_client_def rs_call_def rs_live_def)
  have s: "shots (s_SaveCode ?R) (s_TakeCode ?R) (\<lambda>w. redis_codes (rs_live w)) ?w
      [Saved ''c'' g, Took ''c'' (coerceCodeGrant g), Refused ''c''] ?w"
  proof -
    have "shots (s_SaveCode ?R) (s_TakeCode ?R) (\<lambda>w. redis_codes (rs_live w)) ?w ([] @ [Saved ''c'' g]) ?w1"
      by (rule shots.saved, rule shots.start, rule 1)
    then have "shots (s_SaveCode ?R) (s_TakeCode ?R) (\<lambda>w. redis_codes (rs_live w)) ?w
        (([] @ [Saved ''c'' g]) @ [Took ''c'' (coerceCodeGrant g)]) ?w" using 2 by (rule shots.took)
    then have "shots (s_SaveCode ?R) (s_TakeCode ?R) (\<lambda>w. redis_codes (rs_live w)) ?w
        ((([] @ [Saved ''c'' g]) @ [Took ''c'' (coerceCodeGrant g)]) @ [Refused ''c'']) ?w"
      using 3 by (rule shots.refused)
    then show ?thesis by simp
  qed
  have e: "redis_codes (rs_live ?w) ''c'' = None" by (simp add: redis_codes_def entries_def rs_live_def)
  from redis_one_shot [OF rs.redis_client_axioms s e] s show ?thesis by blast
qed

text \<open>
  C25. Redis round trip: a code that was saved and is found again comes back as it was saved,
  with invalid UTF-8 replaced (so unchanged when its strings are valid); it is gone then, and
  the refresh tokens and pending logins, which share the key space, are untouched.
\<close>

theorem redis_code_roundtrip:
  assumes "redis_client R db" and "s_SaveCode (redisStore R) c g ttl w = (None, w1)" and "0 < ttl"
    and "s_TakeCode (redisStore R) c w1 = (Inr x, w2)"
  shows "x = coerceCodeGrant g \<and> redis_codes (db w2) c = None \<and>
    redis_refresh (db w2) = redis_refresh (db w) \<and> redis_auth (db w2) = redis_auth (db w)"
  using redis_client.save_take_code [OF assms] by blast

theorem redis_code_roundtrip_witness:
  "\<exists>g x w1 w2. s_SaveCode (redisStore rs_client) ''c'' g Minute
       \<lparr>rs_now = 0, rs_faults = [], rs_db = Map.empty\<rparr> = (None, w1) \<and>
     s_TakeCode (redisStore rs_client) ''c'' w1 = (Inr x, w2) \<and> x = coerceCodeGrant g"
proof -
  define g :: CodeGrant where "g = \<lparr>cg_ClientID = ''kargus'', cg_RedirectURI = [], cg_CodeChallenge = [],
    cg_Nonce = [], cg_Subject = [], cg_AccessToken = ''t'', cg_IDToken = [], cg_RefreshToken = [], cg_ExpiresIn = 600\<rparr>"
  let ?R = "redisStore rs_client" and ?w = "\<lparr>rs_now = 0, rs_faults = [], rs_db = Map.empty\<rparr>"
  let ?w1 = "?w\<lparr>rs_db := [''code:c'' \<mapsto> (marshalCodeGrant g, Some Minute)]\<rparr>"
  have 1: "s_SaveCode ?R ''c'' g Minute ?w = (None, ?w1)"
    by (simp add: redisStore_sel redis_save_def rs_client_def rs_call_def)
  obtain x w2 where 2: "s_TakeCode ?R ''c'' ?w1 = (Inr x, w2)"
    by (simp add: redisStore_sel redis_take_def rs_client_def rs_call_def rs_live_def unmarshal_marshal)
  have "(0 :: int) < Minute" by simp
  from redis_code_roundtrip [OF rs.redis_client_axioms 1 this 2] 1 2 show ?thesis by blast
qed

end
