(* ===== verification/Deep_Copy.thy ===== *)
theory Deep_Copy
  imports Kargus_Model
begin

text \<open>
  The custom resource in memory and its deep copies
  (\<open>operator/api/v1/zz_generated.deepcopy.go\<close>). The rest of the development treats a resource as
  an immutable value; in Go its slices, maps and pointers are shared until they are copied.
  Here they are addresses in a heap, and a deep copy is shown to be an equal value that shares
  no address with its original: what the controller writes into \<open>bind\<close> never reaches \<open>orig\<close>.
\<close>

section \<open>The heap\<close>

type_synonym addr = nat

text \<open>A slice that is not \<open>nil\<close>: its backing array, its offset and its length.\<close>

record slice =
  sl_base :: addr
  sl_off :: nat
  sl_len :: nat

text \<open>The structs, with their pointers. \<open>None\<close> is \<open>nil\<close>.\<close>

record MemMeta =
  mm_Name :: string
  mm_Namespace :: string
  mm_UID :: string
  mm_Annotations :: "addr option"
  mm_Labels :: "addr option"
  mm_Finalizers :: "slice option"
  mm_CreationTimestamp :: time
  mm_DeletionTimestamp :: "addr option"

record MemServiceBind =
  ms_Ref :: string
  ms_Status :: BindPhase
  ms_ExpiresAt :: "addr option"

record MemSpec =
  mp_TTL :: string
  mp_Domain :: string
  mp_User :: string
  mp_Memberships :: "slice option"

record MemStatus =
  mt_Conditions :: "slice option"
  mt_Sv :: MemServiceBind

record TypeMeta =
  ty_Kind :: string
  ty_APIVersion :: string

record MemBind =
  mb_TypeMeta :: TypeMeta
  mb_ObjectMeta :: MemMeta
  mb_Spec :: MemSpec
  mb_Status :: MemStatus

record MemListMeta =
  lm_ResourceVersion :: string
  lm_Continue :: string
  lm_RemainingItemCount :: "addr option"

record MemBindList =
  ml_TypeMeta :: TypeMeta
  ml_ListMeta :: MemListMeta
  ml_Items :: "slice option"

datatype cell =
    CTime time
  | CInt int
  | CMap "string \<rightharpoonup> string"
  | CStrings "string list"
  | CMembers "CRMembership list"
  | CConds "Condition list"
  | CBinds "MemBind list"

text \<open>Addresses from \<open>hp_next\<close> on are not in use.\<close>

record heap =
  hp_cells :: "addr \<Rightarrow> cell option"
  hp_next :: addr

definition alloc :: "cell \<Rightarrow> heap \<Rightarrow> addr \<times> heap" where
  "alloc c h = (hp_next h, \<lparr>hp_cells = (hp_cells h)(hp_next h \<mapsto> c), hp_next = Suc (hp_next h)\<rparr>)"

definition window :: "slice \<Rightarrow> 'a list \<Rightarrow> 'a list" where
  "window s xs = take (sl_len s) (drop (sl_off s) xs)"

fun cell_time :: "cell option \<Rightarrow> time" where
  "cell_time (Some (CTime t)) = t" | "cell_time _ = 0"
fun cell_int :: "cell option \<Rightarrow> int" where
  "cell_int (Some (CInt n)) = n" | "cell_int _ = 0"
fun cell_map :: "cell option \<Rightarrow> string \<rightharpoonup> string" where
  "cell_map (Some (CMap m)) = m" | "cell_map _ = Map.empty"
fun cell_strings :: "cell option \<Rightarrow> string list" where
  "cell_strings (Some (CStrings xs)) = xs" | "cell_strings _ = []"
fun cell_members :: "cell option \<Rightarrow> CRMembership list" where
  "cell_members (Some (CMembers xs)) = xs" | "cell_members _ = []"
fun cell_conds :: "cell option \<Rightarrow> Condition list" where
  "cell_conds (Some (CConds xs)) = xs" | "cell_conds _ = []"
fun cell_binds :: "cell option \<Rightarrow> MemBind list" where
  "cell_binds (Some (CBinds xs)) = xs" | "cell_binds _ = []"

definition elems :: "(cell option \<Rightarrow> 'a list) \<Rightarrow> heap \<Rightarrow> slice option \<Rightarrow> 'a list" where
  "elems f h p = (case p of None \<Rightarrow> [] | Some s \<Rightarrow> window s (f (hp_cells h (sl_base s))))"

text \<open>\<open>make\<close> of a slice, filled.\<close>

definition make_slice :: "('a list \<Rightarrow> cell) \<Rightarrow> 'a list \<Rightarrow> heap \<Rightarrow> slice option \<times> heap" where
  "make_slice c xs h = (case alloc (c xs) h of (a, h') \<Rightarrow> (Some \<lparr>sl_base = a, sl_off = 0, sl_len = length xs\<rparr>, h'))"

section \<open>The generated functions\<close>

text \<open>The copy functions of the package \<open>metav1\<close>.\<close>

record metalib =
  mc_Time :: "addr \<Rightarrow> heap \<Rightarrow> addr \<times> heap"
  mc_Condition :: "Condition \<Rightarrow> Condition"
  mc_ObjectMeta :: "MemMeta \<Rightarrow> heap \<Rightarrow> MemMeta \<times> heap"
  mc_ListMeta :: "MemListMeta \<Rightarrow> heap \<Rightarrow> MemListMeta \<times> heap"

definition Membership_DeepCopyInto :: "CRMembership \<Rightarrow> CRMembership" where
  "Membership_DeepCopyInto in' = in'"

definition ServiceBind_DeepCopyInto :: "metalib \<Rightarrow> MemServiceBind \<Rightarrow> heap \<Rightarrow> MemServiceBind \<times> heap" where
  "ServiceBind_DeepCopyInto M in' h =
     (case ms_ExpiresAt in' of
        None \<Rightarrow> (in', h)
      | Some p \<Rightarrow> (case mc_Time M p h of (q, h') \<Rightarrow> (in'\<lparr>ms_ExpiresAt := Some q\<rparr>, h')))"

definition Spec_DeepCopyInto :: "MemSpec \<Rightarrow> heap \<Rightarrow> MemSpec \<times> heap" where
  "Spec_DeepCopyInto in' h =
     (case mp_Memberships in' of
        None \<Rightarrow> (in', h)
      | Some s \<Rightarrow>
        (case make_slice CMembers (elems cell_members h (Some s)) h of (out, h') \<Rightarrow> (in'\<lparr>mp_Memberships := out\<rparr>, h')))"

definition Status_DeepCopyInto :: "metalib \<Rightarrow> MemStatus \<Rightarrow> heap \<Rightarrow> MemStatus \<times> heap" where
  "Status_DeepCopyInto M in' h =
     (case (case mt_Conditions in' of
              None \<Rightarrow> (None, h)
            | Some s \<Rightarrow> make_slice CConds (map (mc_Condition M) (elems cell_conds h (Some s))) h) of
        (cs, h1) \<Rightarrow>
        (case ServiceBind_DeepCopyInto M (mt_Sv in') h1 of (sv, h2) \<Rightarrow> (\<lparr>mt_Conditions = cs, mt_Sv = sv\<rparr>, h2)))"

definition Bind_DeepCopyInto :: "metalib \<Rightarrow> MemBind \<Rightarrow> heap \<Rightarrow> MemBind \<times> heap" where
  "Bind_DeepCopyInto M in' h =
     (case mc_ObjectMeta M (mb_ObjectMeta in') h of (om, h1) \<Rightarrow>
      (case Spec_DeepCopyInto (mb_Spec in') h1 of (sp, h2) \<Rightarrow>
       (case Status_DeepCopyInto M (mb_Status in') h2 of (st, h3) \<Rightarrow>
         (\<lparr>mb_TypeMeta = mb_TypeMeta in', mb_ObjectMeta = om, mb_Spec = sp, mb_Status = st\<rparr>, h3))))"

text \<open>
  The loop over the items. The array is allocated when its elements are there: the order of
  allocations cannot be observed.
\<close>

fun copyItems :: "metalib \<Rightarrow> MemBind list \<Rightarrow> heap \<Rightarrow> MemBind list \<times> heap" where
  "copyItems M [] h = ([], h)"
| "copyItems M (b # bs) h =
     (case Bind_DeepCopyInto M b h of (b', h1) \<Rightarrow> (case copyItems M bs h1 of (bs', h2) \<Rightarrow> (b' # bs', h2)))"

definition BindList_DeepCopyInto :: "metalib \<Rightarrow> MemBindList \<Rightarrow> heap \<Rightarrow> MemBindList \<times> heap" where
  "BindList_DeepCopyInto M in' h =
     (case mc_ListMeta M (ml_ListMeta in') h of (lm, h1) \<Rightarrow>
      (case (case ml_Items in' of
               None \<Rightarrow> (None, h1)
             | Some s \<Rightarrow> (case copyItems M (elems cell_binds h1 (Some s)) h1 of (xs, h2) \<Rightarrow> make_slice CBinds xs h2)) of
         (items, h3) \<Rightarrow> (\<lparr>ml_TypeMeta = ml_TypeMeta in', ml_ListMeta = lm, ml_Items = items\<rparr>, h3)))"

text \<open>
  \<open>DeepCopy\<close> of a pointer: \<open>None\<close> is \<open>nil\<close>, \<open>Some\<close> a pointer to a struct of its own.
\<close>

definition Membership_DeepCopy :: "CRMembership option \<Rightarrow> CRMembership option" where
  "Membership_DeepCopy p = (case p of None \<Rightarrow> None | Some x \<Rightarrow> Some (Membership_DeepCopyInto x))"

definition ServiceBind_DeepCopy :: "metalib \<Rightarrow> MemServiceBind option \<Rightarrow> heap \<Rightarrow> MemServiceBind option \<times> heap" where
  "ServiceBind_DeepCopy M p h =
     (case p of None \<Rightarrow> (None, h) | Some x \<Rightarrow> (case ServiceBind_DeepCopyInto M x h of (out, h') \<Rightarrow> (Some out, h')))"

definition Spec_DeepCopy :: "MemSpec option \<Rightarrow> heap \<Rightarrow> MemSpec option \<times> heap" where
  "Spec_DeepCopy p h =
     (case p of None \<Rightarrow> (None, h) | Some x \<Rightarrow> (case Spec_DeepCopyInto x h of (out, h') \<Rightarrow> (Some out, h')))"

definition Status_DeepCopy :: "metalib \<Rightarrow> MemStatus option \<Rightarrow> heap \<Rightarrow> MemStatus option \<times> heap" where
  "Status_DeepCopy M p h =
     (case p of None \<Rightarrow> (None, h) | Some x \<Rightarrow> (case Status_DeepCopyInto M x h of (out, h') \<Rightarrow> (Some out, h')))"

definition Bind_DeepCopy :: "metalib \<Rightarrow> MemBind option \<Rightarrow> heap \<Rightarrow> MemBind option \<times> heap" where
  "Bind_DeepCopy M p h =
     (case p of None \<Rightarrow> (None, h) | Some x \<Rightarrow> (case Bind_DeepCopyInto M x h of (out, h') \<Rightarrow> (Some out, h')))"

definition BindList_DeepCopy :: "metalib \<Rightarrow> MemBindList option \<Rightarrow> heap \<Rightarrow> MemBindList option \<times> heap" where
  "BindList_DeepCopy M p h =
     (case p of None \<Rightarrow> (None, h) | Some x \<Rightarrow> (case BindList_DeepCopyInto M x h of (out, h') \<Rightarrow> (Some out, h')))"

datatype runtime_Object = BindObject MemBind | BindListObject MemBindList

definition Bind_DeepCopyObject :: "metalib \<Rightarrow> MemBind option \<Rightarrow> heap \<Rightarrow> runtime_Object option \<times> heap" where
  "Bind_DeepCopyObject M p h =
     (case Bind_DeepCopy M p h of (Some c, h') \<Rightarrow> (Some (BindObject c), h') | (None, h') \<Rightarrow> (None, h'))"

definition BindList_DeepCopyObject :: "metalib \<Rightarrow> MemBindList option \<Rightarrow> heap \<Rightarrow> runtime_Object option \<times> heap" where
  "BindList_DeepCopyObject M p h =
     (case BindList_DeepCopy M p h of (Some c, h') \<Rightarrow> (Some (BindListObject c), h') | (None, h') \<Rightarrow> (None, h'))"

section \<open>What a struct stands for\<close>

text \<open>For each struct the value it stands for in a heap, and the addresses it reaches.\<close>

definition slice_addrs :: "slice option \<Rightarrow> addr set" where
  "slice_addrs p = sl_base ` set_option p"

definition read_time :: "heap \<Rightarrow> addr option \<Rightarrow> time option" where
  "read_time h p = map_option (\<lambda>a. cell_time (hp_cells h a)) p"

definition read_map :: "heap \<Rightarrow> addr option \<Rightarrow> string \<rightharpoonup> string" where
  "read_map h p = (case p of None \<Rightarrow> Map.empty | Some a \<Rightarrow> cell_map (hp_cells h a))"

definition meta_addrs :: "heap \<Rightarrow> MemMeta \<Rightarrow> addr set" where
  "meta_addrs h m =
     set_option (mm_Annotations m) \<union> set_option (mm_Labels m) \<union> slice_addrs (mm_Finalizers m) \<union>
     set_option (mm_DeletionTimestamp m)"

definition read_meta :: "heap \<Rightarrow> MemMeta \<Rightarrow> ObjectMeta" where
  "read_meta h m =
     \<lparr>om_Name = mm_Name m, om_Namespace = mm_Namespace m, om_UID = mm_UID m,
      om_Annotations = read_map h (mm_Annotations m), om_Labels = read_map h (mm_Labels m),
      om_Finalizers = elems cell_strings h (mm_Finalizers m),
      om_CreationTimestamp = mm_CreationTimestamp m,
      om_DeletionTimestamp = read_time h (mm_DeletionTimestamp m)\<rparr>"

definition sv_addrs :: "heap \<Rightarrow> MemServiceBind \<Rightarrow> addr set" where
  "sv_addrs h x = set_option (ms_ExpiresAt x)"

definition read_sv :: "heap \<Rightarrow> MemServiceBind \<Rightarrow> ServiceBind" where
  "read_sv h x = \<lparr>sv_Ref = ms_Ref x, sv_Status = ms_Status x, sv_ExpiresAt = read_time h (ms_ExpiresAt x)\<rparr>"

definition spec_addrs :: "heap \<Rightarrow> MemSpec \<Rightarrow> addr set" where
  "spec_addrs h x = slice_addrs (mp_Memberships x)"

definition read_spec :: "heap \<Rightarrow> MemSpec \<Rightarrow> UserAuthenticationBindSpec" where
  "read_spec h x =
     \<lparr>spec_TTL = mp_TTL x, spec_Domain = mp_Domain x, spec_User = mp_User x,
      spec_Memberships = elems cell_members h (mp_Memberships x)\<rparr>"

definition status_addrs :: "heap \<Rightarrow> MemStatus \<Rightarrow> addr set" where
  "status_addrs h x = slice_addrs (mt_Conditions x) \<union> sv_addrs h (mt_Sv x)"

definition read_status :: "heap \<Rightarrow> MemStatus \<Rightarrow> UserAuthenticationBindStatus" where
  "read_status h x = \<lparr>st_Conditions = elems cell_conds h (mt_Conditions x), st_Sv = read_sv h (mt_Sv x)\<rparr>"

definition bind_addrs :: "heap \<Rightarrow> MemBind \<Rightarrow> addr set" where
  "bind_addrs h b = meta_addrs h (mb_ObjectMeta b) \<union> spec_addrs h (mb_Spec b) \<union> status_addrs h (mb_Status b)"

definition read_bind :: "heap \<Rightarrow> MemBind \<Rightarrow> TypeMeta \<times> UserAuthenticationBind" where
  "read_bind h b =
     (mb_TypeMeta b,
      ObjectMeta.extend (read_meta h (mb_ObjectMeta b))
        (UserAuthenticationBind.fields (read_spec h (mb_Spec b)) (read_status h (mb_Status b))))"

definition listmeta_addrs :: "heap \<Rightarrow> MemListMeta \<Rightarrow> addr set" where
  "listmeta_addrs h x = set_option (lm_RemainingItemCount x)"

definition read_listmeta :: "heap \<Rightarrow> MemListMeta \<Rightarrow> string \<times> string \<times> int option" where
  "read_listmeta h x =
     (lm_ResourceVersion x, lm_Continue x, map_option (\<lambda>a. cell_int (hp_cells h a)) (lm_RemainingItemCount x))"

definition items_addrs :: "heap \<Rightarrow> MemBind list \<Rightarrow> addr set" where
  "items_addrs h bs = (\<Union>b \<in> set bs. bind_addrs h b)"

definition read_items :: "heap \<Rightarrow> MemBind list \<Rightarrow> (TypeMeta \<times> UserAuthenticationBind) list" where
  "read_items h bs = map (read_bind h) bs"

definition list_addrs :: "heap \<Rightarrow> MemBindList \<Rightarrow> addr set" where
  "list_addrs h x =
     listmeta_addrs h (ml_ListMeta x) \<union> slice_addrs (ml_Items x) \<union> items_addrs h (elems cell_binds h (ml_Items x))"

definition read_list where
  "read_list h x =
     (ml_TypeMeta x, read_listmeta h (ml_ListMeta x), read_items h (elems cell_binds h (ml_Items x)))"

section \<open>Copies\<close>

definition extends :: "heap \<Rightarrow> heap \<Rightarrow> bool" where
  "extends h h' \<longleftrightarrow> hp_next h \<le> hp_next h' \<and> (\<forall>a < hp_next h. hp_cells h' a = hp_cells h a)"

definition in_use :: "heap \<Rightarrow> addr set" where
  "in_use h = {..<hp_next h}"

text \<open>
  \<open>y\<close> in \<open>h'\<close> is a copy of \<open>x\<close> in \<open>h\<close>: nothing that was there has changed, everything \<open>y\<close> reaches
  is new, and it stands for the same value.
\<close>

definition copied ::
  "(heap \<Rightarrow> 't \<Rightarrow> addr set) \<Rightarrow> (heap \<Rightarrow> 't \<Rightarrow> 'v) \<Rightarrow> heap \<Rightarrow> 't \<Rightarrow> heap \<Rightarrow> 't \<Rightarrow> bool" where
  "copied A R h x h' y \<longleftrightarrow> extends h h' \<and> A h' y \<subseteq> in_use h' - in_use h \<and> R h' y = R h x"

text \<open>What a struct stands for depends only on what it reaches.\<close>

definition reads_only :: "(heap \<Rightarrow> 't \<Rightarrow> addr set) \<Rightarrow> (heap \<Rightarrow> 't \<Rightarrow> 'v) \<Rightarrow> bool" where
  "reads_only A R \<longleftrightarrow>
     (\<forall>x h g. (\<forall>a \<in> A h x. hp_cells g a = hp_cells h a) \<longrightarrow> R g x = R h x \<and> A g x = A h x)"

lemma extends_refl [simp]: "extends h h"
  by (simp add: extends_def)

lemma extends_trans [trans]: "extends h h1 \<Longrightarrow> extends h1 h2 \<Longrightarrow> extends h h2"
  by (simp add: extends_def)

lemma extends_in_use: "extends h h' \<Longrightarrow> in_use h \<subseteq> in_use h'"
  by (auto simp: extends_def in_use_def)

lemma reads_onlyD:
  assumes "reads_only A R" and "\<And>a. a \<in> A h x \<Longrightarrow> hp_cells g a = hp_cells h a"
  shows "R g x = R h x" and "A g x = A h x"
  using assms unfolding reads_only_def by blast+

lemma extends_read:
  assumes "reads_only A R" and "extends h h'" and "A h x \<subseteq> in_use h"
  shows "R h' x = R h x" and "A h' x = A h x"
  using assms(2,3) by (auto intro!: reads_onlyD [OF assms(1)] simp: extends_def in_use_def)

lemma copied_extend:
  assumes "reads_only A R" and "copied A R h x h1 y" and "extends h1 h2"
  shows "copied A R h x h2 y"
proof -
  have "A h1 y \<subseteq> in_use h1" using assms(2) by (auto simp: copied_def)
  from extends_read [OF assms(1,3) this] show ?thesis
    using assms(2,3) extends_in_use [OF assms(3)] by (auto simp: copied_def intro: extends_trans)
qed

lemma copied_from:
  assumes "reads_only A R" and "extends h h1" and "A h x \<subseteq> in_use h" and "copied A R h1 x h2 y"
  shows "copied A R h x h2 y"
  using extends_read [OF assms(1-3)] assms(2,4) extends_in_use [OF assms(2)]
  by (auto simp: copied_def intro: extends_trans)

lemma alloc_copied:
  assumes "alloc c h = (a, h')"
  shows "extends h h'" and "a \<in> in_use h' - in_use h" and "hp_cells h' a = Some c"
  using assms by (auto simp: alloc_def extends_def in_use_def)

lemma make_slice_copied:
  assumes "make_slice c xs h = (p, h')" and "\<And>ys. f (Some (c ys)) = ys"
  shows "extends h h'" and "slice_addrs p \<subseteq> in_use h' - in_use h" and "elems f h' p = xs"
  using assms alloc_copied [of "c xs" h]
  by (auto simp: make_slice_def slice_addrs_def elems_def window_def split: prod.splits)

section \<open>Only what is reached is read\<close>

lemma read_eqs:
  "(\<And>a. a \<in> set_option p \<Longrightarrow> hp_cells g a = hp_cells h a) \<Longrightarrow> read_time g p = read_time h p"
  "(\<And>a. a \<in> set_option p \<Longrightarrow> hp_cells g a = hp_cells h a) \<Longrightarrow> read_map g p = read_map h p"
  "(\<And>a. a \<in> slice_addrs q \<Longrightarrow> hp_cells g a = hp_cells h a) \<Longrightarrow> elems f g q = elems f h q"
  by (cases p; cases q; simp add: read_time_def read_map_def elems_def slice_addrs_def)+

lemma reads_only_parts:
  "reads_only meta_addrs read_meta" "reads_only sv_addrs read_sv" "reads_only spec_addrs read_spec"
  "reads_only listmeta_addrs read_listmeta"
  by (auto simp: reads_only_def meta_addrs_def read_meta_def sv_addrs_def read_sv_def spec_addrs_def read_spec_def
      listmeta_addrs_def read_listmeta_def intro!: read_eqs option.map_cong)

lemma reads_onlyI:
  assumes "\<And>x h g. (\<And>a. a \<in> A h x \<Longrightarrow> hp_cells g a = hp_cells h a) \<Longrightarrow> R g x = R h x \<and> A g x = A h x"
  shows "reads_only A R"
  unfolding reads_only_def by (intro allI impI, rule assms) blast

lemma reads_only_status: "reads_only status_addrs read_status"
proof (rule reads_onlyI)
  fix x and h g :: heap
  assume e: "\<And>a. a \<in> status_addrs h x \<Longrightarrow> hp_cells g a = hp_cells h a"
  have "read_sv g (mt_Sv x) = read_sv h (mt_Sv x)" "sv_addrs g (mt_Sv x) = sv_addrs h (mt_Sv x)"
    by (rule reads_onlyD [OF reads_only_parts(2)]; rule e; simp add: status_addrs_def)+
  moreover have "elems cell_conds g (mt_Conditions x) = elems cell_conds h (mt_Conditions x)"
    by (rule read_eqs(3), rule e) (simp add: status_addrs_def)
  ultimately show "read_status g x = read_status h x \<and> status_addrs g x = status_addrs h x"
    by (simp add: status_addrs_def read_status_def)
qed

lemma reads_only_bind: "reads_only bind_addrs read_bind"
proof (rule reads_onlyI)
  fix x and h g :: heap
  assume e: "\<And>a. a \<in> bind_addrs h x \<Longrightarrow> hp_cells g a = hp_cells h a"
  have "read_meta g (mb_ObjectMeta x) = read_meta h (mb_ObjectMeta x)" "meta_addrs g (mb_ObjectMeta x) = meta_addrs h (mb_ObjectMeta x)"
    by (rule reads_onlyD [OF reads_only_parts(1)]; rule e; simp add: bind_addrs_def)+
  moreover have "read_spec g (mb_Spec x) = read_spec h (mb_Spec x)" "spec_addrs g (mb_Spec x) = spec_addrs h (mb_Spec x)"
    by (rule reads_onlyD [OF reads_only_parts(3)]; rule e; simp add: bind_addrs_def)+
  moreover have "read_status g (mb_Status x) = read_status h (mb_Status x)" "status_addrs g (mb_Status x) = status_addrs h (mb_Status x)"
    by (rule reads_onlyD [OF reads_only_status]; rule e; simp add: bind_addrs_def)+
  ultimately show "read_bind g x = read_bind h x \<and> bind_addrs g x = bind_addrs h x"
    by (simp add: bind_addrs_def read_bind_def)
qed

lemma reads_only_items: "reads_only items_addrs read_items"
proof (rule reads_onlyI)
  fix x and h g :: heap
  assume e: "\<And>a. a \<in> items_addrs h x \<Longrightarrow> hp_cells g a = hp_cells h a"
  have "read_bind g b = read_bind h b" "bind_addrs g b = bind_addrs h b" if "b \<in> set x" for b
    by (rule reads_onlyD [OF reads_only_bind]; rule e; use that in \<open>auto simp: items_addrs_def\<close>)+
  then show "read_items g x = read_items h x \<and> items_addrs g x = items_addrs h x"
    by (simp add: items_addrs_def read_items_def cong: SUP_cong)
qed

lemma reads_only_list: "reads_only list_addrs read_list"
proof (rule reads_onlyI)
  fix x and h g :: heap
  assume e: "\<And>a. a \<in> list_addrs h x \<Longrightarrow> hp_cells g a = hp_cells h a"
  have l: "elems cell_binds g (ml_Items x) = elems cell_binds h (ml_Items x)"
    by (rule read_eqs(3), rule e) (simp add: list_addrs_def)
  have "read_listmeta g (ml_ListMeta x) = read_listmeta h (ml_ListMeta x)" "listmeta_addrs g (ml_ListMeta x) = listmeta_addrs h (ml_ListMeta x)"
    by (rule reads_onlyD [OF reads_only_parts(4)]; rule e; simp add: list_addrs_def)+
  moreover have "read_items g (elems cell_binds h (ml_Items x)) = read_items h (elems cell_binds h (ml_Items x))"
    "items_addrs g (elems cell_binds h (ml_Items x)) = items_addrs h (elems cell_binds h (ml_Items x))"
    by (rule reads_onlyD [OF reads_only_items]; rule e; simp add: list_addrs_def)+
  ultimately show "read_list g x = read_list h x \<and> list_addrs g x = list_addrs h x"
    by (simp add: list_addrs_def read_list_def l)
qed

section \<open>The copies are copies\<close>

locale deep_copier =
  fixes M :: metalib
  assumes time_copy: "mc_Time M p h = (q, h') \<Longrightarrow> p \<in> in_use h \<Longrightarrow>
      extends h h' \<and> q \<in> in_use h' - in_use h \<and> hp_cells h' q = hp_cells h p"
    and condition_copy: "mc_Condition M c = c"
    and meta_copy: "mc_ObjectMeta M m h = (m', h') \<Longrightarrow> meta_addrs h m \<subseteq> in_use h \<Longrightarrow> copied meta_addrs read_meta h m h' m'"
    and listmeta_copy: "mc_ListMeta M l h = (l', h') \<Longrightarrow> listmeta_addrs h l \<subseteq> in_use h \<Longrightarrow>
      copied listmeta_addrs read_listmeta h l h' l'"
begin

lemma ServiceBind_copied:
  assumes "ServiceBind_DeepCopyInto M x h = (y, h')" and "sv_addrs h x \<subseteq> in_use h"
  shows "copied sv_addrs read_sv h x h' y"
  using assms time_copy [of _ h]
  by (fastforce simp: ServiceBind_DeepCopyInto_def copied_def sv_addrs_def read_sv_def read_time_def
      split: option.splits prod.splits)

lemma Spec_copied:
  assumes "Spec_DeepCopyInto x h = (y, h')" and "spec_addrs h x \<subseteq> in_use h"
  shows "copied spec_addrs read_spec h x h' y"
proof (cases "mp_Memberships x")
  case None
  with assms show ?thesis by (auto simp: Spec_DeepCopyInto_def copied_def spec_addrs_def read_spec_def slice_addrs_def)
next
  case (Some s)
  obtain p h1 where m: "make_slice CMembers (elems cell_members h (Some s)) h = (p, h1)" by fastforce
  with assms(1) Some have "y = x\<lparr>mp_Memberships := p\<rparr>" "h' = h1" by (auto simp: Spec_DeepCopyInto_def)
  with make_slice_copied [OF m, of cell_members] Some show ?thesis by (simp add: copied_def spec_addrs_def read_spec_def)
qed

lemma Status_copied:
  assumes "Status_DeepCopyInto M x h = (y, h')" and "status_addrs h x \<subseteq> in_use h"
  shows "copied status_addrs read_status h x h' y"
proof -
  obtain cs h1 where c: "(case mt_Conditions x of None \<Rightarrow> (None, h)
      | Some s \<Rightarrow> make_slice CConds (map (mc_Condition M) (elems cell_conds h (Some s))) h) = (cs, h1)" by fastforce
  obtain sv h2 where v: "ServiceBind_DeepCopyInto M (mt_Sv x) h1 = (sv, h2)" by fastforce
  have y: "y = \<lparr>mt_Conditions = cs, mt_Sv = sv\<rparr>" "h' = h2" using assms(1) by (auto simp: Status_DeepCopyInto_def c v)
  have m: "map (mc_Condition M) xs = xs" for xs by (simp add: condition_copy map_idI)
  have cc: "extends h h1 \<and> slice_addrs cs \<subseteq> in_use h1 - in_use h \<and> elems cell_conds h1 cs = elems cell_conds h (mt_Conditions x)"
    using c make_slice_copied [of CConds _ h cs h1 cell_conds]
    by (cases "mt_Conditions x") (auto simp: m elems_def slice_addrs_def)
  have sv: "copied sv_addrs read_sv h (mt_Sv x) h2 sv"
  proof (rule copied_from [OF reads_only_parts(2)])
    show "copied sv_addrs read_sv h1 (mt_Sv x) h2 sv"
      using v assms(2) cc extends_in_use [of h h1] by (intro ServiceBind_copied) (auto simp: status_addrs_def sv_addrs_def)
  qed (use cc assms(2) in \<open>auto simp: status_addrs_def\<close>)
  have e: "extends h1 h2"
    using ServiceBind_copied [OF v] assms(2) cc extends_in_use [of h h1] by (auto simp: status_addrs_def sv_addrs_def copied_def)
  have "elems cell_conds h2 cs = elems cell_conds h1 cs"
    using e cc by (intro read_eqs(3)) (auto simp: extends_def in_use_def)
  with sv cc extends_in_use [OF e] show ?thesis by (auto simp: copied_def y status_addrs_def read_status_def)
qed

lemma Bind_copied:
  assumes "Bind_DeepCopyInto M x h = (y, h')" and "bind_addrs h x \<subseteq> in_use h"
  shows "copied bind_addrs read_bind h x h' y"
proof -
  obtain om h1 where 1: "mc_ObjectMeta M (mb_ObjectMeta x) h = (om, h1)" by fastforce
  obtain sp h2 where 2: "Spec_DeepCopyInto (mb_Spec x) h1 = (sp, h2)" by fastforce
  obtain st h3 where 3: "Status_DeepCopyInto M (mb_Status x) h2 = (st, h3)" by fastforce
  have y: "y = \<lparr>mb_TypeMeta = mb_TypeMeta x, mb_ObjectMeta = om, mb_Spec = sp, mb_Status = st\<rparr>" "h' = h3"
    using assms(1) by (auto simp: Bind_DeepCopyInto_def 1 2 3)
  have a: "meta_addrs h (mb_ObjectMeta x) \<subseteq> in_use h" "spec_addrs h (mb_Spec x) \<subseteq> in_use h" "status_addrs h (mb_Status x) \<subseteq> in_use h"
    using assms(2) by (auto simp: bind_addrs_def)
  have c1: "copied meta_addrs read_meta h (mb_ObjectMeta x) h1 om" using 1 a(1) by (rule meta_copy)
  then have e1: "extends h h1" by (simp add: copied_def)
  have c2: "copied spec_addrs read_spec h1 (mb_Spec x) h2 sp"
    using 2 a(2) extends_in_use [OF e1] by (intro Spec_copied) (auto simp: spec_addrs_def)
  then have e2: "extends h1 h2" by (simp add: copied_def)
  have s: "status_addrs h2 (mb_Status x) \<subseteq> in_use h2"
    using a(3) extends_in_use [OF e1] extends_in_use [OF e2] by (auto simp: status_addrs_def sv_addrs_def)
  have c3: "copied status_addrs read_status h2 (mb_Status x) h3 st" using 3 s by (rule Status_copied)
  then have e3: "extends h2 h3" by (simp add: copied_def)
  have "copied meta_addrs read_meta h (mb_ObjectMeta x) h3 om"
    by (rule copied_extend [OF reads_only_parts(1) c1 extends_trans [OF e2 e3]])
  moreover have "copied spec_addrs read_spec h (mb_Spec x) h3 sp"
    by (rule copied_from [OF reads_only_parts(3) e1 a(2) copied_extend [OF reads_only_parts(3) c2 e3]])
  moreover have "copied status_addrs read_status h (mb_Status x) h3 st"
    by (rule copied_from [OF reads_only_status extends_trans [OF e1 e2] a(3) c3])
  ultimately show ?thesis by (auto simp: copied_def y bind_addrs_def read_bind_def)
qed

lemma items_copied:
  assumes "copyItems M bs h = (bs', h')" and "items_addrs h bs \<subseteq> in_use h"
  shows "copied items_addrs read_items h bs h' bs'"
  using assms
proof (induction bs arbitrary: h bs' h')
  case Nil
  then show ?case by (simp add: copied_def items_addrs_def read_items_def)
next
  case (Cons b bs)
  obtain b' h1 where 1: "Bind_DeepCopyInto M b h = (b', h1)" by fastforce
  obtain cs h2 where 2: "copyItems M bs h1 = (cs, h2)" by fastforce
  have y: "bs' = b' # cs" "h' = h2" using Cons.prems(1) by (auto simp: 1 2)
  have a: "bind_addrs h b \<subseteq> in_use h" "items_addrs h bs \<subseteq> in_use h" using Cons.prems(2) by (auto simp: items_addrs_def)
  have c1: "copied bind_addrs read_bind h b h1 b'" using 1 a(1) by (rule Bind_copied)
  then have e1: "extends h h1" by (simp add: copied_def)
  have "items_addrs h1 bs \<subseteq> in_use h1"
    using extends_read(2) [OF reads_only_items e1 a(2)] a(2) extends_in_use [OF e1] by auto
  with 2 have c2: "copied items_addrs read_items h1 bs h2 cs" by (rule Cons.IH)
  then have e2: "extends h1 h2" by (simp add: copied_def)
  have "copied bind_addrs read_bind h b h2 b'" using reads_only_bind c1 e2 by (rule copied_extend)
  moreover have "copied items_addrs read_items h bs h2 cs" using reads_only_items e1 a(2) c2 by (rule copied_from)
  ultimately show ?case by (auto simp: copied_def y items_addrs_def read_items_def)
qed

lemma BindList_copied:
  assumes "BindList_DeepCopyInto M x h = (y, h')" and "list_addrs h x \<subseteq> in_use h"
  shows "copied list_addrs read_list h x h' y"
proof -
  obtain lm h1 where 1: "mc_ListMeta M (ml_ListMeta x) h = (lm, h1)" by fastforce
  obtain xs h2 where 2: "copyItems M (elems cell_binds h1 (ml_Items x)) h1 = (xs, h2)" by fastforce
  obtain p h3 where 3: "(case ml_Items x of None \<Rightarrow> (None, h1) | Some s \<Rightarrow> make_slice CBinds xs h2) = (p, h3)" by fastforce
  have y: "y = \<lparr>ml_TypeMeta = ml_TypeMeta x, ml_ListMeta = lm, ml_Items = p\<rparr>" "h' = h3"
    using assms(1) 2 3 by (auto simp: BindList_DeepCopyInto_def 1 split: option.splits)
  have a: "listmeta_addrs h (ml_ListMeta x) \<subseteq> in_use h" "slice_addrs (ml_Items x) \<subseteq> in_use h"
    "items_addrs h (elems cell_binds h (ml_Items x)) \<subseteq> in_use h" using assms(2) by (auto simp: list_addrs_def)
  have c1: "copied listmeta_addrs read_listmeta h (ml_ListMeta x) h1 lm" using 1 a(1) by (rule listmeta_copy)
  then have e1: "extends h h1" by (simp add: copied_def)
  have i: "elems cell_binds h1 (ml_Items x) = elems cell_binds h (ml_Items x)"
    using a(2) e1 by (intro read_eqs(3)) (auto simp: extends_def in_use_def)
  have "items_addrs h1 (elems cell_binds h (ml_Items x)) \<subseteq> in_use h1"
    using extends_read(2) [OF reads_only_items e1 a(3)] a(3) extends_in_use [OF e1] by auto
  with 2 have c2: "copied items_addrs read_items h1 (elems cell_binds h (ml_Items x)) h2 xs" unfolding i by (rule items_copied)
  then have e2: "extends h1 h2" by (simp add: copied_def)
  have n: "xs = []" "h2 = h1" if "ml_Items x = None" using 2 that by (auto simp: elems_def)
  have c3: "extends h2 h3" "slice_addrs p \<subseteq> in_use h3 - in_use h2" "elems cell_binds h3 p = xs"
    using 3 n make_slice_copied [of CBinds xs h2 p h3 cell_binds]
    by (cases "ml_Items x"; auto simp: elems_def slice_addrs_def)+
  have "copied listmeta_addrs read_listmeta h (ml_ListMeta x) h3 lm"
    by (rule copied_extend [OF reads_only_parts(4) c1 extends_trans [OF e2 c3(1)]])
  moreover have "copied items_addrs read_items h (elems cell_binds h (ml_Items x)) h3 xs"
    by (rule copied_from [OF reads_only_items e1 a(3) copied_extend [OF reads_only_items c2 c3(1)]])
  moreover have "slice_addrs p \<subseteq> in_use h3 - in_use h"
    using c3(2) extends_in_use [OF e1] extends_in_use [OF e2] by auto
  ultimately show ?thesis by (auto simp: copied_def y list_addrs_def read_list_def c3(3))
qed

end

section \<open>Objects\<close>

text \<open>The method \<open>DeepCopyObject\<close> of an object that is not \<open>nil\<close>.\<close>

fun DeepCopyObject :: "metalib \<Rightarrow> runtime_Object \<Rightarrow> heap \<Rightarrow> runtime_Object option \<times> heap" where
  "DeepCopyObject M (BindObject b) = Bind_DeepCopyObject M (Some b)"
| "DeepCopyObject M (BindListObject l) = BindList_DeepCopyObject M (Some l)"

fun object_addrs :: "heap \<Rightarrow> runtime_Object \<Rightarrow> addr set" where
  "object_addrs h (BindObject b) = bind_addrs h b"
| "object_addrs h (BindListObject l) = list_addrs h l"

fun read_object where
  "read_object h (BindObject b) = Inl (read_bind h b)"
| "read_object h (BindListObject l) = Inr (read_list h l)"

lemma reads_only_object: "reads_only object_addrs read_object"
proof (rule reads_onlyI)
  fix x and h g :: heap
  assume e: "\<And>a. a \<in> object_addrs h x \<Longrightarrow> hp_cells g a = hp_cells h a"
  show "read_object g x = read_object h x \<and> object_addrs g x = object_addrs h x"
    using e reads_onlyD [OF reads_only_bind, of h _ g] reads_onlyD [OF reads_only_list, of h _ g] by (cases x) auto
qed

lemma copied_independent:
  assumes "reads_only A R" and "A h x \<subseteq> in_use h" and "copied A R h x h' y"
  shows "(\<forall>a. a \<notin> A h' y \<longrightarrow> hp_cells g a = hp_cells h' a) \<Longrightarrow> R g x = R h x"
    and "(\<forall>a. a \<notin> A h x \<longrightarrow> hp_cells g a = hp_cells h' a) \<Longrightarrow> R g y = R h x"
proof -
  have c: "extends h h'" "A h' y \<subseteq> in_use h' - in_use h" "R h' y = R h x" using assms(3) by (auto simp: copied_def)
  show "R g x = R h x" if "\<forall>a. a \<notin> A h' y \<longrightarrow> hp_cells g a = hp_cells h' a"
  proof (rule reads_onlyD(1) [OF assms(1)])
    fix a
    assume "a \<in> A h x"
    then have "a \<in> in_use h" using assms(2) by blast
    moreover from this have "a \<notin> A h' y" using c(2) by blast
    ultimately show "hp_cells g a = hp_cells h a" using c(1) that by (simp add: extends_def in_use_def)
  qed
  show "R g y = R h x" if "\<forall>a. a \<notin> A h x \<longrightarrow> hp_cells g a = hp_cells h' a"
    using assms(2) c that by (subst c(3) [symmetric], intro reads_onlyD(1) [OF assms(1)]) blast
qed

lemma DeepCopyObject_copied:
  assumes "deep_copier M" and "DeepCopyObject M x h = (r, h')" and "object_addrs h x \<subseteq> in_use h"
  obtains y where "r = Some y" and "copied object_addrs read_object h x h' y"
proof (cases x)
  case (BindObject b)
  obtain c h1 where c: "Bind_DeepCopyInto M b h = (c, h1)" by fastforce
  show ?thesis
    by (rule that [of "BindObject c"])
      (use assms deep_copier.Bind_copied [OF assms(1) c] in \<open>auto simp: BindObject Bind_DeepCopyObject_def Bind_DeepCopy_def c copied_def\<close>)
next
  case (BindListObject l)
  obtain c h1 where c: "BindList_DeepCopyInto M l h = (c, h1)" by fastforce
  show ?thesis
    by (rule that [of "BindListObject c"])
      (use assms deep_copier.BindList_copied [OF assms(1) c] in \<open>auto simp: BindListObject BindList_DeepCopyObject_def BindList_DeepCopy_def c copied_def\<close>)
qed

section \<open>The copy functions in memory\<close>

definition copy_ptr :: "addr option \<Rightarrow> heap \<Rightarrow> addr option \<times> heap" where
  "copy_ptr p h =
     (case p of
        None \<Rightarrow> (None, h)
      | Some a \<Rightarrow>
        (Some (hp_next h), \<lparr>hp_cells = (hp_cells h)(hp_next h := hp_cells h a), hp_next = Suc (hp_next h)\<rparr>))"

definition copy_strings :: "slice option \<Rightarrow> heap \<Rightarrow> slice option \<times> heap" where
  "copy_strings p h = (case p of None \<Rightarrow> (None, h) | Some s \<Rightarrow> make_slice CStrings (elems cell_strings h (Some s)) h)"

definition mem_metalib :: metalib where
  "mem_metalib =
     \<lparr>mc_Time = \<lambda>p h. (case copy_ptr (Some p) h of (q, h') \<Rightarrow> (the q, h')),
      mc_Condition = \<lambda>c. c,
      mc_ObjectMeta = \<lambda>m h.
        (case copy_ptr (mm_Annotations m) h of (an, h1) \<Rightarrow>
         (case copy_ptr (mm_Labels m) h1 of (la, h2) \<Rightarrow>
          (case copy_ptr (mm_DeletionTimestamp m) h2 of (dt, h3) \<Rightarrow>
           (case copy_strings (mm_Finalizers m) h3 of (fi, h4) \<Rightarrow>
             (m\<lparr>mm_Annotations := an, mm_Labels := la, mm_Finalizers := fi, mm_DeletionTimestamp := dt\<rparr>, h4))))),
      mc_ListMeta = \<lambda>l h.
        (case copy_ptr (lm_RemainingItemCount l) h of (n, h1) \<Rightarrow> (l\<lparr>lm_RemainingItemCount := n\<rparr>, h1))\<rparr>"

lemma copy_ptr_copied:
  assumes "copy_ptr p h = (q, h')" and "set_option p \<subseteq> in_use h"
  shows "extends h h'" and "set_option q \<subseteq> in_use h' - in_use h"
    and "map_option (hp_cells h') q = map_option (hp_cells h) p"
  using assms by (auto simp: copy_ptr_def extends_def in_use_def split: option.splits)

lemma copy_strings_copied:
  assumes "copy_strings p h = (q, h')"
  shows "extends h h'" and "slice_addrs q \<subseteq> in_use h' - in_use h" and "elems cell_strings h' q = elems cell_strings h p"
  using assms make_slice_copied [of CStrings _ h q h' cell_strings]
  by (auto simp: copy_strings_def slice_addrs_def elems_def split: option.splits)

lemma read_cells:
  "read_time h p = map_option cell_time (map_option (hp_cells h) p)"
  "read_map h p = (case map_option (hp_cells h) p of None \<Rightarrow> Map.empty | Some c \<Rightarrow> cell_map c)"
  "map_option (\<lambda>a. cell_int (hp_cells h a)) p = map_option cell_int (map_option (hp_cells h) p)"
  by (cases p; simp add: read_time_def read_map_def)+

lemma cells_extend: "extends h h' \<Longrightarrow> set_option p \<subseteq> in_use h \<Longrightarrow> map_option (hp_cells h') p = map_option (hp_cells h) p"
  by (cases p) (auto simp: extends_def in_use_def)

lemma mem_ObjectMeta_copied:
  assumes "mc_ObjectMeta mem_metalib m h = (m', h')" and "meta_addrs h m \<subseteq> in_use h"
  shows "copied meta_addrs read_meta h m h' m'"
proof -
  obtain an h1 where 1: "copy_ptr (mm_Annotations m) h = (an, h1)" by fastforce
  obtain la h2 where 2: "copy_ptr (mm_Labels m) h1 = (la, h2)" by fastforce
  obtain dt h3 where 3: "copy_ptr (mm_DeletionTimestamp m) h2 = (dt, h3)" by fastforce
  obtain fi h4 where 4: "copy_strings (mm_Finalizers m) h3 = (fi, h4)" by fastforce
  have y: "m' = m\<lparr>mm_Annotations := an, mm_Labels := la, mm_Finalizers := fi, mm_DeletionTimestamp := dt\<rparr>" "h' = h4"
    using assms(1) by (auto simp: mem_metalib_def 1 2 3 4)
  have a: "set_option (mm_Annotations m) \<subseteq> in_use h" "set_option (mm_Labels m) \<subseteq> in_use h"
    "set_option (mm_DeletionTimestamp m) \<subseteq> in_use h" "slice_addrs (mm_Finalizers m) \<subseteq> in_use h"
    using assms(2) by (auto simp: meta_addrs_def)
  note c1 = copy_ptr_copied [OF 1 a(1)]
  have u1: "in_use h \<subseteq> in_use h1" using c1(1) by (rule extends_in_use)
  note c2 = copy_ptr_copied [OF 2 subset_trans [OF a(2) u1]]
  have u2: "in_use h1 \<subseteq> in_use h2" using c2(1) by (rule extends_in_use)
  note c3 = copy_ptr_copied [OF 3 subset_trans [OF a(3) subset_trans [OF u1 u2]]]
  have u3: "in_use h2 \<subseteq> in_use h3" using c3(1) by (rule extends_in_use)
  note c4 = copy_strings_copied [OF 4]
  have u4: "in_use h3 \<subseteq> in_use h4" using c4(1) by (rule extends_in_use)
  have e: "extends h1 h4" "extends h2 h4" "extends h h3" "extends h h2" "extends h h4"
    using c1(1) c2(1) c3(1) c4(1) by (meson extends_trans)+
  have "map_option (hp_cells h4) an = map_option (hp_cells h) (mm_Annotations m)"
    using cells_extend [OF e(1), of an] c1(2,3) by auto
  moreover have "map_option (hp_cells h4) la = map_option (hp_cells h) (mm_Labels m)"
    using cells_extend [OF e(2), of la] cells_extend [OF c1(1) a(2)] c2(2,3) by auto
  moreover have "map_option (hp_cells h4) dt = map_option (hp_cells h) (mm_DeletionTimestamp m)"
    using cells_extend [OF c4(1), of dt] cells_extend [OF e(4) a(3)] c3(2,3) by auto
  moreover have "elems cell_strings h4 fi = elems cell_strings h (mm_Finalizers m)"
    using c4(3) e(3) a(4) read_eqs(3) [of "mm_Finalizers m" h3 h] by (auto simp: extends_def in_use_def)
  moreover have "set_option an \<union> set_option la \<union> slice_addrs fi \<union> set_option dt \<subseteq> in_use h4 - in_use h"
    using c1(2) c2(2) c3(2) c4(2) u1 u2 u3 u4 by blast
  ultimately show ?thesis using e(5) by (simp add: copied_def y meta_addrs_def read_meta_def read_cells)
qed

interpretation mem_copier: deep_copier mem_metalib
proof
  show "extends h h' \<and> q \<in> in_use h' - in_use h \<and> hp_cells h' q = hp_cells h p"
    if "mc_Time mem_metalib p h = (q, h')" "p \<in> in_use h" for p h q h'
    using that by (auto simp: mem_metalib_def copy_ptr_def extends_def in_use_def)
  show "copied listmeta_addrs read_listmeta h l h' l'"
    if "mc_ListMeta mem_metalib l h = (l', h')" "listmeta_addrs h l \<subseteq> in_use h" for l h l' h'
    using that copy_ptr_copied [of "lm_RemainingItemCount l" h]
    by (auto simp: mem_metalib_def copied_def listmeta_addrs_def read_listmeta_def read_cells split: prod.splits)
qed (simp_all add: mem_ObjectMeta_copied, simp add: mem_metalib_def)

section \<open>Independence\<close>

text \<open>
  C18. A deep copy of a resource, or of a list of them, is an equal value, and the two are
  independent: whatever is later written to what the copy reaches, the original stands for the
  same value, and the other way round. In particular the baseline \<open>orig\<close> of the controller's
  status patches keeps the state that was read, whatever is written into \<open>bind\<close>.
\<close>

theorem deep_copy_independent:
  assumes "deep_copier M" and "DeepCopyObject M x h = (r, h')" and "object_addrs h x \<subseteq> in_use h"
  shows "\<exists>y. r = Some y \<and> read_object h' y = read_object h x \<and>
    (\<forall>g. (\<forall>a. a \<notin> object_addrs h' y \<longrightarrow> hp_cells g a = hp_cells h' a) \<longrightarrow> read_object g x = read_object h x) \<and>
    (\<forall>g. (\<forall>a. a \<notin> object_addrs h x \<longrightarrow> hp_cells g a = hp_cells h' a) \<longrightarrow> read_object g y = read_object h x)"
proof -
  obtain y where y: "r = Some y" "copied object_addrs read_object h x h' y"
    using assms by (rule DeepCopyObject_copied)
  show ?thesis
  proof (intro exI conjI allI impI)
    show "r = Some y" by (fact y(1))
    show "read_object h' y = read_object h x" using y(2) by (simp add: copied_def)
  qed (rule copied_independent [OF reads_only_object assms(3) y(2)], blast)+
qed

definition ex_heap :: heap where
  "ex_heap =
     \<lparr>hp_cells = (\<lambda>_. None)(0 \<mapsto> CTime 5, 1 \<mapsto> CMembers [\<lparr>crm_Gid = ''eng'', crm_Name = ''Eng'', crm_Domain = ''acme.io''\<rparr>]),
      hp_next = 2\<rparr>"

definition ex_struct :: MemBind where
  "ex_struct =
     \<lparr>mb_TypeMeta = \<lparr>ty_Kind = ''UserAuthenticationBind'', ty_APIVersion = ''kargus.io/v1''\<rparr>,
      mb_ObjectMeta = \<lparr>mm_Name = ''ana'', mm_Namespace = ''kargus'', mm_UID = ''u1'', mm_Annotations = None, mm_Labels = None,
        mm_Finalizers = None, mm_CreationTimestamp = 0, mm_DeletionTimestamp = None\<rparr>,
      mb_Spec = \<lparr>mp_TTL = ''8h'', mp_Domain = ''acme.io'', mp_User = ''ana'',
        mp_Memberships = Some \<lparr>sl_base = 1, sl_off = 0, sl_len = 1\<rparr>\<rparr>,
      mb_Status = \<lparr>mt_Conditions = None, mt_Sv = \<lparr>ms_Ref = [], ms_Status = BindBinded, ms_ExpiresAt = Some 0\<rparr>\<rparr>\<rparr>"

theorem deep_copy_independent_witness:
  "\<exists>y h'. DeepCopyObject mem_metalib (BindObject ex_struct) ex_heap = (Some y, h') \<and>
     (\<forall>g. (\<forall>a. a \<notin> object_addrs h' y \<longrightarrow> hp_cells g a = hp_cells h' a) \<longrightarrow>
        read_object g (BindObject ex_struct) = read_object ex_heap (BindObject ex_struct))"
proof -
  obtain r h' where c: "DeepCopyObject mem_metalib (BindObject ex_struct) ex_heap = (r, h')" by (rule prod.exhaust)
  have "object_addrs ex_heap (BindObject ex_struct) \<subseteq> in_use ex_heap"
    by (simp add: bind_addrs_def meta_addrs_def spec_addrs_def status_addrs_def sv_addrs_def slice_addrs_def ex_struct_def
        in_use_def ex_heap_def)
  from deep_copy_independent [OF mem_copier.deep_copier_axioms c this] c show ?thesis by blast
qed

end
