(* ===== verification/Api_Scheme.thy ===== *)
theory Api_Scheme
  imports Kargus_Prelude
begin

text \<open>
  The registration of the custom resource with apimachinery's scheme
  (\<open>operator/api/v1/groupversion_info.go\<close>, the \<open>init\<close> of \<open>userauthenticationbind_types.go\<close>) and
  the schemes the commands build from it. The scheme and its builder are not code of the
  repository: they are the record \<open>schemelib\<close>, with what is documented about them in the locale
  \<open>scheme_lib\<close>.
\<close>

type_synonym group_version = "string \<times> string"

record 's schemelib =
  sl_AddToGroupVersion :: "group_version \<Rightarrow> 's \<Rightarrow> 's"
  sl_AddKnownTypes :: "group_version \<Rightarrow> string list \<Rightarrow> 's \<Rightarrow> 's"
  sl_AddToScheme :: "('s \<Rightarrow> goerror option \<times> 's) list \<Rightarrow> 's \<Rightarrow> goerror option \<times> 's"
  sl_clientgo :: "'s \<Rightarrow> goerror option \<times> 's"

definition SchemeGroupVersion :: group_version where
  "SchemeGroupVersion = (''kargus.io'', ''v1'')"

text \<open>The builder after the package is initialised: its own function, then the one that \<open>init\<close> registers.\<close>

definition registerTypes :: "'s schemelib \<Rightarrow> 's \<Rightarrow> goerror option \<times> 's" where
  "registerTypes SL s =
     (None, sl_AddKnownTypes SL SchemeGroupVersion [''UserAuthenticationBind'', ''UserAuthenticationBindList''] s)"

definition SchemeBuilder :: "'s schemelib \<Rightarrow> ('s \<Rightarrow> goerror option \<times> 's) list" where
  "SchemeBuilder SL = [\<lambda>s. (None, sl_AddToGroupVersion SL SchemeGroupVersion s), registerTypes SL]"

definition AddToScheme :: "'s schemelib \<Rightarrow> 's \<Rightarrow> goerror option \<times> 's" where
  "AddToScheme SL = sl_AddToScheme SL (SchemeBuilder SL)"

text \<open>The operator's \<open>init\<close>: \<open>utilruntime.Must\<close> panics (\<open>None\<close>) on an error.\<close>

definition operator_init :: "'s schemelib \<Rightarrow> 's \<Rightarrow> 's option" where
  "operator_init SL s =
     (case sl_clientgo SL s of
        (Some e, _) \<Rightarrow> None
      | (None, s1) \<Rightarrow> (case AddToScheme SL s1 of (Some e, _) \<Rightarrow> None | (None, s2) \<Rightarrow> Some s2))"

text \<open>The broker's scheme: an error ends \<open>run\<close>.\<close>

definition server_scheme :: "'s schemelib \<Rightarrow> 's \<Rightarrow> 's res" where
  "server_scheme SL s =
     (case sl_clientgo SL s of
        (Some e, _) \<Rightarrow> Inl e
      | (None, s1) \<Rightarrow> (case AddToScheme SL s1 of (Some e, _) \<Rightarrow> Inl e | (None, s2) \<Rightarrow> Inr s2))"

locale scheme_lib =
  fixes SL :: "'s schemelib" and known :: "'s \<Rightarrow> (group_version \<times> string) set"
  assumes run_Nil: "sl_AddToScheme SL [] s = (None, s)"
    and run_Cons: "sl_AddToScheme SL (f # fs) s =
      (case f s of (Some e, s') \<Rightarrow> (Some e, s') | (None, s') \<Rightarrow> sl_AddToScheme SL fs s')"
    and known_types: "known (sl_AddKnownTypes SL gv ks s) = known s \<union> {gv} \<times> set ks"
    and known_group: "known s \<subseteq> known (sl_AddToGroupVersion SL gv s)"
begin

text \<open>Registration cannot fail, keeps what was known and makes both kinds known.\<close>

lemma AddToScheme_knows:
  "\<exists>s'. AddToScheme SL s = (None, s') \<and> known s \<subseteq> known s' \<and>
     (SchemeGroupVersion, ''UserAuthenticationBind'') \<in> known s' \<and> (SchemeGroupVersion, ''UserAuthenticationBindList'') \<in> known s'"
  using known_group [of s SchemeGroupVersion]
  by (auto simp: AddToScheme_def SchemeBuilder_def registerTypes_def run_Nil run_Cons known_types)

lemma schemes_agree: "operator_init SL s = (case server_scheme SL s of Inl e \<Rightarrow> None | Inr s' \<Rightarrow> Some s')"
  by (simp add: operator_init_def server_scheme_def split: prod.split option.split)

lemma server_scheme_knows:
  assumes "server_scheme SL s = Inr s'"
  shows "(SchemeGroupVersion, ''UserAuthenticationBind'') \<in> known s'"
proof -
  obtain s1 where "AddToScheme SL s1 = (None, s')"
    using assms by (auto simp: server_scheme_def split: prod.splits option.splits)
  with AddToScheme_knows [of s1] show ?thesis by auto
qed

end

text \<open>A scheme as the set of the kinds it knows.\<close>

fun run_builder :: "('s \<Rightarrow> goerror option \<times> 's) list \<Rightarrow> 's \<Rightarrow> goerror option \<times> 's" where
  "run_builder [] s = (None, s)"
| "run_builder (f # fs) s = (case f s of (Some e, s') \<Rightarrow> (Some e, s') | (None, s') \<Rightarrow> run_builder fs s')"

definition set_scheme :: "((group_version \<times> string) set) schemelib" where
  "set_scheme =
     \<lparr>sl_AddToGroupVersion = \<lambda>gv s. insert (gv, ''ListOptions'') s, sl_AddKnownTypes = \<lambda>gv ks s. s \<union> {gv} \<times> set ks,
      sl_AddToScheme = run_builder, sl_clientgo = \<lambda>s. (None, insert (([], ''v1''), ''ServiceAccount'') s)\<rparr>"

interpretation set_scheme: scheme_lib set_scheme "\<lambda>s. s"
  by unfold_locales (auto simp: set_scheme_def split: prod.split option.split)

end
