(* ===== verification/Operator_Main.thy ===== *)
theory Operator_Main
  imports Config Api_Scheme
begin

text \<open>
  The operator's command (\<open>operator/cmd/main.go\<close>): its flags, read as the package \<open>flag\<close> does,
  the options of the servers it makes of them, and its exit status. The flags that
  libraries add (\<open>zaplib\<close>) and controller-runtime (\<open>mgrlib\<close>) are parameters. The process ends with
  status 2 on a usage error, as the package does by default.
\<close>

section \<open>Flags\<close>

record OperatorFlags =
  of_metricsAddr :: string
  of_probeAddr :: string
  of_enableLeaderElection :: bool
  of_secureMetrics :: bool
  of_webhookCertPath :: string
  of_webhookCertName :: string
  of_webhookCertKey :: string
  of_metricsCertPath :: string
  of_metricsCertName :: string
  of_metricsCertKey :: string
  of_enableHTTP2 :: bool

definition defaultFlags :: OperatorFlags where
  "defaultFlags =
     \<lparr>of_metricsAddr = ''0'', of_probeAddr = '':8081'', of_enableLeaderElection = False, of_secureMetrics = True,
      of_webhookCertPath = [], of_webhookCertName = ''tls.crt'', of_webhookCertKey = ''tls.key'',
      of_metricsCertPath = [], of_metricsCertName = ''tls.crt'', of_metricsCertKey = ''tls.key'',
      of_enableHTTP2 = False\<rparr>"

datatype flag_var =
    StringVar "string \<Rightarrow> OperatorFlags \<Rightarrow> OperatorFlags"
  | BoolVar "bool \<Rightarrow> OperatorFlags \<Rightarrow> OperatorFlags"

definition flag_vars :: "(string \<times> flag_var) list" where
  "flag_vars =
     [(''metrics-bind-address'', StringVar (\<lambda>v f. f\<lparr>of_metricsAddr := v\<rparr>)),
      (''health-probe-bind-address'', StringVar (\<lambda>v f. f\<lparr>of_probeAddr := v\<rparr>)),
      (''leader-elect'', BoolVar (\<lambda>v f. f\<lparr>of_enableLeaderElection := v\<rparr>)),
      (''metrics-secure'', BoolVar (\<lambda>v f. f\<lparr>of_secureMetrics := v\<rparr>)),
      (''webhook-cert-path'', StringVar (\<lambda>v f. f\<lparr>of_webhookCertPath := v\<rparr>)),
      (''webhook-cert-name'', StringVar (\<lambda>v f. f\<lparr>of_webhookCertName := v\<rparr>)),
      (''webhook-cert-key'', StringVar (\<lambda>v f. f\<lparr>of_webhookCertKey := v\<rparr>)),
      (''metrics-cert-path'', StringVar (\<lambda>v f. f\<lparr>of_metricsCertPath := v\<rparr>)),
      (''metrics-cert-name'', StringVar (\<lambda>v f. f\<lparr>of_metricsCertName := v\<rparr>)),
      (''metrics-cert-key'', StringVar (\<lambda>v f. f\<lparr>of_metricsCertKey := v\<rparr>)),
      (''enable-http2'', BoolVar (\<lambda>v f. f\<lparr>of_enableHTTP2 := v\<rparr>))]"

text \<open>
  The flags that \<open>opts.BindFlags\<close> and controller-runtime add: \<open>zl_kind\<close> tells whether a name is defined and whether it
  is a boolean flag, \<open>zl_set\<close> sets it.
\<close>

record 'z zaplib =
  zl_kind :: "string \<Rightarrow> bool option"
  zl_set :: "string \<Rightarrow> string \<Rightarrow> 'z \<Rightarrow> 'z res"

definition isBoolFlag :: "'z zaplib \<Rightarrow> string \<Rightarrow> bool option" where
  "isBoolFlag Z name =
     (case map_of flag_vars name of
        Some (StringVar _) \<Rightarrow> Some False
      | Some (BoolVar _) \<Rightarrow> Some True
      | None \<Rightarrow> zl_kind Z name)"

definition setFlag :: "'z zaplib \<Rightarrow> string \<Rightarrow> string \<Rightarrow> OperatorFlags \<times> 'z \<Rightarrow> (OperatorFlags \<times> 'z) res" where
  "setFlag Z name v st =
     (case map_of flag_vars name of
        Some (StringVar upd) \<Rightarrow> Inr (upd v (fst st), snd st)
      | Some (BoolVar upd) \<Rightarrow>
        (case ParseBool v of None \<Rightarrow> Inl (Errorf ''parse error'') | Some b \<Rightarrow> Inr (upd b (fst st), snd st))
      | None \<Rightarrow> (case zl_set Z name v (snd st) of Inl e \<Rightarrow> Inl e | Inr z \<Rightarrow> Inr (fst st, z)))"

text \<open>\<open>flag.Parse\<close>. A value may follow an equals sign; a string flag also takes the next argument.\<close>

datatype 'z parse_result =
    Parsed "OperatorFlags \<times> 'z" "string list"
  | Help
  | Usage string

definition flag_text :: "string \<Rightarrow> string" where
  "flag_text s = (if 1 < length s \<and> s ! 1 = CHR ''-'' then drop 2 s else drop 1 s)"

definition flag_name :: "string \<Rightarrow> string" where
  "flag_name s = takeWhile (\<lambda>c. c \<noteq> CHR ''='') (flag_text s)"

definition flag_value :: "string \<Rightarrow> string option" where
  "flag_value s =
     (case dropWhile (\<lambda>c. c \<noteq> CHR ''='') (flag_text s) of [] \<Rightarrow> None | _ # v \<Rightarrow> Some v)"

fun parseFlags :: "'z zaplib \<Rightarrow> string list \<Rightarrow> OperatorFlags \<times> 'z \<Rightarrow> 'z parse_result" where
  "parseFlags Z [] st = Parsed st []"
| "parseFlags Z (s # args) st =
     (if length s < 2 \<or> hd s \<noteq> CHR ''-'' then Parsed st (s # args)
      else if s = ''--'' then Parsed st args
      else if hd (flag_text s) = CHR ''-'' \<or> hd (flag_text s) = CHR ''='' then Usage (''bad flag syntax: '' @ s)
      else
        (case isBoolFlag Z (flag_name s) of
           None \<Rightarrow>
             if flag_name s = ''help'' \<or> flag_name s = ''h'' then Help
             else Usage (''flag provided but not defined: -'' @ flag_name s)
         | Some True \<Rightarrow>
             (case setFlag Z (flag_name s) (case flag_value s of Some v \<Rightarrow> v | None \<Rightarrow> ''true'') st of
                Inl e \<Rightarrow> Usage (''invalid boolean value for -'' @ flag_name s)
              | Inr st' \<Rightarrow> parseFlags Z args st')
         | Some False \<Rightarrow>
             (case (flag_value s, args) of
                (Some v, _) \<Rightarrow>
                  (case setFlag Z (flag_name s) v st of
                     Inl e \<Rightarrow> Usage (''invalid value for flag -'' @ flag_name s)
                   | Inr st' \<Rightarrow> parseFlags Z args st')
              | (None, []) \<Rightarrow> Usage (''flag needs an argument: -'' @ flag_name s)
              | (None, v # rest) \<Rightarrow>
                  (case setFlag Z (flag_name s) v st of
                     Inl e \<Rightarrow> Usage (''invalid value for flag -'' @ flag_name s)
                   | Inr st' \<Rightarrow> parseFlags Z rest st'))))"

section \<open>Server options\<close>

record tlsConfig =
  tls_NextProtos :: "string list"

record webhookOptions =
  wo_TLSOpts :: "(tlsConfig \<Rightarrow> tlsConfig) list"
  wo_CertDir :: string
  wo_CertName :: string
  wo_KeyName :: string

text \<open>\<open>mo_Filter\<close>: whether the endpoint is protected by authentication and authorization.\<close>

record metricsOptions =
  mo_BindAddress :: string
  mo_SecureServing :: bool
  mo_TLSOpts :: "(tlsConfig \<Rightarrow> tlsConfig) list"
  mo_Filter :: bool
  mo_CertDir :: string
  mo_CertName :: string
  mo_KeyName :: string

record managerOptions =
  mg_Metrics :: metricsOptions
  mg_WebhookServer :: webhookOptions
  mg_HealthProbeBindAddress :: string
  mg_LeaderElection :: bool
  mg_LeaderElectionID :: string

definition disableHTTP2 :: "tlsConfig \<Rightarrow> tlsConfig" where
  "disableHTTP2 c = c\<lparr>tls_NextProtos := [''http/1.1'']\<rparr>"

definition tlsOpts :: "OperatorFlags \<Rightarrow> (tlsConfig \<Rightarrow> tlsConfig) list" where
  "tlsOpts f = (if \<not> of_enableHTTP2 f then [disableHTTP2] else [])"

definition webhookServerOptions :: "OperatorFlags \<Rightarrow> webhookOptions" where
  "webhookServerOptions f =
     (let opts = \<lparr>wo_TLSOpts = tlsOpts f, wo_CertDir = [], wo_CertName = [], wo_KeyName = []\<rparr>
      in if of_webhookCertPath f \<noteq> [] then
           opts\<lparr>wo_CertDir := of_webhookCertPath f, wo_CertName := of_webhookCertName f, wo_KeyName := of_webhookCertKey f\<rparr>
         else opts)"

definition metricsServerOptions :: "OperatorFlags \<Rightarrow> metricsOptions" where
  "metricsServerOptions f =
     (let opts = \<lparr>mo_BindAddress = of_metricsAddr f, mo_SecureServing = of_secureMetrics f, mo_TLSOpts = tlsOpts f,
                  mo_Filter = of_secureMetrics f, mo_CertDir = [], mo_CertName = [], mo_KeyName = []\<rparr>
      in if of_metricsCertPath f \<noteq> [] then
           opts\<lparr>mo_CertDir := of_metricsCertPath f, mo_CertName := of_metricsCertName f, mo_KeyName := of_metricsCertKey f\<rparr>
         else opts)"

definition managerOptions_of :: "OperatorFlags \<Rightarrow> managerOptions" where
  "managerOptions_of f =
     \<lparr>mg_Metrics = metricsServerOptions f, mg_WebhookServer = webhookServerOptions f,
      mg_HealthProbeBindAddress = of_probeAddr f, mg_LeaderElection = of_enableLeaderElection f,
      mg_LeaderElectionID = ''d647d578.kargus.io''\<rparr>"

section \<open>The command\<close>

text \<open>
  What \<open>SetupWithManager\<close> asks controller-runtime for: a controller of this name, which runs
  \<open>Reconcile\<close> for every object of this kind. \<open>ml_Complete\<close> builds it.
\<close>

record controllerSpec =
  cs_For :: string
  cs_Named :: string

text \<open>
  \<open>ml_NewManager\<close> includes \<open>GetConfigOrDie\<close>, which ends the process with status 1 as well.
\<close>

record 'w mgrlib =
  ml_NewManager :: "managerOptions \<Rightarrow> 'w \<Rightarrow> goerror option \<times> 'w"
  ml_Complete :: "controllerSpec \<Rightarrow> 'w \<Rightarrow> goerror option \<times> 'w"
  ml_AddHealthzCheck :: "'w \<Rightarrow> goerror option \<times> 'w"
  ml_AddReadyzCheck :: "'w \<Rightarrow> goerror option \<times> 'w"
  ml_Start :: "'w \<Rightarrow> goerror option \<times> 'w"

definition SetupWithManager :: "'w mgrlib \<Rightarrow> 'w \<Rightarrow> goerror option \<times> 'w" where
  "SetupWithManager ML =
     ml_Complete ML \<lparr>cs_For = ''UserAuthenticationBind'', cs_Named = ''userauthenticationbind''\<rparr>"

text \<open>The steps after the flags: each is taken when the one before has succeeded.\<close>

fun exit_steps :: "('w \<Rightarrow> goerror option \<times> 'w) list \<Rightarrow> 'w \<Rightarrow> nat \<times> 'w" where
  "exit_steps [] w = (0, w)"
| "exit_steps (f # fs) w = (case f w of (Some e, w') \<Rightarrow> (1, w') | (None, w') \<Rightarrow> exit_steps fs w')"

definition operator_main ::
  "'z zaplib \<Rightarrow> 'z \<Rightarrow> 'w mgrlib \<Rightarrow> string list \<Rightarrow> 'w \<Rightarrow> nat \<times> 'w" where
  "operator_main Z z ML args w =
     (case parseFlags Z args (defaultFlags, z) of
        Usage _ \<Rightarrow> (2, w)
      | Help \<Rightarrow> (0, w)
      | Parsed (f, _) _ \<Rightarrow>
          exit_steps [ml_NewManager ML (managerOptions_of f), SetupWithManager ML, ml_AddHealthzCheck ML,
            ml_AddReadyzCheck ML, ml_Start ML] w)"

section \<open>Reading flags\<close>

text \<open>A flag that no argument names keeps its value.\<close>

definition keeps :: "string \<Rightarrow> (OperatorFlags \<Rightarrow> 'a) \<Rightarrow> bool" where
  "keeps nm p \<longleftrightarrow> (\<forall>name v b f. name \<noteq> nm \<longrightarrow>
     (case map_of flag_vars name of
        Some (StringVar upd) \<Rightarrow> p (upd v f) = p f | Some (BoolVar upd) \<Rightarrow> p (upd b f) = p f | None \<Rightarrow> True))"

lemma keepsD:
  assumes "keeps nm p" and "name \<noteq> nm"
  shows "map_of flag_vars name = Some (StringVar upd) \<Longrightarrow> p (upd v f) = p f"
    and "map_of flag_vars name = Some (BoolVar upd') \<Longrightarrow> p (upd' b f) = p f"
  using assms(1) [unfolded keeps_def, rule_format, OF assms(2), of v f b] by simp_all

lemma keeps_flags:
  "keeps ''enable-http2'' of_enableHTTP2" "keeps ''metrics-secure'' of_secureMetrics"
  by (auto simp: keeps_def flag_vars_def)

lemma setFlag_keeps:
  assumes "keeps nm p" and "setFlag Z name v st = Inr st'" and "name \<noteq> nm"
  shows "p (fst st') = p (fst st)"
  using assms(2) keepsD [OF assms(1,3)]
  by (auto simp: setFlag_def split: option.splits flag_var.splits sum.splits)

lemma parseFlags_keeps:
  assumes "keeps nm p" and "parseFlags Z args st = Parsed st' rest" and "\<And>a. a \<in> set args \<Longrightarrow> flag_name a \<noteq> nm"
  shows "p (fst st') = p (fst st)"
  using assms(2,3)
proof (induction Z args st rule: parseFlags.induct)
  case (2 Z s args st)
  have n: "flag_name s \<noteq> nm" using 2(5) by simp
  from 2 setFlag_keeps [OF assms(1) _ n] show ?case
    by (cases st) (auto split: if_splits option.splits bool.splits list.splits sum.splits)
qed simp

text \<open>An argument that assigns a value.\<close>

definition assignment :: "string \<Rightarrow> string \<Rightarrow> string" where
  "assignment name v = ''--'' @ name @ ''='' @ v"

lemma assignment_parts:
  assumes "CHR ''='' \<notin> set name"
  shows "flag_text (assignment name v) = name @ ''='' @ v" and "flag_name (assignment name v) = name"
    and "flag_value (assignment name v) = Some v"
proof -
  show t: "flag_text (assignment name v) = name @ ''='' @ v" by (simp add: flag_text_def assignment_def)
  have n: "c \<noteq> CHR ''=''" if "c \<in> set name" for c using assms that by auto
  show "flag_name (assignment name v) = name" unfolding flag_name_def t by (simp add: n)
  show "flag_value (assignment name v) = Some v" unfolding flag_value_def t by (simp add: n)
qed

lemma parse_assignment:
  assumes "(name, var) \<in> set flag_vars"
  shows "parseFlags Z (assignment name v # args) st =
    (case setFlag Z name v st of
       Inr st' \<Rightarrow> parseFlags Z args st'
     | Inl e \<Rightarrow> Usage ((case var of StringVar _ \<Rightarrow> ''invalid value for flag -'' | BoolVar _ \<Rightarrow> ''invalid boolean value for -'') @ name))"
proof -
  have n: "CHR ''='' \<notin> set name" "name \<noteq> []" "hd name \<noteq> CHR ''-''" using assms by (auto simp: flag_vars_def)
  have m: "map_of flag_vars name = Some var" using assms by (intro map_of_is_SomeI) (simp_all add: flag_vars_def)
  have a: "\<not> length (assignment name v) < 2" "hd (assignment name v) = CHR ''-''" "assignment name v \<noteq> ''--''"
    by (simp_all add: assignment_def)
  have h: "hd (flag_text (assignment name v)) \<noteq> CHR ''-''" "hd (flag_text (assignment name v)) \<noteq> CHR ''=''"
    unfolding assignment_parts(1) [OF n(1)] hd_append2 [OF n(2)] using n hd_in_set [OF n(2)] by metis+
  show ?thesis
    using a h m by (cases var) (auto simp: assignment_parts [OF n(1)] isBoolFlag_def split: sum.split)
qed

text \<open>The arguments that set every flag.\<close>

definition fmt_bool :: "bool \<Rightarrow> string" where
  "fmt_bool b = (if b then ''true'' else ''false'')"

definition flag_args :: "OperatorFlags \<Rightarrow> string list" where
  "flag_args f =
     [assignment ''metrics-bind-address'' (of_metricsAddr f), assignment ''health-probe-bind-address'' (of_probeAddr f),
      assignment ''leader-elect'' (fmt_bool (of_enableLeaderElection f)), assignment ''metrics-secure'' (fmt_bool (of_secureMetrics f)),
      assignment ''webhook-cert-path'' (of_webhookCertPath f), assignment ''webhook-cert-name'' (of_webhookCertName f),
      assignment ''webhook-cert-key'' (of_webhookCertKey f), assignment ''metrics-cert-path'' (of_metricsCertPath f),
      assignment ''metrics-cert-name'' (of_metricsCertName f), assignment ''metrics-cert-key'' (of_metricsCertKey f),
      assignment ''enable-http2'' (fmt_bool (of_enableHTTP2 f))]"

lemma ParseBool_fmt [simp]: "ParseBool (fmt_bool b) = Some b"
  by (simp add: ParseBool_def fmt_bool_def)

section \<open>Properties\<close>

text \<open>
  Every flag can be set and is read as it was written: the arguments that assign a value to
  each flag are parsed to exactly these values, whatever the flags were before, and nothing is
  left over.
\<close>

theorem flags_roundtrip: "parseFlags Z (flag_args f) (f0, z) = Parsed (f, z) []"
proof -
  have p: "(name, var) \<in> set flag_vars \<Longrightarrow> parseFlags Z (assignment name v # args) (g, z) =
    (case setFlag Z name v (g, z) of
       Inr st' \<Rightarrow> parseFlags Z args st'
     | Inl e \<Rightarrow> Usage ((case var of StringVar _ \<Rightarrow> ''invalid value for flag -'' | BoolVar _ \<Rightarrow> ''invalid boolean value for -'') @ name))"
    for name var v args g by (rule parse_assignment)
  show ?thesis unfolding flag_args_def
    by (simp add: p [OF map_of_SomeD] flag_vars_def setFlag_def del: parseFlags.simps(2))
qed

text \<open>
  C27. Safe unless told otherwise: if no argument names the flag \<open>enable-http2\<close>, both servers are
  restricted to HTTP/1.1; if none names \<open>metrics-secure\<close>, the metrics are served over TLS and to
  authorized clients only. And the metrics are never served over TLS without that check.
\<close>

theorem operator_safe_by_default:
  assumes "parseFlags Z args (defaultFlags, z) = Parsed (f, z') rest"
  shows "((\<forall>a \<in> set args. flag_name a \<noteq> ''enable-http2'') \<longrightarrow>
      (\<forall>c. tls_NextProtos (fold (\<lambda>g. g) (wo_TLSOpts (mg_WebhookServer (managerOptions_of f))) c) = [''http/1.1''] \<and>
           tls_NextProtos (fold (\<lambda>g. g) (mo_TLSOpts (mg_Metrics (managerOptions_of f))) c) = [''http/1.1''])) \<and>
    ((\<forall>a \<in> set args. flag_name a \<noteq> ''metrics-secure'') \<longrightarrow> mo_SecureServing (mg_Metrics (managerOptions_of f))) \<and>
    (mo_Filter (mg_Metrics (managerOptions_of f)) \<longleftrightarrow> mo_SecureServing (mg_Metrics (managerOptions_of f)))"
proof -
  have h: "\<not> of_enableHTTP2 f" if "\<forall>a \<in> set args. flag_name a \<noteq> ''enable-http2''"
    using parseFlags_keeps [OF keeps_flags(1) assms] that by (auto simp: defaultFlags_def)
  have s: "of_secureMetrics f" if "\<forall>a \<in> set args. flag_name a \<noteq> ''metrics-secure''"
    using parseFlags_keeps [OF keeps_flags(2) assms] that by (auto simp: defaultFlags_def)
  show ?thesis
    using h s by (auto simp: managerOptions_of_def webhookServerOptions_def metricsServerOptions_def tlsOpts_def
        disableHTTP2_def Let_def)
qed

definition ex_zap :: "nat zaplib" where
  "ex_zap = \<lparr>zl_kind = \<lambda>n. if n = ''zap-devel'' then Some True else None, zl_set = \<lambda>n v z. Inr (Suc z)\<rparr>"

theorem operator_safe_by_default_witness:
  "\<exists>f. parseFlags ex_zap [''--leader-elect'', ''-metrics-bind-address'', '':8443''] (defaultFlags, 0) = Parsed (f, 0) [] \<and>
     of_enableLeaderElection f \<and> of_metricsAddr f = '':8443'' \<and> mo_Filter (mg_Metrics (managerOptions_of f))"
proof -
  let ?f = "defaultFlags\<lparr>of_enableLeaderElection := True, of_metricsAddr := '':8443''\<rparr>"
  have p: "parseFlags ex_zap [''--leader-elect'', ''-metrics-bind-address'', '':8443''] (defaultFlags, 0) = Parsed (?f, 0) []"
    by (simp add: flag_text_def flag_name_def flag_value_def isBoolFlag_def setFlag_def flag_vars_def ParseBool_def)
  have "mo_Filter (mg_Metrics (managerOptions_of ?f))"
    using operator_safe_by_default [OF p] by (simp add: flag_name_def flag_text_def)
  with p show ?thesis by (intro exI [of _ ?f] conjI) simp_all
qed

text \<open>The status is 2 exactly for arguments that cannot be read.\<close>

lemma exit_steps_le: "fst (exit_steps fs w) \<le> 1"
  by (induction fs w rule: exit_steps.induct) (auto split: prod.splits option.splits)

lemma operator_main_usage:
  "fst (operator_main Z z ML args w) = 2 \<longleftrightarrow> (\<exists>m. parseFlags Z args (defaultFlags, z) = Usage m)"
proof -
  have "fst (exit_steps fs w) \<noteq> 2" for fs using exit_steps_le [of fs w] by linarith
  then show ?thesis by (auto simp: operator_main_def simp del: exit_steps.simps split: parse_result.splits)
qed

end
