(* ===== verification/Revocation.thy ===== *)
theory Revocation
  imports Traced_Broker Operator_Properties
begin

text \<open>
  The end of access. A run that leaves a resource bound asks to be run again when the bind
  expires, and the run at that time revokes. Two ways past this are shown as well: an expiry
  that comes while the run is still going, and lists that are answered from a cache.
\<close>

section \<open>Runs at the expiry\<close>


lemma Sub_past: "e \<le> t \<Longrightarrow> Sub e t \<le> 0"
  by (simp add: Sub_def)

lemma deleteKind_total:
  assumes list: "\<And>lab v w. \<exists>bs w'. list lab v w = (Inr bs, w')"
    and del: "\<And>b w e w'. delete b w = (Some e, w') \<Longrightarrow> errors_Is e ApiNotFound"
  shows "\<exists>w'. deleteKind list delete lm dm uid w = (None, w')"
proof -
  obtain bs w1 where "list ownerLabel uid w = (Inr bs, w1)" using list by meson
  moreover have "\<exists>w'. pruneBindings delete (\<lambda>_. False) dm bs w1 = (None, w')"
    using del by (rule pruneBindings_total)
  ultimately show ?thesis by (simp add: deleteKind_def)
qed

context reliable_api
begin

lemma deleteOwned_total: "\<exists>w'. deleteOwned K uid w = (None, w')"
proof -
  have "\<exists>w1. deleteKind (k_listCRBs K) (k_deleteCRB K) ''listing owned ClusterRoleBindings''
      ''deleting ClusterRoleBinding'' uid w = (None, w1)"
    by (rule deleteKind_total [OF listCRBs_total deleteCRB_total])
  then obtain w1 where "deleteKind (k_listCRBs K) (k_deleteCRB K) ''listing owned ClusterRoleBindings''
      ''deleting ClusterRoleBinding'' uid w = (None, w1)" ..
  moreover have "\<exists>w'. deleteKind (k_listRBs K) (k_deleteRB K) ''listing owned RoleBindings''
      ''deleting RoleBinding'' uid w1 = (None, w')"
    by (rule deleteKind_total [OF listRBs_total deleteRB_total])
  ultimately show ?thesis by (simp add: deleteOwned_def)
qed

lemma Reconcile_expired_total:
  assumes b: "cl_binds (view w) k = Some b" "live b" "phase b \<noteq> BindUnset"
    and e: "bindExpiry L b = Inr e" "e \<le> k_now K w"
  shows "\<exists>res w'. Reconcile K L k w = (Inr res, w')"
proof -
  obtain w0 where g: "k_getBind K k w = (Inr b, w0)" "k_now K w0 = k_now K w" using getBind_total b by blast
  have R: "Reconcile K L k w = reconcileExpired K b w0"
    using g b e by (simp add: Reconcile_live reconcileBind_def)
  have k: "nsname_of b = k" using b(1) by (rule bind_key)
  have b0: "cl_binds (view w0) k = Some b" using getBind_view [OF g(1)] b by simp
  have fin: "finalizer \<in> set (om_Finalizers b)" using b(2) by (simp add: live_def)
  obtain w1 where d: "deleteOwned K (om_UID b) w0 = (None, w1)" using deleteOwned_total by blast
  have "cl_binds (view w1) (nsname_of b) = Some b" using deleteOwned_step(2) [OF d b0 fin] b0 k by simp
  then obtain z w2 where "updatePhase K b b BindUnbound ConditionFalse ''Expired'' ''TTL elapsed'' w1 = ((None, z), w2)"
    by (rule updatePhase_total)
  with R d show ?thesis by (simp add: reconcileExpired_def finish_with_def done_or_def result_ok_def)
qed

end

text \<open>A cluster in memory with everything in place, on which a run is computed.\<close>

definition ex_settled :: UserAuthenticationBind where
  "ex_settled = set_ref_expiry ''s1'' (8 * Hour) (ex_bind [finalizer] BindBinded)"

text \<open>
  What every single call keeps, a run keeps: here the calls guarantee \<open>G\<close> without conditions.
\<close>

locale call_guarantee = guarantee inv G for inv :: "'w \<Rightarrow> bool" and G :: "'w \<Rightarrow> 'w \<Rightarrow> bool" +
  fixes K :: "('w, 'a) kube_scheme"
  assumes getBind: "inv w \<Longrightarrow> k_getBind K k w = (g, w') \<Longrightarrow> G w w'"
    and updateBind: "inv w \<Longrightarrow> k_updateBind K b w = (g, w') \<Longrightarrow> G w w'"
    and patchStatus: "inv w \<Longrightarrow> k_patchStatus K orig b w = (g, w') \<Longrightarrow> G w w'"
    and createOrUpdateSA: "inv w \<Longrightarrow> k_createOrUpdateSA K k f w = (s, w') \<Longrightarrow> G w w'"
    and listClusterRoles: "inv w \<Longrightarrow> k_listClusterRoles K w = (rs, w') \<Longrightarrow> G w w'"
    and listRoles: "inv w \<Longrightarrow> k_listRoles K w = (rs, w') \<Longrightarrow> G w w'"
    and createCRB: "inv w \<Longrightarrow> k_createCRB K x w = (e, w') \<Longrightarrow> G w w'"
    and listCRBs: "inv w \<Longrightarrow> k_listCRBs K l v w = (bs, w') \<Longrightarrow> G w w'"
    and deleteCRB: "inv w \<Longrightarrow> k_deleteCRB K x w = (e, w') \<Longrightarrow> G w w'"
    and createRB: "inv w \<Longrightarrow> k_createRB K x w = (e, w') \<Longrightarrow> G w w'"
    and listRBs: "inv w \<Longrightarrow> k_listRBs K l v w = (bs, w') \<Longrightarrow> G w w'"
    and deleteRB: "inv w \<Longrightarrow> k_deleteRB K x w = (e, w') \<Longrightarrow> G w w'"
begin

lemma sync_run:
  assumes w: "inv w" and run: "syncBindings K b sa w = (r, w')"
  shows "G w w'"
proof -
  obtain x w1 where l: "k_listClusterRoles K w = (x, w1)" by fastforce
  have g1: "G w w1" by (rule listClusterRoles [OF w l])
  show ?thesis
  proof (cases x)
    case (Inl e)
    with run l g1 show ?thesis by (simp add: syncBindings_def)
  next
    case (Inr rs)
    obtain e2 w2 where c: "syncClusterRoleBindings K (om_UID b) (desiredCRBs b (subject_of sa) rs) w1 = (e2, w2)"
      by fastforce
    have "G w1 w2"
      by (rule syncKind_G [where P = "\<lambda>_ _. True", OF createCRB _ listCRBs deleteCRB G_inv [OF g1] _
            c [unfolded syncClusterRoleBindings_def]]) simp_all
    with g1 have g2: "G w w2" by (rule G_trans)
    obtain y w3 where l3: "k_listRoles K w2 = (y, w3)" by fastforce
    from g2 listRoles [OF G_inv [OF g2] l3] have g3: "G w w3" by (rule G_trans)
    show ?thesis
    proof (cases "e2 = None \<and> (\<exists>qs. y = Inr qs)")
      case False
      with run l Inr c l3 g2 g3 show ?thesis by (cases e2; cases y) (auto simp: syncBindings_def)
    next
      case True
      then obtain qs where "y = Inr qs" by auto
      with True run l Inr c l3 have c4: "syncRoleBindings K (om_UID b) (desiredRBs b (subject_of sa) qs) w3 = (r, w')"
        by (simp add: syncBindings_def)
      have "G w3 w'"
        by (rule syncKind_G [where P = "\<lambda>_ _. True", OF createRB _ listRBs deleteRB G_inv [OF g3] _
              c4 [unfolded syncRoleBindings_def]]) simp_all
      with g3 show ?thesis by (rule G_trans)
    qed
  qed
qed

lemma delete_run:
  assumes w: "inv w" and run: "deleteOwned K uid w = (r, w')"
  shows "G w w'"
proof -
  obtain e w1 where d: "deleteKind (k_listCRBs K) (k_deleteCRB K) ''listing owned ClusterRoleBindings''
      ''deleting ClusterRoleBinding'' uid w = (e, w1)" by (rule prod.exhaust)
  have g: "G w w1" by (rule deleteKind_G [OF listCRBs deleteCRB w d])
  have "w' = w1 \<or> deleteKind (k_listRBs K) (k_deleteRB K) ''listing owned RoleBindings'' ''deleting RoleBinding'' uid w1 = (r, w')"
    using run d by (auto simp: deleteOwned_def split: option.splits)
  with deleteKind_G [OF listRBs deleteRB G_inv [OF g]] g show ?thesis by (auto intro: G_trans)
qed

lemma phase_run:
  assumes "inv w" and "updatePhase K orig b ph cs rs msg w = (x, w')"
  shows "G w w'"
  using assms(2) patchStatus [OF assms(1)] by (auto simp: updatePhase_def Let_def split: prod.splits sum.splits)

lemma finish_run:
  assumes "inv w" and "finish_with K orig b ph cs rs msg w = (x, w')"
  shows "G w w'"
  using assms(2) phase_run [OF assms(1)] by (auto simp: finish_with_def split: prod.splits)

lemma reconcileSync_calls:
  assumes w: "inv w" and run: "reconcileSync K orig b sa e w = (r, w')"
  shows "G w w'"
proof -
  obtain x w1 where s: "syncBindings K b sa w = (x, w1)" by fastforce
  have g: "G w w1" by (rule sync_run [OF w s])
  from run s have "w' = w1 \<or> (\<exists>p. updatePhase K orig (set_ref_expiry (om_UID sa) e b) BindBinded ConditionTrue ''Bound'' (bound_message b) w1 = (p, w')) \<or>
      (\<exists>m. finish_with K orig b BindFailed ConditionFalse ''BindFailed'' m w1 = (r, w'))"
    by (cases x) (auto simp: reconcileSync_def Let_def split: if_splits prod.splits option.splits)
  then show ?thesis using g phase_run [OF G_inv [OF g]] finish_run [OF G_inv [OF g]] by (auto intro: G_trans)
qed

lemma reconcileActive_calls:
  assumes w: "inv w" and run: "reconcileActive K b e w = (r, w')"
  shows "G w w'"
proof -
  obtain x w1 where s: "ensureServiceAccount K b w = (x, w1)" by fastforce
  have g: "G w w1" by (rule createOrUpdateSA [OF w s [unfolded ensureServiceAccount_def]])
  show ?thesis
  proof (cases x)
    case (Inl err)
    with run s have "finish_with K b b BindFailed ConditionFalse ''ServiceAccountFailed'' (errText err) w1 = (r, w')"
      by (simp add: reconcileActive_def)
    from G_trans [OF g finish_run [OF G_inv [OF g] this]] show ?thesis .
  next
    case (Inr sa)
    obtain p w2 where u: "updatePhase K b (set_ref (om_UID sa) b) BindBinding ConditionUnknown ''Syncing''
        ''Syncing RBAC bindings'' w1 = (p, w2)" by (rule prod.exhaust)
    have g2: "G w w2" by (rule G_trans [OF g phase_run [OF G_inv [OF g] u]])
    from run s Inr u have "w' = w2 \<or> (\<exists>y. reconcileSync K b y sa e w2 = (r, w')) \<or> reconcileSync K b b sa e w1 = (r, w')"
      by (cases p) (auto simp: reconcileActive_def split: if_splits option.splits)
    then show ?thesis using g g2 reconcileSync_calls [OF G_inv [OF g]] reconcileSync_calls [OF G_inv [OF g2]]
      by (auto intro: G_trans)
  qed
qed

lemma reconcileBind_calls:
  assumes w: "inv w" and run: "reconcileBind K L b w = (r, w')"
  shows "G w w'"
proof -
  have x: "G w w'" if "reconcileExpired K b w = (r, w')"
  proof -
    obtain y w1 where d: "deleteOwned K (om_UID b) w = (y, w1)" by fastforce
    have g: "G w w1" by (rule delete_run [OF w d])
    from that d have "w' = w \<or> w' = w1 \<or> finish_with K b b BindUnbound ConditionFalse ''Expired'' ''TTL elapsed'' w1 = (r, w')"
      by (cases y) (auto simp: reconcileExpired_def split: if_splits)
    then show ?thesis using g G_refl [OF w] finish_run [OF G_inv [OF g]] by (auto intro: G_trans)
  qed
  from run have "(\<exists>p. updatePhase K b b BindPending ConditionUnknown ''Accepted'' ''Bind accepted, pending sync'' w = (p, w')) \<or>
      (\<exists>m. finish_with K b b BindFailed ConditionFalse ''InvalidTTL'' m w = (r, w')) \<or>
      reconcileExpired K b w = (r, w') \<or> (\<exists>e. reconcileActive K b e w = (r, w'))"
    by (auto simp: reconcileBind_def split: if_splits prod.splits option.splits sum.splits)
  then show ?thesis using x phase_run [OF w] finish_run [OF w] reconcileActive_calls [OF w] by blast
qed

lemma Reconcile_calls:
  assumes w: "inv w" and run: "Reconcile K L k w = (r, w')"
  shows "G w w'"
proof -
  obtain x w1 where g: "k_getBind K k w = (x, w1)" by fastforce
  have g1: "G w w1" by (rule getBind [OF w g])
  note w1 = G_inv [OF g1]
  have d: "G w1 w'" if del: "reconcileDelete K b w1 = (r, w')" for b
  proof -
    obtain y w2 where o: "deleteOwned K (om_UID b) w1 = (y, w2)" by fastforce
    have g2: "G w1 w2" by (rule delete_run [OF w1 o])
    from del o have "w' = w1 \<or> w' = w2 \<or> (\<exists>b z. k_updateBind K b w2 = (z, w'))"
      by (cases y) (auto simp: reconcileDelete_def split: if_splits prod.splits sum.splits)
    then show ?thesis using g2 G_refl [OF w1] updateBind [OF G_inv [OF g2]] by (auto intro: G_trans)
  qed
  from run g have "w' = w1 \<or> (\<exists>b. reconcileDelete K b w1 = (r, w')) \<or> (\<exists>b z. k_updateBind K b w1 = (z, w')) \<or>
      (\<exists>b. reconcileBind K L b w1 = (r, w'))"
    by (cases x) (auto simp: Reconcile_def split: if_splits prod.splits sum.splits bool.splits)
  then have "w' = w1 \<or> G w1 w'" using d updateBind [OF w1] reconcileBind_calls [OF w1] by blast
  with g1 show ?thesis by (auto intro: G_trans)
qed

lemma reconciles_calls: "inv w \<Longrightarrow> G w (reconciles K L k n w)"
proof (induction n)
  case 0
  then show ?case by (simp add: reconciles_def G_refl)
next
  case (Suc n)
  then have g: "G w (reconciles K L k n w)" by simp
  have "G (reconciles K L k n w) (reconciles K L k (Suc n) w)"
    by (rule Reconcile_calls [OF G_inv [OF g], of L k "fst (Reconcile K L k (reconciles K L k n w))"])
      (simp add: reconciles_def)
  with g show ?case by (rule G_trans)
qed

end

text \<open>The same server with a call that takes its time.\<close>

definition slow_sa :: "('w \<Rightarrow> 'w) \<Rightarrow> ('w, 'a) kube_scheme \<Rightarrow> ('w, 'a) kube_scheme" where
  "slow_sa adv K = K\<lparr>k_createOrUpdateSA := \<lambda>k f w. k_createOrUpdateSA K k f (adv w)\<rparr>"

lemma slow_sa_sel:
  "k_now (slow_sa adv K) = k_now K" "k_getBind (slow_sa adv K) = k_getBind K" "k_updateBind (slow_sa adv K) = k_updateBind K"
  "k_patchStatus (slow_sa adv K) = k_patchStatus K" "k_listClusterRoles (slow_sa adv K) = k_listClusterRoles K"
  "k_listRoles (slow_sa adv K) = k_listRoles K" "k_createCRB (slow_sa adv K) = k_createCRB K"
  "k_listCRBs (slow_sa adv K) = k_listCRBs K" "k_deleteCRB (slow_sa adv K) = k_deleteCRB K"
  "k_createRB (slow_sa adv K) = k_createRB K" "k_listRBs (slow_sa adv K) = k_listRBs K"
  "k_deleteRB (slow_sa adv K) = k_deleteRB K" "k_addFinalizer (slow_sa adv K) = k_addFinalizer K"
  "k_removeFinalizer (slow_sa adv K) = k_removeFinalizer K" "k_containsFinalizer (slow_sa adv K) = k_containsFinalizer K"
  "k_setControllerReference (slow_sa adv K) = k_setControllerReference K"
  "k_createOrUpdateSA (slow_sa adv K) = (\<lambda>k f w. k_createOrUpdateSA K k f (adv w))"
  by (simp_all add: slow_sa_def)

lemma slow_sync: "syncBindings (slow_sa adv K) b sa w = syncBindings K b sa w"
  unfolding syncBindings_def syncClusterRoleBindings_def syncRoleBindings_def slow_sa_sel by (rule refl)

lemma slow_sa_reliable:
  assumes rel: "reliable_api K view" and adv: "\<And>w. view (adv w) = view w"
  shows "reliable_api (slow_sa adv K) view"
proof -
  have op: "operator_api K view" using rel by (rule reliable_api.axioms)
  note sa = operator_api.createOrUpdateSA_ok [OF op, where w = "adv w" for w, unfolded adv]
    operator_api.createOrUpdateSA_err [OF op, where w = "adv w" for w, unfolded adv]
    reliable_api.createOrUpdateSA_total [OF rel, where w = "adv w" for w, unfolded adv]
  have "rbac_api (slow_sa adv K) view"
    using operator_api.axioms(1) [OF op] unfolding rbac_api_def slow_sa_sel .
  moreover have "operator_api_axioms (slow_sa adv K) view"
    using operator_api.axioms(2) [OF op] sa(1,2) unfolding operator_api_axioms_def slow_sa_sel
    by (elim conjE; intro conjI; assumption?) blast+
  moreover have "reliable_api_axioms (slow_sa adv K) view"
    using reliable_api.axioms(2) [OF rel] sa(3) unfolding reliable_api_axioms_def slow_sa_sel
    by (elim conjE; intro conjI; assumption?) blast+
  ultimately show ?thesis by (intro reliable_api.intro operator_api.intro)
qed

definition later :: "duration \<Rightarrow> mem \<Rightarrow> mem" where
  "later d w = w\<lparr>mw_now := mw_now w + d\<rparr>"

lemma later_sel [simp]: "mw_now (later d w) = mw_now w + d" "mem_view (later d w) = mem_view w"
  by (simp_all add: later_def mem_view_def)

interpretation slow: reliable_api "slow_sa (later d) (mem_api False)" mem_view for d
  by (rule slow_sa_reliable [OF mem_ok.reliable_api_axioms]) simp

text \<open>The clock of the server in memory stands still during a call.\<close>

interpretation clock: call_guarantee "\<lambda>_. True" "\<lambda>w w'. mw_now w' = mw_now w" "mem_api f" for f
  by unfold_locales (auto simp: mem_api_def mem_call_defs tick_def put_mem_bind_def Let_def split: if_splits option.splits sum.splits)

lemma mem_sync_now:
  assumes "syncBindings (slow_sa adv (mem_api False)) b sa w = (r, w')"
  shows "mw_now w' = mw_now w"
  using assms clock.sync_run [OF TrueI] by (simp only: slow_sync)

lemma ex_settled_sel [simp]:
  "bindExpiry L ex_settled = Inr (8 * Hour)" "live ex_settled" "phase ex_settled = BindBinded"
  "om_UID ex_settled = ''u1''" "nsname_of ex_settled = ex_key"
  "sv_Ref (st_Sv (uab_Status ex_settled)) = ''s1''" "sv_ExpiresAt (st_Sv (uab_Status ex_settled)) = Some (8 * Hour)"
  "om_Namespace ex_settled = ''kargus''" "spec_User (uab_Spec ex_settled) = ''ana''"
  "om_DeletionTimestamp ex_settled = None" "om_Finalizers ex_settled = [finalizer]"
  by (simp add: ex_settled_def set_ref_expiry_def) (simp_all add: ex_settled_def live_def, simp_all add: set_ref_expiry_def)

lemma ex_settled_spec: "uab_Spec ex_settled = uab_Spec (ex_bind [finalizer] BindBinded)"
  by (simp add: ex_settled_def)

lemma ex_settled_canonical [simp]: "canonical ''u1'' (bind_subject ex_settled) (mem_view (ex_bound_world now b))"
  by (auto simp: canonical_def canonical_binding_def ex_crb_def ex_rb_def bindingName_def new_object_defs owned_by_def
      bind_subject_def)

lemma slow_now [simp]: "k_now (slow_sa adv (mem_api f)) = mw_now"
  by (simp add: slow_sa_sel mem_api_def)

lemma ex_settled_run:
  "\<exists>w'. Reconcile (slow_sa (later d) (mem_api False)) ex_lib ex_key (ex_bound_world Hour ex_settled) =
     (Inr \<lparr>RequeueAfter = Sub (8 * Hour) (Hour + d)\<rparr>, w') \<and> mw_now w' = Hour + d \<and>
     cl_binds (mem_view w') ex_key = Some ex_settled"
proof -
  let ?K = "slow_sa (later d) (mem_api False)" and ?w = "ex_bound_world Hour ex_settled"
  have g: "k_getBind ?K ex_key ?w = (Inr ex_settled, tick ?w)"
    by (simp add: slow_sa_sel mem_api_def call_def faulty_def mem_getBind_def)
  obtain w1 where s: "ensureServiceAccount ?K ex_settled (tick ?w) = (Inr ex_sa, w1)" and n1: "mw_now w1 = Hour + d"
    and b1: "cl_binds (mem_view w1) ex_key = Some ex_settled"
    by (auto simp: ensureServiceAccount_def slow_sa_sel mem_api_def call_def faulty_def mem_createOrUpdateSA_def
        mem_setControllerReference_def later_def Let_def)
  obtain w2 where y: "syncBindings ?K ex_settled ex_sa w1 = (None, w2)" using slow.syncBindings_total by blast
  have n2: "mw_now w2 = Hour + d" using mem_sync_now [OF y] n1 by simp
  have b2: "cl_binds (mem_view w2) ex_key = Some ex_settled"
    using sync_frame_binds [OF slow.syncBindings_frame [OF y]] b1 by simp
  have "Reconcile ?K ex_lib ex_key ?w = (Inr \<lparr>RequeueAfter = Sub (8 * Hour) (Hour + d)\<rparr>, w2)"
    using g s y n2 by (simp add: slow.Reconcile_live reconcileBind_def reconcileActive_def reconcileSync_def Let_def)
  with n2 b2 show ?thesis by blast
qed

section \<open>The properties\<close>



text \<open>
  C36. The end can be missed. When the expiry of a settled resource comes while the run is still
  going, after the check of the expiry, the run leaves the resource and its access as they are,
  and the time after which it asks to be run again is not positive, which the work queue takes
  for no request at all; and since nothing was written, no watch event brings another run.
\<close>

theorem expiry_missed:
  assumes "operator_api K view" and "Reconcile K L k w = (Inr res, w')" and "cl_binds (view w) k = Some b" "live b"
    and "canonical (om_UID b) (bind_subject b) (view w)"
    and "cl_binds (view w') k = Some b'" "phase b' = BindBinded"
    and "phase b = BindBinded" and "bindExpiry L b = Inr e" and "sv_ExpiresAt (st_Sv (uab_Status b)) = Some e"
    and "cl_sas (view w) (om_Namespace b, spec_User (uab_Spec b)) = Some sa" and "sv_Ref (st_Sv (uab_Status b)) = om_UID sa"
    and "e \<le> k_now K w'"
  shows "RequeueAfter res \<le> 0 \<and> b' = b \<and>
    granted_cluster_roles (om_UID b) (bind_subject b) (view w') = om_Name ` entitled b (cl_clusterroles (view w)) \<and>
    granted_roles (om_UID b) (bind_subject b) (view w') = nsname_of ` entitled b (cl_roles (view w))"
proof -
  have "RequeueAfter res \<le> 0 \<and> b' = b"
    by (rule operator_api.Reconcile_binded [OF assms(1-4,6,7)]) (use assms(8-13) Sub_past in auto)
  with operator_api.Reconcile_binded_grants(1,2) [OF assms(1-7)] show ?thesis by simp
qed

theorem expiry_missed_witness:
  "\<exists>res w'. Reconcile (slow_sa (later (8 * Hour)) (mem_api False)) ex_lib ex_key (ex_bound_world Hour ex_settled) = (Inr res, w') \<and>
     RequeueAfter res \<le> 0 \<and> 8 * Hour \<le> mw_now w' \<and>
     granted_cluster_roles ''u1'' (bind_subject ex_settled) (mem_view w') = {''view''}"
proof -
  let ?K = "slow_sa (later (8 * Hour)) (mem_api False)" and ?w = "ex_bound_world Hour ex_settled"
  obtain res w' where r: "Reconcile ?K ex_lib ex_key ?w = (Inr res, w')"
    and n: "mw_now w' = Hour + 8 * Hour" and b': "cl_binds (mem_view w') ex_key = Some ex_settled"
    using ex_settled_run [of "8 * Hour"] by blast
  have e: "om_Name ` entitled ex_settled (cl_clusterroles (mem_view ?w)) = {''view''}"
    unfolding mem_view_sel ex_bound_world_sel ex_entitled_roles(1) [of ex_settled "[finalizer]" BindBinded, OF ex_settled_spec]
    by (simp add: ex_role_def object_meta_def)
  have "RequeueAfter res \<le> 0 \<and> ex_settled = ex_settled \<and>
    granted_cluster_roles (om_UID ex_settled) (bind_subject ex_settled) (mem_view w') = om_Name ` entitled ex_settled (cl_clusterroles (mem_view ?w)) \<and>
    granted_roles (om_UID ex_settled) (bind_subject ex_settled) (mem_view w') = nsname_of ` entitled ex_settled (cl_roles (mem_view ?w))"
    by (rule expiry_missed [OF slow.operator_api_axioms r _ _ _ b', where e = "8 * Hour" and sa = ex_sa]) (simp_all add: n)
  with r n e show ?thesis by auto
qed

section \<open>Lists from a cache\<close>

text \<open>
  The client that the manager gives to the reconciler answers reads from a cache, which follows
  the API server with a delay: \<open>cache\<close> is what it holds of the ClusterRoleBindings at the time of
  the run.
\<close>

definition cached_lists :: "Binding list \<Rightarrow> ('w, 'a) kube_scheme \<Rightarrow> ('w, 'a) kube_scheme" where
  "cached_lists cache K =
     K\<lparr>k_listCRBs := \<lambda>lab v w. (Inr (filter (\<lambda>b. om_Labels b lab = Some v) cache), w)\<rparr>"

context operator_api
begin

text \<open>Deletion removes what the list shows, and nothing else.\<close>

lemma cached_delete_keeps:
  assumes run: "deleteOwned (cached_lists cache K) uid w = (r, w')"
    and x: "cl_crbs (view w) n = Some x" and c: "n \<notin> om_Name ` set cache"
  shows "cl_crbs (view w') n = Some x" and "cl_binds (view w') = cl_binds (view w)"
proof -
  let ?owned = "filter (\<lambda>b. om_Labels b ownerLabel = Some uid) cache"
  obtain r1 w1 where p: "pruneBindings (k_deleteCRB K) (\<lambda>_. False) ''deleting ClusterRoleBinding'' ?owned w = (r1, w1)"
    by fastforce
  have s: "(view w1)\<lparr>cl_crbs := Map.empty\<rparr> = (view w)\<lparr>cl_crbs := Map.empty\<rparr> \<and>
      shrunk (cl_crbs (view w)) (cl_crbs (view w1)) (\<lambda>y. om_Name y \<in> om_Name ` set cache)"
    by (rule crb.prune_shrunk [OF p]) (auto dest: crb.objs_key)
  have v1: "view w1 = (view w)\<lparr>cl_crbs := cl_crbs (view w1)\<rparr>" using s view_rest_crb by blast
  have "cl_crbs (view w1) n = Some x" using shrunkD [OF s [THEN conjunct2] x] crb.objs_key [OF x] c by simp
  moreover have "cl_binds (view w1) = cl_binds (view w)" by (subst v1) simp
  moreover have "cl_crbs (view w') = cl_crbs (view w1) \<and> cl_binds (view w') = cl_binds (view w1)"
  proof (cases r1)
    case (Some e)
    with run p show ?thesis by (simp add: deleteOwned_def deleteKind_def cached_lists_def)
  next
    case None
    with run p have "deleteKind (k_listRBs K) (k_deleteRB K) ''listing owned RoleBindings'' ''deleting RoleBinding'' uid w1 = (r, w')"
      by (simp add: deleteOwned_def deleteKind_def cached_lists_def)
    from rb.deleteKind_frame [OF this] have v': "view w' = (view w1)\<lparr>cl_rbs := cl_rbs (view w')\<rparr>"
      using view_rest_rb by blast
    show ?thesis by (subst v', subst (2) v') simp
  qed
  ultimately show "cl_crbs (view w') n = Some x" "cl_binds (view w') = cl_binds (view w)" by simp_all
qed

end

text \<open>
  C37. With lists from a cache, access can outlive its resource: a reconcile that succeeds on a
  resource under deletion takes the finalizer away, and a ClusterRoleBinding of the resource
  that the cache had not yet seen stays.
\<close>

theorem stale_list_leaves_access:
  assumes "operator_api K view" and "Reconcile (cached_lists cache K) L k w = (Inr res, w')"
    and "cl_binds (view w) k = Some b" "om_DeletionTimestamp b \<noteq> None" "finalizer \<in> set (om_Finalizers b)"
    and "cl_crbs (view w) n = Some x" and "n \<notin> om_Name ` set cache"
  shows "cl_crbs (view w') n = Some x \<and> (\<forall>b'. cl_binds (view w') k = Some b' \<longrightarrow> finalizer \<notin> set (om_Finalizers b'))"
proof -
  note api = operator_api.containsFinalizer [OF assms(1)] operator_api.removeFinalizer [OF assms(1)]
  let ?K = "cached_lists cache K" and ?b = "b\<lparr>om_Finalizers := filter (\<lambda>x. x \<noteq> finalizer) (om_Finalizers b)\<rparr>"
  have key: "nsname_of b = k" by (rule operator_api.bind_key [OF assms(1,3)])
  obtain g w0 where g: "k_getBind K k w = (g, w0)" by fastforce
  have v0: "view w0 = view w" by (rule operator_api.getBind_view [OF assms(1) g])
  have gb: "g = Inr b"
    using g assms(2,3) operator_api.getBind_missing [OF assms(1)] operator_api.getBind_ok [OF assms(1)]
    by (cases g) (auto simp: Reconcile_def cached_lists_def split: if_splits)
  have del: "reconcileDelete ?K b w0 = (Inr res, w')"
    using assms(2,4) g gb by (simp add: Reconcile_def cached_lists_def)
  obtain r1 w1 where d: "deleteOwned ?K (om_UID b) w0 = (r1, w1)" by fastforce
  have keep: "cl_crbs (view w1) n = Some x" "cl_binds (view w1) = cl_binds (view w)"
    using operator_api.cached_delete_keeps [OF assms(1) d _ assms(7)] assms(6) v0 by simp_all
  from del d assms(5) obtain y where "k_updateBind K ?b w1 = (Inr y, w')"
    by (auto simp: reconcileDelete_def cached_lists_def api split: option.splits sum.splits prod.splits)
  from operator_api.updateBind_ok [OF assms(1) this] keep(2) assms(3) key
  have "view w' = put_bind k (stored ?b) (view w1)" by auto
  with keep(1) show ?thesis by (auto simp: stored_def split: if_splits)
qed

theorem stale_list_leaves_access_witness:
  "\<exists>res w'. Reconcile (cached_lists [] (mem_api False)) ex_lib ex_key
       (ex_bound_world 0 ((ex_bind [finalizer] BindBinded)\<lparr>om_DeletionTimestamp := Some 0\<rparr>)) = (Inr res, w') \<and>
     cl_crbs (mem_view w') ''kargus-u1-view'' = Some ex_crb \<and> owned_by ''u1'' ex_crb \<and> cl_binds (mem_view w') ex_key = None"
proof -
  let ?b = "(ex_bind [finalizer] BindBinded)\<lparr>om_DeletionTimestamp := Some 0\<rparr>"
  have key: "nsname_of ?b = ex_key" by (simp add: ex_bind_def new_object_defs nsname_of_def ex_key_def)
  have "\<exists>res w'. Reconcile (cached_lists [] (mem_api False)) ex_lib ex_key (ex_bound_world 0 ?b) = (Inr res, w') \<and>
      cl_binds (mem_view w') ex_key = None"
    by (simp add: reconcile_run mem_run key cached_lists_def put_mem_bind_def stored_def updated_def)
  then obtain res w' where r: "Reconcile (cached_lists [] (mem_api False)) ex_lib ex_key (ex_bound_world 0 ?b) = (Inr res, w')"
    "cl_binds (mem_view w') ex_key = None" by blast
  from stale_list_leaves_access [OF mem.operator_api_axioms r(1), of ?b "''kargus-u1-view''" ex_crb] key
  have "cl_crbs (mem_view w') ''kargus-u1-view'' = Some ex_crb" by simp
  with r show ?thesis by auto
qed

end
