(* ===== verification/Session.thy ===== *)
theory Session
  imports System Revocation
begin

text \<open>
  How long a session lasts. Every refresh saves the session for the full lifetime again and
  renews the resource, with the groups of the login: a session ends when it is not refreshed in
  time, and by nothing else. Neither the lifetime nor the deletion of the resource bounds it.
\<close>

section \<open>A session\<close>

text \<open>
  A session of \<open>n\<close> refreshes on the in-process store: after some time the last token is
  presented, and the answer carries the next one.
\<close>

inductive session ::
  "('a memory_scheme, 'd) deps_scheme \<Rightarrow> Config \<Rightarrow> nat \<Rightarrow> string \<Rightarrow> 'a memory_scheme \<Rightarrow> string \<Rightarrow> 'a memory_scheme \<Rightarrow> bool"
  for D cfg where
  start: "session D cfg 0 tok w tok w"
| refresh: "session D cfg n tok w tok1 w1 \<Longrightarrow> 0 \<le> d \<Longrightarrow> Get (form_of r) ''refresh_token'' = tok1 \<Longrightarrow>
    handleRefresh D cfg r (w1\<lparr>m_now := m_now w1 + d\<rparr>) = (writeTokenResponse a i tok2 e, w2) \<Longrightarrow>
    session D cfg (Suc n) tok w tok2 w2"

text \<open>The request of a client that knows its secret.\<close>

definition refresh_request :: "Config \<Rightarrow> RefreshGrant \<Rightarrow> string \<Rightarrow> Request" where
  "refresh_request cfg rg tok =
     \<lparr>rq_Query = [], rq_PostForm = Inr [(''refresh_token'', tok), (''client_id'', rg_ClientID rg), (''client_secret'', cfg_ClientSecret cfg)],
      rq_BasicAuth = None\<rparr>"

lemma refresh_request_sel [simp]:
  "Get (form_of (refresh_request cfg rg tok)) ''refresh_token'' = tok"
  "clientIDOf (refresh_request cfg rg tok) = rg_ClientID rg"
  "validClientSecret cfg (refresh_request cfg rg tok)"
  by (simp_all add: refresh_request_def form_of_def Get_def clientIDOf_def validClientSecret_iff presentedSecret_def)

text \<open>
  One refresh: the token is there and not yet expired, and the services answer without delay.
\<close>

lemma handleRefresh_renews:
  assumes st: "d_store D = memoryStore" and live: "m_refresh w tok = Some (rg, exp)" "m_now w \<le> exp"
    and ans: "\<And>w. \<exists>t w4. issueTokens D cfg (identity_of rg) (rg_ClientID rg) [] w = (Inr t, w4) \<and> m_now w4 = m_now w"
  shows "\<exists>a i tok' e w'. handleRefresh D cfg (refresh_request cfg rg tok) w = (writeTokenResponse a i tok' e, w') \<and>
    m_now w' = m_now w \<and> m_refresh w' tok' = Some (rg, m_now w + cfg_RefreshTokenLifetime cfg)"
proof -
  let ?w1 = "w\<lparr>m_refresh := (m_refresh w)(tok := None)\<rparr>"
  have t: "s_TakeRefresh (d_store D) tok w = (Inr rg, ?w1)"
    using live by (simp add: st memoryStore_def mem_TakeRefresh_def)
  obtain tk w4 where i: "issueTokens D cfg (identity_of rg) (rg_ClientID rg) [] ?w1 = (Inr tk, w4)" and n: "m_now w4 = m_now w"
    using ans [of ?w1] by auto
  from i obtain w3 where "s_SaveRefresh (d_store D) (is_refresh tk) rg (cfg_RefreshTokenLifetime cfg) w3 = (None, w4)"
    by (rule issueTokens_ok) simp
  then have "m_refresh w4 (is_refresh tk) = Some (rg, m_now w4 + cfg_RefreshTokenLifetime cfg)"
    by (auto simp: st memoryStore_def mem_SaveRefresh_def)
  moreover have "handleRefresh D cfg (refresh_request cfg rg tok) w =
      (writeTokenResponse (is_access tk) (is_id tk) (is_refresh tk) (is_expiresIn tk), w4)"
    using t i by (simp add: handleRefresh_def)
  ultimately show ?thesis using n by auto
qed

section \<open>Sessions without end\<close>

text \<open>
  C34. A session is not bounded by the lifetime of its refresh token: as long as the services
  answer, it can be kept for any number of lifetimes, and it still stands for the identity and
  the groups of the login it began with.
\<close>

theorem session_without_end:
  assumes "d_store D = memoryStore" and "0 \<le> cfg_RefreshTokenLifetime cfg"
    and "m_refresh w tok = Some (rg, m_now w + cfg_RefreshTokenLifetime cfg)"
    and "\<And>w. \<exists>t w4. issueTokens D cfg (identity_of rg) (rg_ClientID rg) [] w = (Inr t, w4) \<and> m_now w4 = m_now w"
  shows "\<exists>tok' w'. session D cfg n tok w tok' w' \<and> live_refresh w' tok' = Some rg \<and>
    m_now w' = m_now w + int n * cfg_RefreshTokenLifetime cfg"
proof -
  let ?T = "cfg_RefreshTokenLifetime cfg"
  have "\<exists>tok' w'. session D cfg n tok w tok' w' \<and> m_refresh w' tok' = Some (rg, m_now w' + ?T) \<and> m_now w' = m_now w + int n * ?T"
  proof (induction n)
    case 0
    show ?case using session.start [of D cfg tok w] assms(3) by auto
  next
    case (Suc n)
    then obtain tok1 w1 where s: "session D cfg n tok w tok1 w1" and l: "m_refresh w1 tok1 = Some (rg, m_now w1 + ?T)"
      and n: "m_now w1 = m_now w + int n * ?T" by blast
    let ?w = "w1\<lparr>m_now := m_now w1 + ?T\<rparr>"
    have "m_refresh ?w tok1 = Some (rg, m_now w1 + ?T)" "m_now ?w \<le> m_now w1 + ?T" using l by simp_all
    from handleRefresh_renews [OF assms(1) this assms(4)] obtain a i tok2 e w2 where
      h: "handleRefresh D cfg (refresh_request cfg rg tok1) ?w = (writeTokenResponse a i tok2 e, w2)"
      and w2: "m_now w2 = m_now w1 + ?T" "m_refresh w2 tok2 = Some (rg, m_now w2 + ?T)" by auto
    have "session D cfg (Suc n) tok w tok2 w2"
      by (rule session.refresh [OF s assms(2) refresh_request_sel(1) h])
    moreover have "m_now w2 = m_now w + int (Suc n) * ?T" using w2(1) n by (simp add: algebra_simps)
    ultimately show ?case using w2(2) by blast
  qed
  then obtain tok' w' where s: "session D cfg n tok w tok' w'" and l: "m_refresh w' tok' = Some (rg, m_now w' + ?T)"
    and t: "m_now w' = m_now w + int n * ?T" by blast
  have "live_refresh w' tok' = Some rg" using l assms(2) by (simp add: unexpired_def)
  with s t show ?thesis by blast
qed

theorem session_without_end_witness:
  "\<exists>tok' w'. session ex_deps ex_cfg 60 ''r''
       \<lparr>m_now = 0, m_auth = Map.empty, m_codes = Map.empty,
        m_refresh = [''r'' \<mapsto> (refreshGrant_of ex_identity ''kargus'', 12 * Hour)], bw_rand = 1\<rparr> tok' w' \<and>
     live_refresh w' tok' = Some (refreshGrant_of ex_identity ''kargus'') \<and> m_now w' = 30 * 24 * Hour"
proof -
  let ?w = "\<lparr>m_now = 0, m_auth = Map.empty, m_codes = Map.empty,
        m_refresh = [''r'' \<mapsto> (refreshGrant_of ex_identity ''kargus'', 12 * Hour)], bw_rand = 1\<rparr> :: broker_world"
  have "\<exists>tok' w'. session ex_deps ex_cfg 60 ''r'' ?w tok' w' \<and>
      live_refresh w' tok' = Some (refreshGrant_of ex_identity ''kargus'') \<and>
      m_now w' = m_now ?w + int 60 * cfg_RefreshTokenLifetime ex_cfg"
  proof (rule session_without_end)
    show "\<exists>t w4. issueTokens ex_deps ex_cfg (identity_of (refreshGrant_of ex_identity ''kargus''))
        (rg_ClientID (refreshGrant_of ex_identity ''kargus'')) [] w = (Inr t, w4) \<and> m_now w4 = m_now w" for w
      by (simp add: issueTokens_def ex_deps_def signIDToken_def randToken_def memoryStore_def mem_SaveRefresh_def Let_def)
  qed (simp_all add: ex_deps_def ex_cfg_def)
  then show ?thesis by (simp add: ex_cfg_def)
qed

section \<open>Deletion does not end a session\<close>

text \<open>
  C35. A refresh undoes the deletion of the resource: when it succeeds although the resource was
  gone, it has created it anew, with the groups of the login, has waited until the operator had
  bound it, and has minted a token of its ServiceAccount.
\<close>

theorem refresh_undoes_deletion:
  assumes "bind_client K W view" and "D = (mainDeps K W L I rand cfg st p)\<lparr>d_Sign := sign\<rparr>"
    and "s_TakeRefresh st (Get (form_of r) ''refresh_token'') w = (Inr rg, w1)"
    and "k = (cfg_BindNamespace cfg, SanitizeName L (rg_Email rg))" and "cl_binds (view w1) k = None"
    and "handleRefresh D cfg r w = (WriteJSON 200 body, w')"
  shows "\<exists>b w2 cr w3 a w4. cl_binds (view w2) k = Some b \<and> uab_Status b = empty_status \<and>
    spec_Memberships (uab_Spec b) = toCRMemberships (fromGroupRefs (rg_Groups rg)) \<and>
    cl_binds (view w3) k = Some cr \<and> phase cr = BindBinded \<and>
    k_createToken K k (cfg_TokenAudiences cfg) (wholeSeconds (cfg_TokenLifetime cfg)) w3 = (Inr a, w4)"
proof -
  let ?B = "NewBinder (cfg_BindNamespace cfg) (cfg_BindTTL cfg) waitBindedTimeout"
  obtain t where i: "issueTokens D cfg (identity_of rg) (rg_ClientID rg) [] w1 = (Inr t, w')"
    using handleRefresh_ok [OF assms(6)] assms(2,3) by auto
  then obtain name w2 w3 tok w4 where up: "d_Upsert D (identity_of rg) w1 = (Inr name, w2)"
    and wt: "d_WaitBinded D name w2 = (None, w3)" and mt: "d_Mint D name w3 = (Inr tok, w4)"
    by (rule issueTokens_ok)
  have u: "Upsert K L ?B (identity_of rg) w1 = (Inr name, w2)" using up by (simp add: assms(2))
  then obtain b' where n: "name = SanitizeName L (rg_Email rg)"
    and c: "k_createOrUpdateBind K (cfg_BindNamespace cfg, name) (\<lambda>cr. Inr (stamped ?B name (identity_of rg) (k_now K w1) cr)) w1 = (Inr b', w2)"
    by (rule bind_client.Upsert_ok [OF assms(1)]) (simp add: identity_of_def)
  have k: "k = (cfg_BindNamespace cfg, name)" using assms(4) n by simp
  from bind_client.upsert_new [OF assms(1) c] assms(5) have b: "cl_binds (view w2) k = Some b'" by (auto simp: k)
  note res = bind_client.Upsert_resource [OF assms(1) u, of b']
  have "uab_Status b' = empty_status" "spec_Memberships (uab_Spec b') = toCRMemberships (fromGroupRefs (rg_Groups rg))"
    using res(1,3) b assms(5) by (simp_all add: k identity_of_def)
  moreover obtain cr where "cl_binds (view w3) k = Some cr" "phase cr = BindBinded"
    using bind_client.waitBinded_binded [OF assms(1) _ wt [unfolded assms(2), simplified]] by (auto simp: k)
  moreover have "k_createToken K k (cfg_TokenAudiences cfg) (wholeSeconds (cfg_TokenLifetime cfg)) w3 = (Inr (tok_AccessToken tok), w4)"
    using Mint_ok(1) [OF mt [unfolded assms(2), simplified]] by (simp add: k)
  ultimately show ?thesis using b by blast
qed

text \<open>An operator that does its work while the broker waits for it.\<close>

definition busy_waiter :: "('w \<Rightarrow> 'w) \<Rightarrow> ('w, 'c) waiter_scheme \<Rightarrow> ('w, 'c) waiter_scheme" where
  "busy_waiter adv W = W\<lparr>wt_select := \<lambda>start poll i d w. wt_select W start poll i d (adv w)\<rparr>"

lemma busy_client: "bind_client K W view \<Longrightarrow> bind_client K (busy_waiter adv W) view"
  unfolding bind_client_def busy_waiter_def by simp

abbreviation operated :: "server_world waiter" where
  "operated \<equiv> busy_waiter (\<lambda>w. w\<lparr>sv_mem := reconciles (mem_api False) ex_lib ex_key 3 (sv_mem w)\<rparr>) server_waiter"

definition ex_deleted_world :: server_world where
  "ex_deleted_world =
     \<lparr>m_now = 0, m_auth = Map.empty, m_codes = Map.empty, m_refresh = [''r'' \<mapsto> (refreshGrant_of ex_user ''kargus'', Hour)],
      sv_mem = (ex_world 0 [] (ex_bind [] BindUnset))\<lparr>mw_binds := []\<rparr>\<rparr>"

lemma ex_deleted_wait:
  assumes b: "mw_binds (sv_mem w) = [b]" "nsname_of b = ex_key" "om_DeletionTimestamp b = None" "om_Finalizers b = []"
      "phase b = BindUnset" "spec_User (uab_Spec b) = ''ana''" "bindExpiry ex_lib b = Inr e" "0 < e"
    and w: "mw_now (sv_mem w) = 0" "mw_sas (sv_mem w) = []"
  shows "\<exists>w'. waitBinded server_kube operated (NewBinder ''kargus'' ttl waitBindedTimeout) ''ana'' w = (None, w') \<and>
    cl_sas (mem_view (sv_mem w')) ex_key \<noteq> None"
proof -
  let ?B = "NewBinder ''kargus'' ttl waitBindedTimeout" and ?m = "tick (sv_mem w)"
  let ?m2 = "reconciles (mem_api False) ex_lib ex_key 3 ?m"
  obtain fl where f: "waitFuel ?B = Suc (Suc fl)"
    using that [of "waitFuel ?B - 2"] by (simp add: waitFuel_def)
  have key: "om_Namespace b = ''kargus''" "om_Name b = ''ana''" using b(2) by (simp_all add: nsname_of_def ex_key_def)
  have c: "claimable (mem_api False) b (mem_view ?m)"
    using w(2) b(6) key by (simp add: claimable_def current_sa_def mem_api_def mem_setControllerReference_def new_object_defs
      nsname_of_def)
  have bm: "cl_binds (mem_view ?m) ex_key = Some b" using b by simp
  have "\<exists>b' sa. cl_binds (mem_view ?m2) ex_key = Some b' \<and> phase b' = BindBinded \<and>
      cl_sas (mem_view ?m2) (om_Namespace b, spec_User (uab_Spec b)) = Some sa"
    by (rule mem_ok.Reconcile_converges [OF bm b(3) _ b(5,7) _ c]) (use b w in \<open>simp_all add: mem_now\<close>)
  then obtain b' sa where b': "lookup nsname_of (mw_binds ?m2) ex_key = Some b'" "phase b' = BindBinded"
    and sa: "lookup nsname_of (mw_sas ?m2) ex_key = Some sa" using b(6) key by (auto simp: ex_key_def)
  have n: "mw_now ?m2 = 0" using clock.reconciles_calls [OF TrueI, of False ex_lib ex_key 3 ?m] w by simp
  have l: "lookup nsname_of [b] ex_key = Some b" using b(2) by simp
  let ?w1 = "w\<lparr>sv_mem := ?m\<rparr>" and ?w2 = "w\<lparr>sv_mem := ?m2\<lparr>mw_now := 500000000\<rparr>\<rparr>" and ?d = "15 * Second"
  have get: "wt_get operated ?d ex_key v = (Inr x, v\<lparr>sv_mem := tick (sv_mem v)\<rparr>)"
    if "lookup nsname_of (mw_binds (sv_mem v)) ex_key = Some x" "mw_now (sv_mem v) < ?d" for v x
  proof -
    have "k_getBind (mem_api False) ex_key m = (Inr x, tick m)" if "lookup nsname_of (mw_binds m) ex_key = Some x" for m
      using that by (simp add: mem_api_def call_def faulty_def mem_getBind_def)
    then show ?thesis using that by (simp add: busy_waiter_def lift_waiter_def through_def mem_waiter_def)
  qed
  have g1: "wt_get operated ?d ex_key w = (Inr b, ?w1)" using get [of w b] l b(1) w by simp
  have s1: "wt_select operated 0 500000000 1 ?d ?w1 = (None, ?w2)"
    using n by (simp add: busy_waiter_def lift_waiter_def through_def mem_waiter_def Let_def)
  have g2: "wt_get operated ?d ex_key ?w2 = (Inr b', ?w2\<lparr>sv_mem := tick (sv_mem ?w2)\<rparr>)"
    by (rule get) (use b' in simp_all)
  have "WaitBinded server_kube operated ?B (waitFuel ?B) ''ana'' w = (Some None, ?w2\<lparr>sv_mem := tick (sv_mem ?w2)\<rparr>)"
    using g1 s1 g2 b(5) b'(2) w(1) unfolding WaitBinded_def f
    by (simp add: NewBinder_def waitBindedTimeout_def lift_kube_def mem_now flip: ex_key_def)
  then show ?thesis using sa by (simp add: waitBinded_def)
qed

lemma ex_deleted_Upsert:
  "\<exists>b w1. Upsert server_kube ex_lib (NewBinder ''kargus'' ''8h'' waitBindedTimeout) ex_user (ex_deleted_world\<lparr>m_refresh := Map.empty\<rparr>) = (Inr ''ana'', w1) \<and>
     mw_binds (sv_mem w1) = [b] \<and> nsname_of b = ex_key \<and> om_DeletionTimestamp b = None \<and> om_Finalizers b = [] \<and>
     phase b = BindUnset \<and> spec_User (uab_Spec b) = ''ana'' \<and> bindExpiry ex_lib b = Inr (8 * Hour) \<and>
     mw_now (sv_mem w1) = 0 \<and> mw_sas (sv_mem w1) = []"
proof -
  let ?B = "NewBinder ''kargus'' ''8h'' waitBindedTimeout"
  have n: "SanitizeName ex_lib (id_Email ex_user) = ''ana''" by (simp add: ex_user_def SanitizeName_Ana)
  have "\<exists>b w1. Upsert server_kube ex_lib ?B ex_user (ex_deleted_world\<lparr>m_refresh := Map.empty\<rparr>) = (Inr ''ana'', w1) \<and>
     mw_binds (sv_mem w1) = [b] \<and> nsname_of b = ex_key \<and> om_DeletionTimestamp b = None \<and> om_Finalizers b = [] \<and>
     phase b = BindUnset \<and> spec_User (uab_Spec b) = ''ana'' \<and> mw_now (sv_mem w1) = 0 \<and> mw_sas (sv_mem w1) = []"
    by (simp add: Upsert_def Let_def n lift_kube_def through_def ex_deleted_world_def mem_api_def call_def faulty_def
        mem_createOrUpdateBind_def lookup_def put_mem_bind_def remove_key_def)
      (simp add: stamped_def new_object_defs nsname_of_def ex_key_def empty_status_def)
  then obtain b w1 where u: "Upsert server_kube ex_lib ?B ex_user (ex_deleted_world\<lparr>m_refresh := Map.empty\<rparr>) = (Inr ''ana'', w1)"
    and b: "mw_binds (sv_mem w1) = [b]" "nsname_of b = ex_key" and r: "om_DeletionTimestamp b = None" "om_Finalizers b = []"
     "phase b = BindUnset" "spec_User (uab_Spec b) = ''ana''" "mw_now (sv_mem w1) = 0" "mw_sas (sv_mem w1) = []" by blast
  have "bindExpiry ex_lib b = Inr (8 * Hour)"
    using server_client.Upsert_expiry [OF u, of b ex_lib "8 * Hour"] b
    by (simp add: NewBinder_def ex_key_def four_digit_year_def ex_duration TruncateSecond_def ex_deleted_world_def lift_kube_def mem_now)
  with u b r show ?thesis by blast
qed

theorem refresh_undoes_deletion_witness:
  "\<exists>(D :: server_world deps) body w' b w2 cr w3. handleRefresh D ex_server_cfg (refresh_request ex_server_cfg (refreshGrant_of ex_user ''kargus'') ''r'') ex_deleted_world =
       (WriteJSON 200 body, w') \<and> cl_binds (mem_view (sv_mem ex_deleted_world)) ex_key = None \<and>
     cl_binds (mem_view (sv_mem (w2 :: server_world))) ex_key = Some b \<and>
     spec_Memberships (uab_Spec b) = toCRMemberships (id_Groups ex_user) \<and>
     cl_binds (mem_view (sv_mem (w3 :: server_world))) ex_key = Some cr \<and> phase cr = BindBinded"
proof -
  let ?rg = "refreshGrant_of ex_user ''kargus''"
  let ?r = "refresh_request ex_server_cfg ?rg ''r''" and ?w1 = "ex_deleted_world\<lparr>m_refresh := Map.empty\<rparr>"
  obtain p :: Provider where "p = p" by simp
  define D where "D = (mainDeps server_kube operated ex_lib ex_server_idp ex_rand ex_server_cfg memoryStore p)\<lparr>d_Sign := \<lambda>_. Inr ''jwt''\<rparr>"
  have t: "s_TakeRefresh memoryStore (Get (form_of ?r) ''refresh_token'') ex_deleted_world = (Inr ?rg, ?w1)"
    by (simp add: memoryStore_def mem_TakeRefresh_def ex_deleted_world_def)
  have none: "cl_binds (mem_view (sv_mem ex_deleted_world)) ex_key = None" "cl_binds (mem_view (sv_mem ?w1)) ex_key = None"
    by (simp_all add: ex_deleted_world_def)
  have name: "SanitizeName ex_lib (id_Email ex_user) = ''ana''" by (simp add: ex_user_def SanitizeName_Ana)
  then have k: "ex_key = (cfg_BindNamespace ex_server_cfg, SanitizeName ex_lib (rg_Email ?rg))"
    by (simp add: ex_key_def refreshGrant_of_def)
  obtain b w2 where u: "Upsert server_kube ex_lib (NewBinder ''kargus'' ''8h'' waitBindedTimeout) ex_user ?w1 = (Inr ''ana'', w2)"
    and b: "mw_binds (sv_mem w2) = [b]" "nsname_of b = ex_key" "om_DeletionTimestamp b = None" "om_Finalizers b = []"
      "phase b = BindUnset" "spec_User (uab_Spec b) = ''ana''" "bindExpiry ex_lib b = Inr (8 * Hour)"
      "mw_now (sv_mem w2) = 0" "mw_sas (sv_mem w2) = []"
    using ex_deleted_Upsert by blast
  obtain w3 sa where wt: "waitBinded server_kube operated (NewBinder ''kargus'' ''8h'' waitBindedTimeout) ''ana'' w2 = (None, w3)"
    and sa: "cl_sas (mem_view (sv_mem w3)) ex_key = Some sa"
    using ex_deleted_wait [OF b(1-7) _ b(8,9), of "''8h''"] by auto
  have "\<exists>tok w4. Mint server_kube (NewMinter ''kargus'' [] (wholeSeconds (900 * Second))) ''ana'' w3 = (Inr tok, w4)"
    using sa by (simp add: Mint_def NewMinter_def lift_kube_def through_def mem_api_def call_def faulty_def mem_createToken_def
        flip: ex_key_def)
  then obtain tok w4 where mt: "Mint server_kube (NewMinter ''kargus'' [] (wholeSeconds (900 * Second))) ''ana'' w3 = (Inr tok, w4)" by blast
  have "\<exists>tk w'. issueTokens D ex_server_cfg ex_user ''kargus'' [] ?w1 = (Inr tk, w')"
    unfolding issueTokens_def using u wt mt
    by (simp add: D_def randToken_def ex_rand_def memoryStore_def mem_SaveRefresh_def signIDToken_def Let_def)
  then obtain tk w' where i: "issueTokens D ex_server_cfg ex_user ''kargus'' [] ?w1 = (Inr tk, w')" by blast
  obtain body where "writeTokenResponse (is_access tk) (is_id tk) (is_refresh tk) (is_expiresIn tk) = WriteJSON 200 body"
    using writeTokenResponse_ok by blast
  moreover have st: "d_store D = memoryStore" and cid: "rg_ClientID ?rg = ''kargus''" by (simp_all add: D_def refreshGrant_of_def)
  ultimately have h: "handleRefresh D ex_server_cfg ?r ex_deleted_world = (WriteJSON 200 body, w')"
    using t i unfolding handleRefresh_def st by simp
  from refresh_undoes_deletion [OF busy_client [OF server_client.bind_client_axioms] D_def t k none(2) h]
  obtain b' and v2 :: server_world and cr and v3 :: server_world where f: "cl_binds (mem_view (sv_mem v2)) ex_key = Some b'"
    "spec_Memberships (uab_Spec b') = toCRMemberships (fromGroupRefs (rg_Groups ?rg))"
    "cl_binds (mem_view (sv_mem v3)) ex_key = Some cr" "phase cr = BindBinded" by blast
  have g: "spec_Memberships (uab_Spec b') = toCRMemberships (id_Groups ex_user)" using f(2) by (simp add: refreshGrant_of_def)
  show ?thesis by (intro exI conjI) (rule h none(1) f(1) g f(3,4))+
qed

end
