(* ===== verification/Test_Utils.thy ===== *)
theory Test_Utils
  imports Config
begin

text \<open>
  The helpers of the operator's end-to-end tests (\<open>operator/test/utils/utils.go\<close>): the commands
  they run, the check for installed CRDs and the editing of a source file. The operating system
  is the argument \<open>S\<close>: working directory, environment, files and processes. Writes to a
  \<open>bytes.Buffer\<close> do not fail, so their error branches do not occur; messages to the test's
  output are left out.
\<close>

section \<open>Strings and lines\<close>

fun Index :: "string \<Rightarrow> string \<Rightarrow> nat option" where
  "Index [] sub = (if sub = [] then Some 0 else None)"
| "Index (c # cs) sub = (if HasPrefix (c # cs) sub then Some 0 else map_option Suc (Index cs sub))"

definition Contains :: "string \<Rightarrow> string \<Rightarrow> bool" where
  "Contains s sub \<longleftrightarrow> Index s sub \<noteq> None"

text \<open>\<open>strings.ReplaceAll\<close>, for a search string that is not empty.\<close>

fun ReplaceAll :: "string \<Rightarrow> string \<Rightarrow> string \<Rightarrow> string" where
  "ReplaceAll [] old new = []"
| "ReplaceAll (c # cs) old new =
     (if old \<noteq> [] \<and> HasPrefix (c # cs) old then new @ ReplaceAll (drop (length old - 1) cs) old new
      else c # ReplaceAll cs old new)"

abbreviation newline :: char where "newline \<equiv> CHR 0x0A"

definition dropCR :: "string \<Rightarrow> string" where
  "dropCR l = (if l \<noteq> [] \<and> last l = CHR 0x0D then butlast l else l)"

text \<open>
  The lines a \<open>bufio.Scanner\<close> gives: without line ends and a carriage return before them, no
  empty line after the last line end, and nothing from the first line on that does not fit its
  buffer of 64 KiB.
\<close>

definition MaxScanTokenSize :: nat where "MaxScanTokenSize = 65536"

definition scanLines :: "string \<Rightarrow> string list" where
  "scanLines s =
     (let ls = SplitByte newline s
      in map dropCR (takeWhile (\<lambda>l. length l < MaxScanTokenSize) (if last ls = [] then butlast ls else ls)))"

definition GetNonEmptyLines :: "string \<Rightarrow> string list" where
  "GetNonEmptyLines output = filter (\<lambda>element. element \<noteq> []) (SplitByte newline output)"

section \<open>Commands\<close>

record Cmd =
  cmd_Args :: "string list"
  cmd_Dir :: string
  cmd_Env :: "string list"

record 'w oslib =
  os_Getwd :: "'w \<Rightarrow> (string \<times> goerror option) \<times> 'w"
  os_Chdir :: "string \<Rightarrow> 'w \<Rightarrow> goerror option \<times> 'w"
  os_Environ :: "'w \<Rightarrow> string list"
  os_LookupEnv :: "string \<Rightarrow> 'w \<Rightarrow> string option"
  os_ReadFile :: "string \<Rightarrow> 'w \<Rightarrow> string res \<times> 'w"
  os_WriteFile :: "string \<Rightarrow> string \<Rightarrow> nat \<Rightarrow> 'w \<Rightarrow> goerror option \<times> 'w"
  os_CombinedOutput :: "Cmd \<Rightarrow> 'w \<Rightarrow> (string \<times> goerror option) \<times> 'w"

definition Command :: "string \<Rightarrow> string list \<Rightarrow> Cmd" where
  "Command name args = \<lparr>cmd_Args = name # args, cmd_Dir = [], cmd_Env = []\<rparr>"

definition GetProjectDir :: "('w, 'a) oslib_scheme \<Rightarrow> 'w \<Rightarrow> (string \<times> goerror option) \<times> 'w" where
  "GetProjectDir S w =
     (case os_Getwd S w of
        ((wd, Some err), w1) \<Rightarrow> ((wd, Some (Wrap ''failed to get current working directory'' err)), w1)
      | ((wd, None), w1) \<Rightarrow> ((ReplaceAll wd ''/test/e2e'' [], None), w1))"

text \<open>Errors of the directory are not looked at.\<close>

definition Run ::
  "('w, 'a) oslib_scheme \<Rightarrow> 'u unicode_scheme \<Rightarrow> Cmd \<Rightarrow> 'w \<Rightarrow> (string \<times> goerror option) \<times> 'w" where
  "Run S U cmd w =
     (case GetProjectDir S w of ((dir, _), w1) \<Rightarrow>
      case os_Chdir S dir w1 of (_, w2) \<Rightarrow>
      let cmd' = cmd\<lparr>cmd_Dir := dir, cmd_Env := os_Environ S w2 @ [''GO111MODULE=on'']\<rparr>;
          command = Join (cmd_Args cmd) '' ''
      in case os_CombinedOutput S cmd' w2 of
           ((output, Some err), w3) \<Rightarrow>
             ((output, Some (Wrap (Quote U command @ '' failed with error '' @ Quote U output) err)), w3)
         | ((output, None), w3) \<Rightarrow> ((output, None), w3))"

definition certmanagerVersion :: string where "certmanagerVersion = ''v1.20.2''"

definition certmanagerURL :: string where
  "certmanagerURL =
     ''https://github.com/cert-manager/cert-manager/releases/download/'' @ certmanagerVersion @ ''/cert-manager.yaml''"

fun run_all :: "('w, 'a) oslib_scheme \<Rightarrow> 'u unicode_scheme \<Rightarrow> Cmd list \<Rightarrow> 'w \<Rightarrow> 'w" where
  "run_all S U [] w = w"
| "run_all S U (c # cs) w = run_all S U cs (snd (Run S U c w))"

text \<open>A failure is a warning only.\<close>

definition UninstallCertManager :: "('w, 'a) oslib_scheme \<Rightarrow> 'u unicode_scheme \<Rightarrow> 'w \<Rightarrow> 'w" where
  "UninstallCertManager S U w =
     run_all S U
       (Command ''kubectl'' [''delete'', ''-f'', certmanagerURL] #
        map (\<lambda>lease. Command ''kubectl'' [''delete'', ''lease'', lease, ''-n'', ''kube-system'', ''--ignore-not-found'',
            ''--force'', ''--grace-period=0''])
          [''cert-manager-cainjector-leader-election'', ''cert-manager-controller'']) w"

definition InstallCertManager :: "('w, 'a) oslib_scheme \<Rightarrow> 'u unicode_scheme \<Rightarrow> 'w \<Rightarrow> goerror option \<times> 'w" where
  "InstallCertManager S U w =
     (case Run S U (Command ''kubectl'' [''apply'', ''-f'', certmanagerURL]) w of
        ((_, Some err), w1) \<Rightarrow> (Some err, w1)
      | ((_, None), w1) \<Rightarrow>
        (case Run S U (Command ''kubectl'' [''wait'', ''deployment.apps/cert-manager-webhook'', ''--for'',
               ''condition=Available'', ''--namespace'', ''cert-manager'', ''--timeout'', ''5m'']) w1 of
           ((_, err), w2) \<Rightarrow> (err, w2)))"

definition certManagerCRDs :: "string list" where
  "certManagerCRDs =
     [''certificates.cert-manager.io'', ''issuers.cert-manager.io'', ''clusterissuers.cert-manager.io'',
      ''certificaterequests.cert-manager.io'', ''orders.acme.cert-manager.io'', ''challenges.acme.cert-manager.io'']"

definition IsCertManagerCRDsInstalled :: "('w, 'a) oslib_scheme \<Rightarrow> 'u unicode_scheme \<Rightarrow> 'w \<Rightarrow> bool \<times> 'w" where
  "IsCertManagerCRDsInstalled S U w =
     (case Run S U (Command ''kubectl'' [''get'', ''crds'']) w of
        ((_, Some _), w1) \<Rightarrow> (False, w1)
      | ((output, None), w1) \<Rightarrow>
        (list_ex (\<lambda>crd. list_ex (\<lambda>line. Contains line crd) (GetNonEmptyLines output)) certManagerCRDs, w1))"

definition LoadImageToKindClusterWithName ::
  "('w, 'a) oslib_scheme \<Rightarrow> 'u unicode_scheme \<Rightarrow> string \<Rightarrow> 'w \<Rightarrow> goerror option \<times> 'w" where
  "LoadImageToKindClusterWithName S U name w =
     (let cluster = (case os_LookupEnv S ''KIND_CLUSTER'' w of Some v \<Rightarrow> v | None \<Rightarrow> ''kind'');
          kindBinary = (case os_LookupEnv S ''KIND'' w of Some v \<Rightarrow> v | None \<Rightarrow> ''kind'')
      in case Run S U (Command kindBinary [''load'', ''docker-image'', name, ''--name'', cluster]) w of
           ((_, err), w1) \<Rightarrow> (err, w1))"

section \<open>Uncommenting code\<close>

definition UncommentCode ::
  "('w, 'a) oslib_scheme \<Rightarrow> 'u unicode_scheme \<Rightarrow> string \<Rightarrow> string \<Rightarrow> string \<Rightarrow> 'w \<Rightarrow> goerror option \<times> 'w" where
  "UncommentCode S U filename target pfx w =
     (case os_ReadFile S filename w of
        (Inl err, w1) \<Rightarrow> (Some (Wrap (''failed to read file '' @ Quote U filename) err), w1)
      | (Inr content, w1) \<Rightarrow>
        (case Index content target of
           None \<Rightarrow> (Some (Errorf (''unable to find the code '' @ Quote U target @ '' to be uncommented'')), w1)
         | Some idx \<Rightarrow>
           if scanLines target = [] then (None, w1)
           else
             let out = take idx content @ Join (map (\<lambda>l. TrimPrefix l pfx) (scanLines target)) [newline] @
                   drop (idx + length target) content
             in case os_WriteFile S filename out 420 w1 of
                  (Some err, w2) \<Rightarrow> (Some (Wrap (''failed to write file '' @ Quote U filename) err), w2)
                | (None, w2) \<Rightarrow> (None, w2)))"

text \<open>A line that a scanner gives back as it is.\<close>

definition plain_line :: "string \<Rightarrow> bool" where
  "plain_line l \<longleftrightarrow> newline \<notin> set l \<and> (l = [] \<or> last l \<noteq> CHR 0x0D) \<and> length l < MaxScanTokenSize"

lemma Index_eq:
  assumes "HasPrefix (drop i s) sub" and "\<forall>j < i. \<not> HasPrefix (drop j s) sub" and "i \<le> length s"
  shows "Index s sub = Some i"
  using assms
proof (induction s sub arbitrary: i rule: Index.induct)
  case (1 sub)
  then show ?case by (simp add: HasPrefix_def)
next
  case (2 c cs sub)
  show ?case
  proof (cases i)
    case 0
    with "2.prems" show ?thesis by simp
  next
    case (Suc n)
    have "\<not> HasPrefix (drop j cs) sub" if "j < n" for j using "2.prems"(2) that Suc by (metis Suc_mono drop_Suc_Cons)
    with 2 Suc show ?thesis by auto
  qed
qed

text \<open>The target is where it was put, and not before.\<close>

definition first_at :: "string \<Rightarrow> string \<Rightarrow> string \<Rightarrow> bool" where
  "first_at pre target post \<longleftrightarrow> (\<forall>j < length pre. \<not> HasPrefix (drop j (pre @ target @ post)) target)"

lemma first_at_Index: "first_at pre target post \<Longrightarrow> Index (pre @ target @ post) target = Some (length pre)"
  by (rule Index_eq) (auto simp: first_at_def)

lemma plain_scan: "\<forall>l \<in> set ls. plain_line l \<Longrightarrow> map dropCR (takeWhile (\<lambda>l. length l < MaxScanTokenSize) ls) = ls"
  by (induction ls) (auto simp: plain_line_def dropCR_def)

lemma scanLines_Join:
  assumes "ls \<noteq> []" and "\<forall>l \<in> set ls. plain_line l" and "last ls \<noteq> []"
  shows "scanLines (Join ls [newline]) = ls" and "scanLines (Join ls [newline] @ [newline]) = ls"
proof -
  have n: "newline \<notin> set l" if "l \<in> set ls" for l using that assms(2) by (auto simp: plain_line_def)
  show "scanLines (Join ls [newline]) = ls"
    using assms(3) plain_scan [OF assms(2)] by (simp add: scanLines_def SplitByte_Join [OF assms(1) n] Let_def)
  have "Join ls [newline] @ [newline] = Join (ls @ [[]]) [newline]"
    using assms(1) by (induction ls "[newline]" rule: Join.induct) simp_all
  moreover have "SplitByte newline (Join (ls @ [[]]) [newline]) = ls @ [[]]"
    by (rule SplitByte_Join) (use n in auto)
  ultimately show "scanLines (Join ls [newline] @ [newline]) = ls"
    using plain_scan [OF assms(2)] by (simp add: scanLines_def Let_def)
qed

lemma UncommentCode_writes:
  assumes "os_ReadFile S filename w = (Inr (pre @ target @ post), w1)"
    and "first_at pre target post" and "scanLines target = ls" "ls \<noteq> []"
  shows "UncommentCode S U filename target pfx w =
    (case os_WriteFile S filename (pre @ Join (map (\<lambda>l. TrimPrefix l pfx) ls) [newline] @ post) 420 w1 of
       (Some err, w2) \<Rightarrow> (Some (Wrap (''failed to write file '' @ Quote U filename) err), w2)
     | (None, w2) \<Rightarrow> (None, w2))"
  using assms first_at_Index [OF assms(2)] by (simp add: UncommentCode_def Let_def)

section \<open>The properties\<close>

text \<open>
  C30. Uncommenting undoes commenting: when the target is a group of lines behind the prefix, and
  it is found where it was put, the file is written with exactly these lines without the prefix,
  and what is before and after them unchanged.
\<close>

theorem UncommentCode_roundtrip:
  assumes "target = Join (map (\<lambda>l. pfx @ l) ls) [newline]" and "ls \<noteq> []" and "\<forall>l \<in> set ls. plain_line (pfx @ l)"
    and "pfx @ last ls \<noteq> []" and "os_ReadFile S filename w = (Inr (pre @ target @ post), w1)"
    and "first_at pre target post"
    and "os_WriteFile S filename (pre @ Join ls [newline] @ post) 420 w1 = (None, w2)"
  shows "UncommentCode S U filename target pfx w = (None, w2)"
proof -
  have s: "scanLines target = map (\<lambda>l. pfx @ l) ls"
    unfolding assms(1) by (rule scanLines_Join(1)) (use assms(2-4) in \<open>auto simp: last_map\<close>)
  have "map (\<lambda>l. TrimPrefix l pfx) (map (\<lambda>l. pfx @ l) ls) = ls" by (simp add: map_idI)
  with UncommentCode_writes [OF assms(5,6) s, where U = U and pfx = pfx] assms(2,7) show ?thesis by simp
qed

text \<open>A file system with one file.\<close>

definition ex_os :: "string oslib" where
  "ex_os = \<lparr>os_Getwd = \<lambda>w. ((''/op/test/e2e'', None), w), os_Chdir = \<lambda>d w. (None, w), os_Environ = \<lambda>_. [],
     os_LookupEnv = \<lambda>_ _. None, os_ReadFile = \<lambda>f w. (Inr w, w), os_WriteFile = \<lambda>f c m w. (None, c),
     os_CombinedOutput = \<lambda>c w. (([], None), w)\<rparr>"

definition ex_unicode :: unicode where
  "ex_unicode = \<lparr>uc_lower = id, uc_fold = (=), uc_print = \<lambda>_. True\<rparr>"

theorem UncommentCode_roundtrip_witness:
  "UncommentCode ex_os ex_unicode ''k.yaml'' (''#- a'' @ newline # ''#- b'') ''#'' (''x'' @ newline # ''#- a'' @ newline # ''#- b;'') =
     (None, ''x'' @ newline # ''- a'' @ newline # ''- b;'')"
  by (rule UncommentCode_roundtrip [where ls = "[''- a'', ''- b'']" and pre = "''x'' @ [newline]" and post = "'';''" and
        ?w1.0 = "''x'' @ newline # ''#- a'' @ newline # ''#- b;''"])
    (simp_all add: plain_line_def MaxScanTokenSize_def ex_os_def HasPrefix_def first_at_def less_Suc_eq)

text \<open>
  A line end at the end of the target is lost: the lines come out without their prefix, but
  the line end is not written back, so that the last of them runs into what follows.
\<close>

theorem UncommentCode_drops_newline:
  assumes "ls \<noteq> []" and "\<forall>l \<in> set ls. plain_line l" and "last ls \<noteq> []"
    and "os_ReadFile S filename w = (Inr (pre @ (Join ls [newline] @ [newline]) @ post), w1)"
    and "first_at pre (Join ls [newline] @ [newline]) post"
    and "os_WriteFile S filename (pre @ Join (map (\<lambda>l. TrimPrefix l pfx) ls) [newline] @ post) 420 w1 = (None, w2)"
  shows "UncommentCode S U filename (Join ls [newline] @ [newline]) pfx w = (None, w2)"
  using UncommentCode_writes [OF assms(4,5) scanLines_Join(2) [OF assms(1-3)] assms(1), where U = U and pfx = pfx] assms(6)
  by simp

theorem UncommentCode_drops_newline_witness:
  "UncommentCode ex_os ex_unicode ''k.yaml'' (''#a'' @ [newline]) ''#'' (''#a'' @ newline # ''b'') = (None, ''ab'')"
  using UncommentCode_drops_newline [where S = ex_os and U = ex_unicode and ls = "[''#a'']" and pre = "[]" and post = "''b''" and
      w = "''#a'' @ newline # ''b''" and ?w1.0 = "''#a'' @ newline # ''b''" and pfx = "''#''" and filename = "''k.yaml''" and ?w2.0 = "''ab''"]
  by (simp add: plain_line_def MaxScanTokenSize_def ex_os_def TrimPrefix_def HasPrefix_def first_at_def)

end
