(* ===== verification/Spec2Isabelle.thy ===== *)
theory Spec2Isabelle
  imports Provenance_Properties Concurrent_Properties Server_Properties Store_Properties Binder_Properties Deep_Copy Operator_Main
    Session Test_Utils
begin

text \<open>
  kube-argus gives people access to a Kubernetes cluster by the groups of their identity
  provider. A login at the \<^emph>\<open>broker\<close> (an OpenID Connect provider of its own) writes a custom
  resource \<open>UserAuthenticationBind\<close> for the user; the \<^emph>\<open>operator\<close> reconciles it into a
  ServiceAccount and role bindings; the broker waits for that, mints a token of the
  ServiceAccount and hands it out with an id_token; the \<^emph>\<open>proxy\<close> before the API server exchanges
  the id_token of a request for a ServiceAccount token. This library models these programs from
  their Go source and proves what they promise each other.

  \<^bold>\<open>Conventions.\<close> A Go struct is a record with its fields under a short prefix, a method a
  function with explicit state: it takes the world it acts on and returns the new one. \<open>(T, error)\<close>
  is \<open>goerror + 'a\<close>. Strings are byte lists and \<open>decode_rune\<close> is Go's UTF-8; durations are integers
  with the 64-bit wrap-around written out where the code multiplies. Code that is not in the
  repository is a record of functions and an argument: \<open>kube\<close> and \<open>waiter\<close> (the Kubernetes
  client), \<open>golib\<close> (Unicode tables, the general time parser, \<open>url.Parse\<close>, SHA-256), \<open>redis\<close>,
  \<open>joselib\<close>, \<open>idplib\<close>, \<open>metalib\<close>, \<open>mgrlib\<close>, \<open>oslib\<close> (the files and commands of the test helpers), the verifier of the proxy. Where a proof needs to know how it behaves, a
  locale says so and is interpreted on a concrete implementation: the API server in memory
  (\<open>Mem_Api\<close>), alone or as a part of a larger world (\<open>Kube_Lift\<close>), and a Redis in memory
  (\<open>Store_Redis\<close>).

  \<^bold>\<open>The parts.\<close>

  \<^item> \<^emph>\<open>Shared ground\<close>: \<open>Kargus_Prelude\<close> (errors, collections), \<open>Go_Strings\<close>, \<open>Go_Utf8\<close>, \<open>Go_Time\<close>,
  \<open>Go_Rfc3339\<close>, \<open>Go_Float\<close>, \<open>Go_Url\<close> (the parts of Go's library the code uses), \<open>Kargus_Model\<close> (\<open>model.go\<close> and
  the types of the custom resource).

  \<^item> \<^emph>\<open>Operator\<close> (\<open>operator/internal/controller\<close>): \<open>Kube_Api\<close> states the contract of the API as
  locales (\<open>binding_kind\<close>, \<open>rbac_api\<close>, \<open>operator_api\<close>, \<open>reliable_api\<close>); \<open>Sync_Bindings\<close> models
  \<open>syncBindings\<close> and \<open>deleteOwned\<close>, \<open>Controller\<close> the whole of \<open>Reconcile\<close>. \<open>Sync_Correct\<close>,
  \<open>Controller_Correct\<close>: the bindings of a bound resource are exactly those of its groups.
  \<open>Controller_Steps\<close>: an abstract machine \<open>bind_step\<close> of the life of a bind, which every run of
  \<open>Reconcile\<close> refines, and its invariant over all interleavings of whole runs with failures and
  outside changes. \<open>Concurrent_Reconcile\<close> lets reconciles of different resources run at the same
  time, with steps of others before every single call: a run guarantees to the others what it relies
  on from them (locale \<open>shared_run\<close>), so that the invariant survives. The properties are in
  \<open>Operator_Properties\<close> and \<open>Concurrent_Properties\<close>. \<open>Deep_Copy\<close> models the generated deep copies on a
  heap of pointers, slices and maps, and shows that a copy shares nothing with its original,
  which is why the other theories may treat a resource as a value. \<open>Api_Scheme\<close> is the
  registration of the types (\<open>groupversion_info.go\<close>, the \<open>init\<close> functions), \<open>Operator_Main\<close> the
  flags of \<open>operator/cmd/main.go\<close>, the options made of them, \<open>SetupWithManager\<close> and the exit
  status.

  \<^item> \<^emph>\<open>Kubernetes client of the broker\<close> (\<open>service/internal/k8s\<close>): \<open>K8s_Name\<close> (\<open>SanitizeName\<close>),
  \<open>Binder\<close> (\<open>Upsert\<close>, \<open>WaitBinded\<close>, \<open>Mint\<close>, under the contract \<open>bind_client\<close>),
  \<open>Binder_Properties\<close> (login and reconcile together).

  \<^item> \<^emph>\<open>Stores\<close> (\<open>service/internal/store\<close>): \<open>Store\<close> (entries, the in-process store, its sweep loop and \<open>Close\<close>),
  \<open>Store_Redis\<close> (Redis with its JSON). The contract \<open>one_shot\<close> says that an entry is handed out
  at most once per save; both backends meet it. Properties: \<open>Store_Properties\<close>.

  \<^item> \<^emph>\<open>Configuration\<close> (\<open>config.go\<close>): \<open>Config\<close>, with Go's \<open>Atoi\<close>, \<open>ParseBool\<close> and \<open>%q\<close>.

  \<^item> \<^emph>\<open>Broker\<close> (\<open>service/internal/broker\<close>): \<open>Broker\<close> has one definition per endpoint and helper
  over the interfaces \<open>deps\<close>; \<open>Signer\<close> the signing key and the published key set;
  \<open>Broker_Correct\<close> the lemmas, \<open>Broker_Properties\<close> the properties: exchange and replay of codes,
  rotation of refresh tokens, redirects, what a rejected login leaves behind.

  \<^item> \<^emph>\<open>Identity providers\<close> (\<open>service/internal/idp\<close>): \<open>Idp\<close>, and \<open>Idp_Properties\<close> with the contract
  \<open>idp_provider\<close> that both providers meet.

  \<^item> \<^emph>\<open>HTTP server\<close> (\<open>server.go\<close>): \<open>Server\<close> (routes, the matching of \<open>http.ServeMux\<close>, the request
  log), \<open>Server_Properties\<close>.

  \<^item> \<^emph>\<open>Proxy\<close> (\<open>service/internal/proxy\<close>): \<open>Proxy\<close> (the handler and the cache), \<open>Proxy_Cache\<close> (the
  cache under concurrent requests, as a step relation whose steps are its critical sections),
  \<open>Proxy_Properties\<close>.

  \<^item> \<^emph>\<open>Commands\<close> (\<open>service/cmd\<close>): \<open>Proxy_Main\<close> and \<open>Server_Main\<close> model what the two commands
  assemble from the environment, in the order of their \<open>run\<close> functions, the HTTP servers with
  their settings, how they end and with which exit status (\<open>Http_Run\<close>). \<open>float64(expSecs)*0.8\<close> and
  \<open>Duration.Seconds\<close> are computed with IEEE rounding; the first is proved to be four fifths rounded
  down, the second to be exact for whole seconds.

  \<^item> \<open>System\<close> and this theory compose the services: a token of the broker, and what the proxy makes
  of it.

  \<^item> \<^emph>\<open>Operator, broker and their surroundings together\<close>: \<open>Traced_Api\<close> and \<open>Traced_Broker\<close> follow a
  relation between clusters through every call of \<open>Reconcile\<close>, of the broker's Kubernetes client and
  of its handlers (locales \<open>guarantee\<close>, \<open>traced_api\<close>, \<open>traced_deps\<close>), also with steps of others
  before each call (\<open>interfered\<close>). \<open>Provenance\<close> has the step relation \<open>sys_step\<close> of administrators,
  reconciles and requests, and the record of whom the identity provider has vouched for;
  \<open>Provenance_Properties\<close> shows that access and sessions exist only for those users.

  \<^item> \<^emph>\<open>The end of access\<close>: \<open>Revocation\<close> follows the clock through a reconcile (locale \<open>call_guarantee\<close>)
  and shows that the wake-up a bound resource asks for comes at its expiry and revokes it; that a
  reconcile during which the expiry passes asks for no wake-up at all; and that a reconcile whose
  lists come from a stale cache (\<open>cached_lists\<close>) can leave a binding behind. \<open>Session\<close> has the
  chain of refreshes of one login, which has no end of its own and creates a deleted resource
  again.

  \<^item> \<^emph>\<open>Test helpers of the operator\<close> (\<open>operator/test/utils\<close>): \<open>Test_Utils\<close>, over the files and the
  commands of the machine they run on.

  \<^bold>\<open>Fuel.\<close> The only loop with fuel is the polling of \<open>WaitBinded\<close>: \<open>waitFuel\<close> is one poll per
  interval of the timeout and three more, and \<open>WaitBinded_ends\<close> shows that this always suffices
  under the contract of the client. Every other recursion is structural or has a measure.

  \<^bold>\<open>Not modelled.\<close> Charts, manifests and documentation. Of the modelled
  parts: log messages (except the request log) and the logger's set-up; contexts that are
  only passed on; sockets and signals; the enforcement of the timeouts and of the TLS version, which
  are settings of the servers here; the forwarding done by \<open>httputil.ReverseProxy\<close>; the manager and
  the work queue of controller-runtime, of which only what the operator hands them is modelled; the
  connection that \<open>Close\<close> of the Redis store closes. The contract of the API that
  most properties of the operator assume has fresh reads, also where the manager reads through a
  cache; \<open>stale_list_leaves_access\<close> shows what does not hold without that. Each call of the Kubernetes API, of Redis and
  of a handler's dependencies is one atomic step. The interleavings considered are those of these
  single calls, in reconciles (\<open>Concurrent_Reconcile\<close>, where the work queue runs at most one of a
  resource) and in reconciles and requests (\<open>Provenance\<close>, where any may run), of requests at the
  cache (\<open>Proxy_Cache\<close>) and of operations on a store (\<open>Store\<close>).
\<close>

section \<open>From login to access\<close>

text \<open>
  C7. Tokens come only from a bound login. When the assembled broker issues tokens for an
  identity, the resource named after its e-mail address was binded at the moment the access
  token was requested, for the ServiceAccount of that name in the bind namespace, with the
  configured audiences and lifetime; and the id_token, issued in the broker's name for this
  e-mail address, is signed with the one key that the key set publishes, under its key id.
\<close>

theorem issued_tokens_are_bound:
  assumes "bind_client K W view" and "runServer (Inr (K, W)) L I J NewClient rand E v = (Inr (cfg, D, sg), v')"
    and "issueTokens D cfg ident clientID nonce w = (Inr t, w')"
  shows "(\<exists>cr w2 w3. cl_binds (view w2) (cfg_BindNamespace cfg, SanitizeName L (id_Email ident)) = Some cr \<and> phase cr = BindBinded \<and>
       k_createToken K (cfg_BindNamespace cfg, SanitizeName L (id_Email ident)) (cfg_TokenAudiences cfg)
         (wholeSeconds (cfg_TokenLifetime cfg)) w2 = (Inr (is_access t), w3)) \<and>
    (\<exists>c key kid. jl_Sign J key kid (marshalIdClaims c) = Inr (is_id t) \<and> ic_Email c = id_Email ident \<and>
       ic_Iss c = TrimRight (cfg_Issuer cfg) ''/'' \<and>
       jwks sg = [\<lparr>jwk_Key = jl_Public J key, jwk_KeyID = kid, jwk_Algorithm = ''RS256'', jwk_Use = ''sig''\<rparr>])"
proof -
  obtain st p u1 u2 g where
    sg: "newSigner J (TrimRight (cfg_Issuer cfg) ''/'') (cfg_IDTokenSigningKey cfg) u2 = (Inr (sg, g), v')"
    and D: "D = (mainDeps K W L I rand cfg st p)\<lparr>d_Sign := jl_Sign J (sg_key sg) (sg_kid sg)\<rparr>"
    using assms(2) by (rule runServer_ok)
  obtain name w1 w2 tok w3 w4 where up: "d_Upsert D ident w = (Inr name, w1)" and wt: "d_WaitBinded D name w1 = (None, w2)"
    and mt: "d_Mint D name w2 = (Inr tok, w3)"
    and sn: "signIDToken D (TrimRight (cfg_Issuer cfg) ''/'') (idClaims_of ident clientID nonce) (cfg_TokenLifetime cfg) w3 = Inr (is_id t)"
    and ac: "is_access t = tok_AccessToken tok"
    using assms(3) by (rule issueTokens_ok)
  have n: "name = SanitizeName L (id_Email ident)" using up unfolding D by (auto elim: bind_client.Upsert_ok [OF assms(1)])
  obtain cr where cr: "cl_binds (view w2) (cfg_BindNamespace cfg, name) = Some cr" "phase cr = BindBinded"
    using bind_client.waitBinded_binded [OF assms(1) _ wt [unfolded D, simplified]] by auto
  obtain c fs where "d_Sign D (JObj fs) = Inr (is_id t)" "marshalIdClaims c = JObj fs" "ic_Email c = id_Email ident"
    "ic_Iss c = TrimRight (cfg_Issuer cfg) ''/''" using sn by (rule signIDToken_claims)
  then have c: "jl_Sign J (sg_key sg) (sg_kid sg) (marshalIdClaims c) = Inr (is_id t)" "ic_Email c = id_Email ident"
    "ic_Iss c = TrimRight (cfg_Issuer cfg) ''/''" by (simp_all add: D)
  show ?thesis
    using cr Mint_ok(1) [OF mt [unfolded D, simplified]] c newSigner_ok(3) [OF sg]
    unfolding n ac jwks_def by blast
qed

theorem issued_tokens_are_bound_witness:
  "\<exists>D sg t w' cr (w2 :: server_world). ex_runServer ex_server_world = (Inr (ex_server_cfg, D, sg), ex_server_world) \<and>
     issueTokens D ex_server_cfg ex_user ''kargus'' [] ex_server_world = (Inr t, w') \<and>
     cl_binds (mem_view (sv_mem w2)) (''kargus'', ''ana'') = Some cr \<and> phase cr = BindBinded"
proof -
  obtain D sg where r: "ex_runServer ex_server_world = (Inr (ex_server_cfg, D, sg), ex_server_world)"
    using ex_runServer by blast
  obtain t w' where t: "issueTokens D ex_server_cfg ex_user ''kargus'' [] ex_server_world = (Inr t, w')"
    using ex_server_issue [OF r] by blast
  have n: "SanitizeName ex_lib (id_Email ex_user) = ''ana''" by (simp add: ex_user_def SanitizeName_Ana)
  from issued_tokens_are_bound [OF server_client.bind_client_axioms r t]
  obtain cr and w2 :: server_world where "cl_binds (mem_view (sv_mem w2)) (''kargus'', ''ana'') = Some cr" "phase cr = BindBinded"
    unfolding n by auto
  with r t show ?thesis by (intro exI conjI)
qed



end
